theory Spec2Isabelle
  imports Main "HOL-Library.Word"
begin

section \<open>The storage engine called by \<open>src/db/sqlite.cpp\<close>\<close>

text \<open>
  The file under verification is a thin layer over the SQLite C interface: every member
  function of \<open>SqliteDbTable\<close> prepares one SQL statement, binds its parameters, steps it
  and reads column 0 of the result row. The engine itself is a library, so its behaviour is
  fixed here once, as an executable model of exactly the statements the source sends:

  \<^item> a database is a finite collection of named tables; a table has a column list and rows;
  \<^item> rows are kept and scanned in ascending order of the \<open>INTEGER PRIMARY KEY\<close>;
  \<^item> \<open>WHERE\<close> clauses follow SQL's three-valued logic (\<open>NULL\<close> compares as unknown);
  \<^item> \<open>AND\<close> binds tighter than \<open>OR\<close>: the grammar of SQL, applied when a statement's text
    is written as a term of type \<open>cond\<close>;
  \<^item> \<open>INSERT OR REPLACE\<close> removes the rows holding the new primary key, then inserts;
  \<^item> a query reads the content the database has at each step; the cursor of a scan keeps
    its place by rowid, so that rows written or deleted between two steps are seen or
    skipped as in a B-tree;
  \<^item> no I/O error, no size limit and no second connection to the same file are modelled.
\<close>

subsection \<open>Values, tables, databases\<close>

type_synonym handle = "64 word"
type_synonym c_int = "32 word"

datatype sqlval = SqlNull | SqlInt int | SqlText string | SqlBlob string

datatype coltype = INTEGER | TEXT | BLOB

datatype column = Column (cname: string) (ctype: coltype) (cpk: bool) (cnotnull: bool)

record db_table =
  columns :: "column list"
  rows :: "sqlval list list"

type_synonym database = "string \<rightharpoonup> db_table"

text \<open>A connection: the current content, and the content saved by \<open>BEGIN\<close> while a
  transaction is open.\<close>

record sqlite3 =
  content :: database
  txn :: "database option"

datatype rc = SQLITE_OK | SQLITE_ERROR | SQLITE_CONSTRAINT | SQLITE_MISMATCH | SQLITE_RANGE
  | SQLITE_CANTOPEN | SQLITE_ROW | SQLITE_DONE

subsection \<open>Statements\<close>

datatype operand = Col string | Param nat | Lit int

datatype cond =
    Eq operand operand
  | IsNull operand
  | IsNotNull operand
  | And cond cond
  | Or cond cond

datatype sql =
    SelectCol string string "cond option"
  | SelectCount string "cond option"
  | SelectMasterTable string
  | InsertOrReplace string "string list"
  | DeleteFrom string "cond option"
  | CreateTableIfNotExists string "column list"
  | Begin
  | Commit
  | Rollback
  | PragmaJournalModeWAL

record sqlite3_stmt =
  st_sql :: sql
  st_binds :: "nat \<rightharpoonup> sqlval"
  st_pos :: nat
  st_key :: "int option"
  st_row :: "sqlval list"

subsection \<open>Evaluating a \<open>WHERE\<close> clause on a row\<close>

definition field :: "column list \<Rightarrow> sqlval list \<Rightarrow> string \<Rightarrow> sqlval" where
  "field cols r c = (case map_of (zip (map cname cols) r) c of Some v \<Rightarrow> v | None \<Rightarrow> SqlNull)"

fun operand_val :: "column list \<Rightarrow> sqlval list \<Rightarrow> (nat \<rightharpoonup> sqlval) \<Rightarrow> operand \<Rightarrow> sqlval" where
  "operand_val cols r b (Col c) = field cols r c"
| "operand_val cols r b (Param i) = (case b i of Some v \<Rightarrow> v | None \<Rightarrow> SqlNull)"
| "operand_val cols r b (Lit n) = SqlInt n"

fun sql_eq :: "sqlval \<Rightarrow> sqlval \<Rightarrow> bool option" where
  "sql_eq SqlNull w = None"
| "sql_eq v SqlNull = None"
| "sql_eq v w = Some (v = w)"

fun sql_and :: "bool option \<Rightarrow> bool option \<Rightarrow> bool option" where
  "sql_and (Some False) q = Some False"
| "sql_and p (Some False) = Some False"
| "sql_and (Some True) (Some True) = Some True"
| "sql_and p q = None"

fun sql_or :: "bool option \<Rightarrow> bool option \<Rightarrow> bool option" where
  "sql_or (Some True) q = Some True"
| "sql_or p (Some True) = Some True"
| "sql_or (Some False) (Some False) = Some False"
| "sql_or p q = None"

fun cond_val :: "column list \<Rightarrow> sqlval list \<Rightarrow> (nat \<rightharpoonup> sqlval) \<Rightarrow> cond \<Rightarrow> bool option" where
  "cond_val cols r b (Eq x y) = sql_eq (operand_val cols r b x) (operand_val cols r b y)"
| "cond_val cols r b (IsNull x) = Some (operand_val cols r b x = SqlNull)"
| "cond_val cols r b (IsNotNull x) = Some (operand_val cols r b x \<noteq> SqlNull)"
| "cond_val cols r b (And p q) = sql_and (cond_val cols r b p) (cond_val cols r b q)"
| "cond_val cols r b (Or p q) = sql_or (cond_val cols r b p) (cond_val cols r b q)"

definition selected :: "column list \<Rightarrow> (nat \<rightharpoonup> sqlval) \<Rightarrow> cond option \<Rightarrow> sqlval list \<Rightarrow> bool" where
  "selected cols b w r = (case w of None \<Rightarrow> True | Some c \<Rightarrow> cond_val cols r b c = Some True)"

subsection \<open>Compiling a statement: \<open>sqlite3_prepare\<close>\<close>

fun operand_cols :: "operand \<Rightarrow> string list" where
  "operand_cols (Col c) = [c]"
| "operand_cols (Param i) = []"
| "operand_cols (Lit n) = []"

fun cond_cols :: "cond \<Rightarrow> string list" where
  "cond_cols (Eq x y) = operand_cols x @ operand_cols y"
| "cond_cols (IsNull x) = operand_cols x"
| "cond_cols (IsNotNull x) = operand_cols x"
| "cond_cols (And p q) = cond_cols p @ cond_cols q"
| "cond_cols (Or p q) = cond_cols p @ cond_cols q"

fun operand_params :: "operand \<Rightarrow> nat" where
  "operand_params (Col c) = 0"
| "operand_params (Param i) = i"
| "operand_params (Lit n) = 0"

fun cond_params :: "cond \<Rightarrow> nat" where
  "cond_params (Eq x y) = max (operand_params x) (operand_params y)"
| "cond_params (IsNull x) = operand_params x"
| "cond_params (IsNotNull x) = operand_params x"
| "cond_params (And p q) = max (cond_params p) (cond_params q)"
| "cond_params (Or p q) = max (cond_params p) (cond_params q)"

definition where_cols :: "cond option \<Rightarrow> string list" where
  "where_cols w = (case w of None \<Rightarrow> [] | Some c \<Rightarrow> cond_cols c)"

definition where_params :: "cond option \<Rightarrow> nat" where
  "where_params w = (case w of None \<Rightarrow> 0 | Some c \<Rightarrow> cond_params c)"

definition known_cols :: "database \<Rightarrow> string \<Rightarrow> string list \<Rightarrow> bool" where
  "known_cols d tn cs =
     (case d tn of None \<Rightarrow> False | Some tb \<Rightarrow> list_all (\<lambda>c. c \<in> set (map cname (columns tb))) cs)"

text \<open>A statement compiles when its table and every column it names exist
  (otherwise \<open>sqlite3_prepare\<close> fails with "no such table" / "no such column").\<close>

fun sql_ok :: "database \<Rightarrow> sql \<Rightarrow> bool" where
  "sql_ok d (SelectCol c tn w) = known_cols d tn (c # where_cols w)"
| "sql_ok d (SelectCount tn w) = known_cols d tn (where_cols w)"
| "sql_ok d (SelectMasterTable n) = True"
| "sql_ok d (InsertOrReplace tn cs) = known_cols d tn cs"
| "sql_ok d (DeleteFrom tn w) = known_cols d tn (where_cols w)"
| "sql_ok d (CreateTableIfNotExists tn cols) = True"
| "sql_ok d Begin = True"
| "sql_ok d Commit = True"
| "sql_ok d Rollback = True"
| "sql_ok d PragmaJournalModeWAL = True"

fun sql_params :: "sql \<Rightarrow> nat" where
  "sql_params (SelectCol c tn w) = where_params w"
| "sql_params (SelectCount tn w) = where_params w"
| "sql_params (SelectMasterTable n) = 0"
| "sql_params (InsertOrReplace tn cs) = length cs"
| "sql_params (DeleteFrom tn w) = where_params w"
| "sql_params (CreateTableIfNotExists tn cols) = 0"
| "sql_params Begin = 0"
| "sql_params Commit = 0"
| "sql_params Rollback = 0"
| "sql_params PragmaJournalModeWAL = 0"

text \<open>\<open>None\<close> is the C result "an error code, and \<open>*ppStmt\<close> set to \<open>NULL\<close>".\<close>

definition sqlite3_prepare :: "sqlite3 \<Rightarrow> sql \<Rightarrow> sqlite3_stmt option" where
  "sqlite3_prepare d q =
     (if sql_ok (content d) q
      then Some \<lparr>st_sql = q, st_binds = Map.empty, st_pos = 0, st_key = None, st_row = []\<rparr>
      else None)"

definition sqlite3_reset :: "sqlite3_stmt \<Rightarrow> sqlite3_stmt" where
  "sqlite3_reset s = s\<lparr>st_pos := 0, st_key := None, st_row := []\<rparr>"

subsection \<open>Binding parameters\<close>

definition bind_value :: "sqlite3_stmt \<Rightarrow> nat \<Rightarrow> sqlval \<Rightarrow> rc \<times> sqlite3_stmt" where
  "bind_value s i v =
     (if 1 \<le> i \<and> i \<le> sql_params (st_sql s)
      then (SQLITE_OK, s\<lparr>st_binds := (st_binds s)(i \<mapsto> v)\<rparr>)
      else (SQLITE_RANGE, s))"

definition sqlite3_bind_int :: "sqlite3_stmt \<Rightarrow> nat \<Rightarrow> c_int \<Rightarrow> rc \<times> sqlite3_stmt" where
  "sqlite3_bind_int s i n = bind_value s i (SqlInt (sint n))"

text \<open>A \<open>handle\<close> is an unsigned 64-bit integer; the parameter of \<open>sqlite3_bind_int64\<close> is
  signed, so the value stored is the two's complement reading of the handle.\<close>

definition sqlite3_bind_int64 :: "sqlite3_stmt \<Rightarrow> nat \<Rightarrow> handle \<Rightarrow> rc \<times> sqlite3_stmt" where
  "sqlite3_bind_int64 s i h = bind_value s i (SqlInt (sint h))"

text \<open>A \<open>NULL\<close> data pointer (\<open>None\<close>) binds SQL \<open>NULL\<close>.\<close>

definition sqlite3_bind_blob :: "sqlite3_stmt \<Rightarrow> nat \<Rightarrow> string option \<Rightarrow> rc \<times> sqlite3_stmt" where
  "sqlite3_bind_blob s i p =
     bind_value s i (case p of None \<Rightarrow> SqlNull | Some bytes \<Rightarrow> SqlBlob bytes)"

definition sqlite3_bind_text :: "sqlite3_stmt \<Rightarrow> nat \<Rightarrow> string option \<Rightarrow> rc \<times> sqlite3_stmt" where
  "sqlite3_bind_text s i p =
     bind_value s i (case p of None \<Rightarrow> SqlNull | Some bytes \<Rightarrow> SqlText bytes)"

subsection \<open>Running a statement: \<open>sqlite3_step\<close>\<close>

definition pk_of :: "column list \<Rightarrow> sqlval list \<Rightarrow> sqlval" where
  "pk_of cols r = (case filter cpk cols of [] \<Rightarrow> SqlNull | c # cs \<Rightarrow> field cols r (cname c))"

definition rowid :: "column list \<Rightarrow> sqlval list \<Rightarrow> int" where
  "rowid cols r = (case pk_of cols r of SqlInt k \<Rightarrow> k | _ \<Rightarrow> 0)"

fun bound_vals :: "(nat \<rightharpoonup> sqlval) \<Rightarrow> nat \<Rightarrow> string list \<Rightarrow> (string \<times> sqlval) list" where
  "bound_vals b i [] = []"
| "bound_vals b i (c # cs) =
     (c, case b i of Some v \<Rightarrow> v | None \<Rightarrow> SqlNull) # bound_vals b (Suc i) cs"

text \<open>The row an \<open>INSERT \<dots> (c1, \<dots>, cn) VALUES (?, \<dots>, ?)\<close> builds: the i-th parameter goes
  to the i-th listed column, an unlisted column and an unbound parameter are \<open>NULL\<close>.\<close>

definition new_row :: "column list \<Rightarrow> string list \<Rightarrow> (nat \<rightharpoonup> sqlval) \<Rightarrow> sqlval list" where
  "new_row cols cs b =
     map (\<lambda>c. case map_of (bound_vals b 1 cs) (cname c) of Some v \<Rightarrow> v | None \<Rightarrow> SqlNull) cols"

definition violates_notnull :: "column list \<Rightarrow> sqlval list \<Rightarrow> bool" where
  "violates_notnull cols r = list_ex (\<lambda>(c, v). cnotnull c \<and> v = SqlNull) (zip cols r)"

text \<open>A statement that changes the database does so in its one step. A query hands out one
  row per step and \<open>SQLITE_DONE\<close> after the last one, reading the content the database has at
  that step.

  A \<open>SELECT\<close> of a column walks the table in the order of its rows with a cursor. After a row
  the cursor stands on that entry: the statement keeps the entry's rowid, \<open>st_key\<close>, and the
  position behind it, \<open>st_pos\<close>. The next step goes on from that position while the entry
  before it still carries the rowid. When the table was changed under the cursor (the entry
  was deleted, or entries before it came or went) the position is found again from the saved
  rowid, as the engine restores a B-tree cursor from its saved key: behind the leading
  entries whose rowid is not greater. A statement that has produced no row yet, or was reset,
  starts at the first entry.\<close>

definition scan_start :: "column list \<Rightarrow> sqlval list list \<Rightarrow> nat \<Rightarrow> int option \<Rightarrow> nat" where
  "scan_start cols R p k =
     (case k of
        None \<Rightarrow> 0
      | Some key \<Rightarrow>
          if 0 < p \<and> p \<le> length R \<and> rowid cols (R ! (p - 1)) = key then p
          else length (takeWhile (\<lambda>r. rowid cols r \<le> key) R))"

definition step_scan ::
  "string \<Rightarrow> db_table \<Rightarrow> cond option \<Rightarrow> sqlite3_stmt \<Rightarrow> sqlite3 \<Rightarrow> rc \<times> sqlite3_stmt \<times> sqlite3"
where
  "step_scan c tb w s d =
     (let R = rows tb;
          start = scan_start (columns tb) R (st_pos s) (st_key s);
          i = start + length (takeWhile (\<lambda>r. \<not> selected (columns tb) (st_binds s) w r)
                               (drop start R))
      in if i < length R
         then (SQLITE_ROW,
               s\<lparr>st_pos := Suc i, st_key := Some (rowid (columns tb) (R ! i)),
                 st_row := [field (columns tb) (R ! i) c]\<rparr>, d)
         else (SQLITE_DONE, s\<lparr>st_row := []\<rparr>, d))"

text \<open>A query with a single result row (\<open>COUNT(*)\<close>, the look-up of one table's name in
  \<open>sqlite_master\<close>) produces it in its first step, if there is one.\<close>

definition step_single ::
  "sqlval list option \<Rightarrow> sqlite3_stmt \<Rightarrow> sqlite3 \<Rightarrow> rc \<times> sqlite3_stmt \<times> sqlite3"
where
  "step_single res s d =
     (case res of
        Some r \<Rightarrow>
          if st_pos s = 0 then (SQLITE_ROW, s\<lparr>st_pos := Suc 0, st_row := r\<rparr>, d)
          else (SQLITE_DONE, s\<lparr>st_row := []\<rparr>, d)
      | None \<Rightarrow> (SQLITE_DONE, s\<lparr>st_row := []\<rparr>, d))"

fun run_sql :: "sql \<Rightarrow> sqlite3_stmt \<Rightarrow> sqlite3 \<Rightarrow> rc \<times> sqlite3_stmt \<times> sqlite3" where
  "run_sql (SelectCol c tn w) s d =
     (case content d tn of
        None \<Rightarrow> (SQLITE_ERROR, s, d)
      | Some tb \<Rightarrow> step_scan c tb w s d)"
| "run_sql (SelectCount tn w) s d =
     (case content d tn of
        None \<Rightarrow> (SQLITE_ERROR, s, d)
      | Some tb \<Rightarrow>
          step_single
            (Some [SqlInt (int (length (filter (selected (columns tb) (st_binds s) w) (rows tb))))])
            s d)"
| "run_sql (SelectMasterTable n) s d =
     step_single (case content d n of None \<Rightarrow> None | Some tb \<Rightarrow> Some [SqlText n]) s d"
| "run_sql (InsertOrReplace tn cs) s d =
     (case content d tn of
        None \<Rightarrow> (SQLITE_ERROR, s, d)
      | Some tb \<Rightarrow>
          (let r = new_row (columns tb) cs (st_binds s) in
           if violates_notnull (columns tb) r then (SQLITE_CONSTRAINT, s, d)
           else
             (case pk_of (columns tb) r of
                SqlInt k \<Rightarrow>
                  (SQLITE_DONE, s,
                   d\<lparr>content := (content d)(tn \<mapsto>
                        tb\<lparr>rows := insort_key (rowid (columns tb)) r
                               (filter (\<lambda>x. pk_of (columns tb) x \<noteq> SqlInt k) (rows tb))\<rparr>)\<rparr>)
              | _ \<Rightarrow> (SQLITE_MISMATCH, s, d))))"
| "run_sql (DeleteFrom tn w) s d =
     (case content d tn of
        None \<Rightarrow> (SQLITE_ERROR, s, d)
      | Some tb \<Rightarrow>
          (SQLITE_DONE, s,
           d\<lparr>content := (content d)(tn \<mapsto>
                tb\<lparr>rows := filter (\<lambda>r. \<not> selected (columns tb) (st_binds s) w r) (rows tb)\<rparr>)\<rparr>))"
| "run_sql (CreateTableIfNotExists tn cols) s d =
     (case content d tn of
        Some tb \<Rightarrow> (SQLITE_DONE, s, d)
      | None \<Rightarrow> (SQLITE_DONE, s, d\<lparr>content := (content d)(tn \<mapsto> \<lparr>columns = cols, rows = []\<rparr>)\<rparr>))"
| "run_sql Begin s d =
     (case txn d of
        None \<Rightarrow> (SQLITE_DONE, s, d\<lparr>txn := Some (content d)\<rparr>)
      | Some saved \<Rightarrow> (SQLITE_ERROR, s, d))"
| "run_sql Commit s d =
     (case txn d of
        None \<Rightarrow> (SQLITE_ERROR, s, d)
      | Some saved \<Rightarrow> (SQLITE_DONE, s, d\<lparr>txn := None\<rparr>))"
| "run_sql Rollback s d =
     (case txn d of
        None \<Rightarrow> (SQLITE_ERROR, s, d)
      | Some saved \<Rightarrow> (SQLITE_DONE, s, d\<lparr>content := saved, txn := None\<rparr>))"
| "run_sql PragmaJournalModeWAL s d = (SQLITE_DONE, s, d)"

definition sqlite3_step :: "sqlite3 \<Rightarrow> sqlite3_stmt \<Rightarrow> rc \<times> sqlite3_stmt \<times> sqlite3" where
  "sqlite3_step d s = run_sql (st_sql s) s d"

text \<open>\<open>sqlite3_exec\<close> with no callback: compile, run to completion, discard.\<close>

definition sqlite3_exec :: "sqlite3 \<Rightarrow> sql \<Rightarrow> rc \<times> sqlite3" where
  "sqlite3_exec d q =
     (case sqlite3_prepare d q of
        None \<Rightarrow> (SQLITE_ERROR, d)
      | Some s \<Rightarrow>
          (case sqlite3_step d s of
             (r, s', d') \<Rightarrow> (if r = SQLITE_DONE \<or> r = SQLITE_ROW then SQLITE_OK else r, d')))"

subsection \<open>Reading the current row\<close>

definition is_space :: "char \<Rightarrow> bool" where
  "is_space c = (c \<in> set [CHR '' '', CHR 0x09, CHR 0x0A, CHR 0x0B, CHR 0x0C, CHR 0x0D])"

definition is_digit :: "char \<Rightarrow> bool" where
  "is_digit c = (48 \<le> (of_char c :: nat) \<and> (of_char c :: nat) \<le> 57)"

fun nat_text :: "nat \<Rightarrow> string" where
  "nat_text n =
     (if n < 10 then [char_of (48 + n)] else nat_text (n div 10) @ [char_of (48 + n mod 10)])"

definition int_text :: "int \<Rightarrow> string" where
  "int_text k = (if k < 0 then CHR ''-'' # nat_text (nat (- k)) else nat_text (nat k))"

text \<open>The engine's cast of text to an integer: leading white space, an optional sign, the
  longest run of digits; clamped to the 64-bit signed range.\<close>

definition text_int :: "string \<Rightarrow> int" where
  "text_int s =
     (let s1 = dropWhile is_space s;
          neg = (case s1 of [] \<Rightarrow> False | c # cs \<Rightarrow> c = CHR ''-'');
          s2 = (case s1 of [] \<Rightarrow> [] | c # cs \<Rightarrow> if c = CHR ''-'' \<or> c = CHR ''+'' then cs else s1);
          n = foldl (\<lambda>a c. 10 * a + (int (of_char c) - 48)) 0 (takeWhile is_digit s2);
          v = (if neg then - n else n)
      in max (- (2 ^ 63)) (min (2 ^ 63 - 1) v))"

fun sqlval_bytes :: "sqlval \<Rightarrow> string" where
  "sqlval_bytes SqlNull = []"
| "sqlval_bytes (SqlInt k) = int_text k"
| "sqlval_bytes (SqlText s) = s"
| "sqlval_bytes (SqlBlob s) = s"

fun sqlval_int :: "sqlval \<Rightarrow> int" where
  "sqlval_int SqlNull = 0"
| "sqlval_int (SqlInt k) = k"
| "sqlval_int (SqlText s) = text_int s"
| "sqlval_int (SqlBlob s) = text_int s"

definition column_value :: "sqlite3_stmt \<Rightarrow> nat \<Rightarrow> sqlval" where
  "column_value s i = (if i < length (st_row s) then st_row s ! i else SqlNull)"

text \<open>The source always reads a blob as the pair \<open>sqlite3_column_blob\<close>,
  \<open>sqlite3_column_bytes\<close> handed to \<open>string::assign\<close>: the bytes of the value.\<close>

definition sqlite3_column_blob :: "sqlite3_stmt \<Rightarrow> nat \<Rightarrow> string" where
  "sqlite3_column_blob s i = sqlval_bytes (column_value s i)"

definition sqlite3_column_int64 :: "sqlite3_stmt \<Rightarrow> nat \<Rightarrow> handle" where
  "sqlite3_column_int64 s i = word_of_int (sqlval_int (column_value s i))"

definition sqlite3_column_int :: "sqlite3_stmt \<Rightarrow> nat \<Rightarrow> c_int" where
  "sqlite3_column_int s i = word_of_int (sqlval_int (column_value s i))"

subsection \<open>Files\<close>

datatype fsentry = DbFile database | Directory

type_synonym filesystem = "string \<rightharpoonup> fsentry"

text \<open>\<open>sqlite3_open\<close> opens the database file, creating it when there is none.\<close>

definition sqlite3_open :: "filesystem \<Rightarrow> string \<Rightarrow> rc \<times> sqlite3" where
  "sqlite3_open fs path =
     (case fs path of
        None \<Rightarrow> (SQLITE_OK, \<lparr>content = Map.empty, txn = None\<rparr>)
      | Some (DbFile c) \<Rightarrow> (SQLITE_OK, \<lparr>content = c, txn = None\<rparr>)
      | Some Directory \<Rightarrow> (SQLITE_CANTOPEN, \<lparr>content = Map.empty, txn = None\<rparr>))"

text \<open>What the file holds once the connection is gone: the committed content (a
  transaction still open is rolled back).\<close>

definition committed :: "sqlite3 \<Rightarrow> database" where
  "committed d = (case txn d of None \<Rightarrow> content d | Some saved \<Rightarrow> saved)"

definition written :: "filesystem \<Rightarrow> string \<Rightarrow> sqlite3 \<Rightarrow> filesystem" where
  "written fs path d = fs(path \<mapsto> DbFile (committed d))"

definition sqlite3_close :: "filesystem \<Rightarrow> string \<Rightarrow> sqlite3 \<Rightarrow> filesystem" where
  "sqlite3_close fs path d = written fs path d"

section \<open>The code of \<open>src/db/sqlite.cpp\<close>\<close>

subsection \<open>The SQL texts of the source\<close>

text \<open>The column lists of the four \<open>CREATE TABLE IF NOT EXISTS\<close> statements of
  \<open>SqliteDbAccess::open\<close>.\<close>

definition init_columns :: "column list" where
  "init_columns = [Column ''id'' INTEGER True True, Column ''content'' BLOB False True]"

definition nodes_columns :: "column list" where
  "nodes_columns =
     [Column ''nodehandle'' INTEGER True True, Column ''parenthandle'' INTEGER False True,
      Column ''fingerprint'' BLOB False False, Column ''attrstring'' TEXT False False,
      Column ''shared'' INTEGER False True, Column ''node'' BLOB False True]"

definition users_columns :: "column list" where
  "users_columns = [Column ''userhandle'' INTEGER True True, Column ''user'' BLOB False True]"

definition pcrs_columns :: "column list" where
  "pcrs_columns = [Column ''id'' INTEGER True True, Column ''pcr'' BLOB False True]"

text \<open>\<open>SELECT content FROM init WHERE id = ?\<close>\<close>

abbreviation select_init :: sql where
  "select_init \<equiv> SelectCol ''content'' ''init'' (Some (Eq (Col ''id'') (Param 1)))"

text \<open>\<open>INSERT OR REPLACE INTO init (id, content) VALUES (?, ?)\<close>\<close>

abbreviation replace_init :: sql where
  "replace_init \<equiv> InsertOrReplace ''init'' [''id'', ''content'']"

text \<open>\<open>SELECT nodehandle FROM nodes WHERE parenthandle = ? AND shared = 1 OR shared = 4\<close>
  and its sibling with \<open>shared = 3\<close>: the text has no parentheses, and \<open>AND\<close> binds
  tighter than \<open>OR\<close>.\<close>

abbreviation select_outshares_of :: sql where
  "select_outshares_of \<equiv>
     SelectCol ''nodehandle'' ''nodes''
       (Some (Or (And (Eq (Col ''parenthandle'') (Param 1)) (Eq (Col ''shared'') (Lit 1)))
                 (Eq (Col ''shared'') (Lit 4))))"

abbreviation select_pendingshares_of :: sql where
  "select_pendingshares_of \<equiv>
     SelectCol ''nodehandle'' ''nodes''
       (Some (Or (And (Eq (Col ''parenthandle'') (Param 1)) (Eq (Col ''shared'') (Lit 3)))
                 (Eq (Col ''shared'') (Lit 4))))"

subsection \<open>Collaborators that are not part of the file\<close>

text \<open>The random generator, the Base64 coder, the cipher and the constant
  \<open>HANDLEKEYLENGTH\<close> are declared elsewhere; the code is modelled for any choice of them.
  \<open>Base64_atob x src blen\<close> is the byte sequence \<open>Base64::atob(src, dst, blen)\<close> writes
  to \<open>dst\<close>.\<close>

record ('k, 'g) ext =
  HANDLEKEYLENGTH :: nat
  PrnGen_genblock :: "'g \<Rightarrow> nat \<Rightarrow> string \<times> 'g"
  Base64_btoa :: "string \<Rightarrow> string"
  Base64_atob :: "string \<Rightarrow> nat \<Rightarrow> string"
  PaddedCBC_encrypt :: "'k \<Rightarrow> string \<Rightarrow> string"

subsection \<open>\<open>SqliteDbTable\<close>\<close>

text \<open>\<open>db\<close> and \<open>pStmt\<close> are pointers: \<open>None\<close> is \<open>NULL\<close>. \<open>hkey\<close> and \<open>phkey\<close> are the
  buffers \<open>readhkey\<close> fills, \<open>None\<close> until then.\<close>

record 'k SqliteDbTable =
  db :: "sqlite3 option"
  pStmt :: "sqlite3_stmt option"
  dbfile :: string
  key :: 'k
  hkey :: "string option"
  phkey :: "string option"

definition readhkey :: "('k, 'g) ext \<Rightarrow> 'k SqliteDbTable \<Rightarrow> bool \<times> 'k SqliteDbTable" where
  "readhkey x t =
     (case db t of
        None \<Rightarrow> (False, t)
      | Some d \<Rightarrow>
     (case sqlite3_prepare d select_init of
        None \<Rightarrow> (False, t)
      | Some stmt \<Rightarrow>
     (case sqlite3_bind_int stmt 1 4 of (r, stmt) \<Rightarrow>
      if r \<noteq> SQLITE_OK then (False, t) else
     (case sqlite3_step d stmt of (r, stmt, d) \<Rightarrow>
      if r \<noteq> SQLITE_ROW then (False, t\<lparr>db := Some d\<rparr>) else
      let buf = sqlite3_column_blob stmt 0;
          t = t\<lparr>db := Some d, hkey := Some (Base64_atob x buf (length buf))\<rparr>;
          stmt = sqlite3_reset stmt
      in
     (case sqlite3_prepare d select_init of
        None \<Rightarrow> (False, t)
      | Some stmt \<Rightarrow>
     (case sqlite3_bind_int stmt 1 5 of (r, stmt) \<Rightarrow>
      if r \<noteq> SQLITE_OK then (False, t) else
     (case sqlite3_step d stmt of (r, stmt, d) \<Rightarrow>
      if r \<noteq> SQLITE_ROW then (False, t\<lparr>db := Some d\<rparr>) else
      let buf = sqlite3_column_blob stmt 0
      in (True, t\<lparr>db := Some d, phkey := Some (Base64_atob x buf (length buf))\<rparr>))))))))"

text \<open>The read accessors take the caller's buffer \<open>data\<close> and return what it holds
  afterwards.\<close>

definition getscsn :: "'k SqliteDbTable \<Rightarrow> string \<Rightarrow> bool \<times> string \<times> 'k SqliteDbTable" where
  "getscsn t data =
     (case db t of
        None \<Rightarrow> (False, data, t)
      | Some d \<Rightarrow>
     (case sqlite3_prepare d select_init of
        None \<Rightarrow> (False, data, t)
      | Some stmt \<Rightarrow>
     (case sqlite3_bind_int stmt 1 0 of (r, stmt) \<Rightarrow>
      if r \<noteq> SQLITE_OK then (False, data, t) else
     (case sqlite3_step d stmt of (r, stmt, d) \<Rightarrow>
      if r = SQLITE_ROW then (True, sqlite3_column_blob stmt 0, t\<lparr>db := Some d\<rparr>)
      else (False, data, t\<lparr>db := Some d\<rparr>)))))"

definition getrootnode ::
  "'k SqliteDbTable \<Rightarrow> c_int \<Rightarrow> string \<Rightarrow> bool \<times> string \<times> 'k SqliteDbTable" where
  "getrootnode t index data =
     (case db t of
        None \<Rightarrow> (False, data, t)
      | Some d \<Rightarrow>
     (case sqlite3_prepare d select_init of
        None \<Rightarrow> (False, data, t)
      | Some stmt \<Rightarrow>
     (case sqlite3_bind_int stmt 1 index of (r, stmt) \<Rightarrow>
      if r \<noteq> SQLITE_OK then (False, data, t) else
     (case sqlite3_step d stmt of (r, stmt, d) \<Rightarrow>
      if r = SQLITE_ROW then (True, sqlite3_column_blob stmt 0, t\<lparr>db := Some d\<rparr>)
      else (False, data, t\<lparr>db := Some d\<rparr>)))))"

definition getnodebyhandle ::
  "'k SqliteDbTable \<Rightarrow> handle \<Rightarrow> string \<Rightarrow> bool \<times> string \<times> 'k SqliteDbTable" where
  "getnodebyhandle t h data =
     (case db t of
        None \<Rightarrow> (False, data, t)
      | Some d \<Rightarrow>
     (case sqlite3_prepare d
             (SelectCol ''node'' ''nodes'' (Some (Eq (Col ''nodehandle'') (Param 1)))) of
        None \<Rightarrow> (False, data, t)
      | Some stmt \<Rightarrow>
     (case sqlite3_bind_int64 stmt 1 h of (r, stmt) \<Rightarrow>
      if r \<noteq> SQLITE_OK then (False, data, t) else
     (case sqlite3_step d stmt of (r, stmt, d) \<Rightarrow>
      if r = SQLITE_ROW then (True, sqlite3_column_blob stmt 0, t\<lparr>db := Some d\<rparr>)
      else (False, data, t\<lparr>db := Some d\<rparr>)))))"

definition getnodebyfingerprint ::
  "'k SqliteDbTable \<Rightarrow> string \<Rightarrow> string \<Rightarrow> bool \<times> string \<times> 'k SqliteDbTable" where
  "getnodebyfingerprint t fp data =
     (case db t of
        None \<Rightarrow> (False, data, t)
      | Some d \<Rightarrow>
     (case sqlite3_prepare d
             (SelectCol ''node'' ''nodes'' (Some (Eq (Col ''fingerprint'') (Param 1)))) of
        None \<Rightarrow> (False, data, t)
      | Some stmt \<Rightarrow>
     (case sqlite3_bind_blob stmt 1 (Some fp) of (r, stmt) \<Rightarrow>
      if r \<noteq> SQLITE_OK then (False, data, t) else
     (case sqlite3_step d stmt of (r, stmt, d) \<Rightarrow>
      if r = SQLITE_ROW then (True, sqlite3_column_blob stmt 0, t\<lparr>db := Some d\<rparr>)
      else (False, data, t\<lparr>db := Some d\<rparr>)))))"

text \<open>The three counting queries take the caller's \<open>count\<close>; they set it to 0 before the
  statement is prepared, and not at all when the database handle is \<open>NULL\<close>.\<close>

definition getnumchildrenquery ::
  "'k SqliteDbTable \<Rightarrow> handle \<Rightarrow> c_int \<Rightarrow> bool \<times> c_int \<times> 'k SqliteDbTable" where
  "getnumchildrenquery t ph count =
     (case db t of
        None \<Rightarrow> (False, count, t)
      | Some d \<Rightarrow>
     (let count = 0 in
     (case sqlite3_prepare d
             (SelectCount ''nodes'' (Some (Eq (Col ''parenthandle'') (Param 1)))) of
        None \<Rightarrow> (False, count, t)
      | Some stmt \<Rightarrow>
     (case sqlite3_bind_int64 stmt 1 ph of (r, stmt) \<Rightarrow>
      if r \<noteq> SQLITE_OK then (False, count, t) else
     (case sqlite3_step d stmt of (r, stmt, d) \<Rightarrow>
      if r = SQLITE_ROW then (True, sqlite3_column_int stmt 0, t\<lparr>db := Some d\<rparr>)
      else (False, count, t\<lparr>db := Some d\<rparr>))))))"

definition getnumchildfilesquery ::
  "'k SqliteDbTable \<Rightarrow> handle \<Rightarrow> c_int \<Rightarrow> bool \<times> c_int \<times> 'k SqliteDbTable" where
  "getnumchildfilesquery t ph count =
     (case db t of
        None \<Rightarrow> (False, count, t)
      | Some d \<Rightarrow>
     (let count = 0 in
     (case sqlite3_prepare d
             (SelectCount ''nodes''
                (Some (And (Eq (Col ''parenthandle'') (Param 1))
                           (IsNotNull (Col ''fingerprint''))))) of
        None \<Rightarrow> (False, count, t)
      | Some stmt \<Rightarrow>
     (case sqlite3_bind_int64 stmt 1 ph of (r, stmt) \<Rightarrow>
      if r \<noteq> SQLITE_OK then (False, count, t) else
     (case sqlite3_step d stmt of (r, stmt, d) \<Rightarrow>
      if r = SQLITE_ROW then (True, sqlite3_column_int stmt 0, t\<lparr>db := Some d\<rparr>)
      else (False, count, t\<lparr>db := Some d\<rparr>))))))"

definition getnumchildfoldersquery ::
  "'k SqliteDbTable \<Rightarrow> handle \<Rightarrow> c_int \<Rightarrow> bool \<times> c_int \<times> 'k SqliteDbTable" where
  "getnumchildfoldersquery t ph count =
     (case db t of
        None \<Rightarrow> (False, count, t)
      | Some d \<Rightarrow>
     (let count = 0 in
     (case sqlite3_prepare d
             (SelectCount ''nodes''
                (Some (And (Eq (Col ''parenthandle'') (Param 1))
                           (IsNull (Col ''fingerprint''))))) of
        None \<Rightarrow> (False, count, t)
      | Some stmt \<Rightarrow>
     (case sqlite3_bind_int64 stmt 1 ph of (r, stmt) \<Rightarrow>
      if r \<noteq> SQLITE_OK then (False, count, t) else
     (case sqlite3_step d stmt of (r, stmt, d) \<Rightarrow>
      if r = SQLITE_ROW then (True, sqlite3_column_int stmt 0, t\<lparr>db := Some d\<rparr>)
      else (False, count, t\<lparr>db := Some d\<rparr>))))))"

subsection \<open>The cursor\<close>

text \<open>Every \<open>rewind\<dots>\<close> resets the statement \<open>pStmt\<close> points to, if any, and then lets
  \<open>sqlite3_prepare\<close> overwrite the pointer (with \<open>NULL\<close> when the statement does not
  compile).\<close>

definition reset_pStmt :: "'k SqliteDbTable \<Rightarrow> 'k SqliteDbTable" where
  "reset_pStmt t =
     (case pStmt t of None \<Rightarrow> t | Some s \<Rightarrow> t\<lparr>pStmt := Some (sqlite3_reset s)\<rparr>)"

definition bind_pStmt :: "'k SqliteDbTable \<Rightarrow> handle \<Rightarrow> 'k SqliteDbTable" where
  "bind_pStmt t ph =
     (case pStmt t of
        None \<Rightarrow> t
      | Some s \<Rightarrow> t\<lparr>pStmt := Some (snd (sqlite3_bind_int64 s 1 ph))\<rparr>)"

definition rewinduser :: "'k SqliteDbTable \<Rightarrow> 'k SqliteDbTable" where
  "rewinduser t =
     (case db t of
        None \<Rightarrow> t
      | Some d \<Rightarrow>
          (let t = reset_pStmt t
           in t\<lparr>pStmt := sqlite3_prepare d (SelectCol ''user'' ''users'' None)\<rparr>))"

definition rewindpcr :: "'k SqliteDbTable \<Rightarrow> 'k SqliteDbTable" where
  "rewindpcr t =
     (case db t of
        None \<Rightarrow> t
      | Some d \<Rightarrow>
          (let t = reset_pStmt t
           in t\<lparr>pStmt := sqlite3_prepare d (SelectCol ''pcr'' ''pcrs'' None)\<rparr>))"

definition rewindhandleschildren :: "'k SqliteDbTable \<Rightarrow> handle \<Rightarrow> 'k SqliteDbTable" where
  "rewindhandleschildren t ph =
     (case db t of
        None \<Rightarrow> t
      | Some d \<Rightarrow>
          (let t = reset_pStmt t;
               t = t\<lparr>pStmt := sqlite3_prepare d
                     (SelectCol ''nodehandle'' ''nodes''
                        (Some (Eq (Col ''parenthandle'') (Param 1))))\<rparr>
           in bind_pStmt t ph))"

definition rewindhandlesencryptednodes :: "'k SqliteDbTable \<Rightarrow> 'k SqliteDbTable" where
  "rewindhandlesencryptednodes t =
     (case db t of
        None \<Rightarrow> t
      | Some d \<Rightarrow>
          (let t = reset_pStmt t
           in t\<lparr>pStmt := sqlite3_prepare d
                  (SelectCol ''nodehandle'' ''nodes'' (Some (IsNotNull (Col ''attrstring''))))\<rparr>))"

text \<open>\<open>rewindhandlesoutshares(handle ph)\<close>\<close>

definition rewindhandlesoutshares_of :: "'k SqliteDbTable \<Rightarrow> handle \<Rightarrow> 'k SqliteDbTable" where
  "rewindhandlesoutshares_of t ph =
     (case db t of
        None \<Rightarrow> t
      | Some d \<Rightarrow>
          (let t = reset_pStmt t;
               t = t\<lparr>pStmt := sqlite3_prepare d select_outshares_of\<rparr>
           in bind_pStmt t ph))"

text \<open>\<open>rewindhandlesoutshares()\<close>\<close>

definition rewindhandlesoutshares :: "'k SqliteDbTable \<Rightarrow> 'k SqliteDbTable" where
  "rewindhandlesoutshares t =
     (case db t of
        None \<Rightarrow> t
      | Some d \<Rightarrow>
          (let t = reset_pStmt t
           in t\<lparr>pStmt := sqlite3_prepare d
                  (SelectCol ''nodehandle'' ''nodes''
                     (Some (Or (Eq (Col ''shared'') (Lit 1)) (Eq (Col ''shared'') (Lit 4)))))\<rparr>))"

text \<open>\<open>rewindhandlespendingshares(handle ph)\<close>\<close>

definition rewindhandlespendingshares_of :: "'k SqliteDbTable \<Rightarrow> handle \<Rightarrow> 'k SqliteDbTable" where
  "rewindhandlespendingshares_of t ph =
     (case db t of
        None \<Rightarrow> t
      | Some d \<Rightarrow>
          (let t = reset_pStmt t;
               t = t\<lparr>pStmt := sqlite3_prepare d select_pendingshares_of\<rparr>
           in bind_pStmt t ph))"

text \<open>\<open>rewindhandlespendingshares()\<close>\<close>

definition rewindhandlespendingshares :: "'k SqliteDbTable \<Rightarrow> 'k SqliteDbTable" where
  "rewindhandlespendingshares t =
     (case db t of
        None \<Rightarrow> t
      | Some d \<Rightarrow>
          (let t = reset_pStmt t
           in t\<lparr>pStmt := sqlite3_prepare d
                  (SelectCol ''nodehandle'' ''nodes''
                     (Some (Or (Eq (Col ''shared'') (Lit 3)) (Eq (Col ''shared'') (Lit 4)))))\<rparr>))"

text \<open>\<open>SqliteDbTable::next\<close> (\<open>next\<close> is a keyword here). On any result but \<open>SQLITE_ROW\<close>
  the statement is finalized and \<open>pStmt\<close> becomes \<open>NULL\<close>.\<close>

definition next_data :: "'k SqliteDbTable \<Rightarrow> string \<Rightarrow> bool \<times> string \<times> 'k SqliteDbTable" where
  "next_data t data =
     (case db t of
        None \<Rightarrow> (False, data, t)
      | Some d \<Rightarrow>
     (case pStmt t of
        None \<Rightarrow> (False, data, t)
      | Some s \<Rightarrow>
     (case sqlite3_step d s of (r, s, d) \<Rightarrow>
      if r \<noteq> SQLITE_ROW then (False, data, t\<lparr>db := Some d, pStmt := None\<rparr>)
      else (True, sqlite3_column_blob s 0, t\<lparr>db := Some d, pStmt := Some s\<rparr>))))"

definition nexthandle :: "'k SqliteDbTable \<Rightarrow> handle \<Rightarrow> bool \<times> handle \<times> 'k SqliteDbTable" where
  "nexthandle t h =
     (case db t of
        None \<Rightarrow> (False, h, t)
      | Some d \<Rightarrow>
     (case pStmt t of
        None \<Rightarrow> (False, h, t)
      | Some s \<Rightarrow>
     (case sqlite3_step d s of (r, s, d) \<Rightarrow>
      if r \<noteq> SQLITE_ROW then (False, h, t\<lparr>db := Some d, pStmt := None\<rparr>)
      else (True, sqlite3_column_int64 s 0, t\<lparr>db := Some d, pStmt := Some s\<rparr>))))"

subsection \<open>Writing\<close>

text \<open>\<open>putscsn(char* data, unsigned len)\<close>: the pair is a byte string, or a \<open>NULL\<close>
  pointer (\<open>None\<close>).\<close>

definition putscsn :: "'k SqliteDbTable \<Rightarrow> string option \<Rightarrow> bool \<times> 'k SqliteDbTable" where
  "putscsn t data =
     (case db t of
        None \<Rightarrow> (False, t)
      | Some d \<Rightarrow>
     (case sqlite3_prepare d replace_init of
        None \<Rightarrow> (False, t)
      | Some stmt \<Rightarrow>
     (case sqlite3_bind_int stmt 1 0 of (r, stmt) \<Rightarrow>
      if r \<noteq> SQLITE_OK then (False, t) else
     (case sqlite3_bind_blob stmt 2 data of (r, stmt) \<Rightarrow>
      if r \<noteq> SQLITE_OK then (False, t) else
     (case sqlite3_step d stmt of (r, stmt, d) \<Rightarrow> (r = SQLITE_DONE, t\<lparr>db := Some d\<rparr>))))))"

definition putrootnode :: "'k SqliteDbTable \<Rightarrow> c_int \<Rightarrow> string \<Rightarrow> bool \<times> 'k SqliteDbTable" where
  "putrootnode t index data =
     (case db t of
        None \<Rightarrow> (False, t)
      | Some d \<Rightarrow>
     (case sqlite3_prepare d replace_init of
        None \<Rightarrow> (False, t)
      | Some stmt \<Rightarrow>
     (case sqlite3_bind_int stmt 1 index of (r, stmt) \<Rightarrow>
      if r \<noteq> SQLITE_OK then (False, t) else
     (case sqlite3_bind_blob stmt 2 (Some data) of (r, stmt) \<Rightarrow>
      if r \<noteq> SQLITE_OK then (False, t) else
     (case sqlite3_step d stmt of (r, stmt, d) \<Rightarrow> (r = SQLITE_DONE, t\<lparr>db := Some d\<rparr>))))))"

text \<open>\<open>putnode\<close>: \<open>fp\<close> and \<open>node\<close> are dereferenced unconditionally, \<open>attr\<close> may be a
  \<open>NULL\<close> pointer; an empty fingerprint is bound as \<open>NULL\<close>.\<close>

definition putnode ::
  "'k SqliteDbTable \<Rightarrow> handle \<Rightarrow> handle \<Rightarrow> string \<Rightarrow> string option \<Rightarrow> c_int \<Rightarrow> string
     \<Rightarrow> bool \<times> 'k SqliteDbTable" where
  "putnode t h ph fp attr shared node =
     (case db t of
        None \<Rightarrow> (False, t)
      | Some d \<Rightarrow>
     (case sqlite3_prepare d
             (InsertOrReplace ''nodes''
                [''nodehandle'', ''parenthandle'', ''fingerprint'', ''attrstring'', ''shared'',
                 ''node'']) of
        None \<Rightarrow> (False, t)
      | Some stmt \<Rightarrow>
     (case sqlite3_bind_int64 stmt 1 h of (r, stmt) \<Rightarrow>
      if r \<noteq> SQLITE_OK then (False, t) else
     (case sqlite3_bind_int64 stmt 2 ph of (r, stmt) \<Rightarrow>
      if r \<noteq> SQLITE_OK then (False, t) else
     (case sqlite3_bind_blob stmt 3 (if length fp \<noteq> 0 then Some fp else None) of (r, stmt) \<Rightarrow>
      if r \<noteq> SQLITE_OK then (False, t) else
     (case sqlite3_bind_text stmt 4 attr of (r, stmt) \<Rightarrow>
      if r \<noteq> SQLITE_OK then (False, t) else
     (case sqlite3_bind_int stmt 5 shared of (r, stmt) \<Rightarrow>
      if r \<noteq> SQLITE_OK then (False, t) else
     (case sqlite3_bind_blob stmt 6 (Some node) of (r, stmt) \<Rightarrow>
      if r \<noteq> SQLITE_OK then (False, t) else
     (case sqlite3_step d stmt of (r, stmt, d) \<Rightarrow>
        (r = SQLITE_DONE, t\<lparr>db := Some d\<rparr>))))))))))"

definition putuser :: "'k SqliteDbTable \<Rightarrow> handle \<Rightarrow> string \<Rightarrow> bool \<times> 'k SqliteDbTable" where
  "putuser t userhandle user =
     (case db t of
        None \<Rightarrow> (False, t)
      | Some d \<Rightarrow>
     (case sqlite3_prepare d (InsertOrReplace ''users'' [''userhandle'', ''user'']) of
        None \<Rightarrow> (False, t)
      | Some stmt \<Rightarrow>
     (case sqlite3_bind_int64 stmt 1 userhandle of (r, stmt) \<Rightarrow>
      if r \<noteq> SQLITE_OK then (False, t) else
     (case sqlite3_bind_blob stmt 2 (Some user) of (r, stmt) \<Rightarrow>
      if r \<noteq> SQLITE_OK then (False, t) else
     (case sqlite3_step d stmt of (r, stmt, d) \<Rightarrow> (r = SQLITE_DONE, t\<lparr>db := Some d\<rparr>))))))"

definition putpcr :: "'k SqliteDbTable \<Rightarrow> handle \<Rightarrow> string \<Rightarrow> bool \<times> 'k SqliteDbTable" where
  "putpcr t ident pcr =
     (case db t of
        None \<Rightarrow> (False, t)
      | Some d \<Rightarrow>
     (case sqlite3_prepare d (InsertOrReplace ''pcrs'' [''id'', ''pcr'']) of
        None \<Rightarrow> (False, t)
      | Some stmt \<Rightarrow>
     (case sqlite3_bind_int64 stmt 1 ident of (r, stmt) \<Rightarrow>
      if r \<noteq> SQLITE_OK then (False, t) else
     (case sqlite3_bind_blob stmt 2 (Some pcr) of (r, stmt) \<Rightarrow>
      if r \<noteq> SQLITE_OK then (False, t) else
     (case sqlite3_step d stmt of (r, stmt, d) \<Rightarrow> (r = SQLITE_DONE, t\<lparr>db := Some d\<rparr>))))))"

definition delnode :: "'k SqliteDbTable \<Rightarrow> handle \<Rightarrow> bool \<times> 'k SqliteDbTable" where
  "delnode t h =
     (case db t of
        None \<Rightarrow> (False, t)
      | Some d \<Rightarrow>
     (case sqlite3_prepare d (DeleteFrom ''nodes'' (Some (Eq (Col ''nodehandle'') (Param 1)))) of
        None \<Rightarrow> (False, t)
      | Some stmt \<Rightarrow>
     (case sqlite3_bind_int64 stmt 1 h of (r, stmt) \<Rightarrow>
      if r \<noteq> SQLITE_OK then (False, t) else
     (case sqlite3_step d stmt of (r, stmt, d) \<Rightarrow> (r = SQLITE_DONE, t\<lparr>db := Some d\<rparr>)))))"

definition delpcr :: "'k SqliteDbTable \<Rightarrow> handle \<Rightarrow> bool \<times> 'k SqliteDbTable" where
  "delpcr t ident =
     (case db t of
        None \<Rightarrow> (False, t)
      | Some d \<Rightarrow>
     (case sqlite3_prepare d (DeleteFrom ''pcrs'' (Some (Eq (Col ''id'') (Param 1)))) of
        None \<Rightarrow> (False, t)
      | Some stmt \<Rightarrow>
     (case sqlite3_bind_int64 stmt 1 ident of (r, stmt) \<Rightarrow>
      if r \<noteq> SQLITE_OK then (False, t) else
     (case sqlite3_step d stmt of (r, stmt, d) \<Rightarrow> (r = SQLITE_DONE, t\<lparr>db := Some d\<rparr>)))))"

subsection \<open>Bulk operations, transactions, teardown\<close>

text \<open>\<open>truncate\<close> sends four statements and ignores their results. The first names a table
  \<open>scsn\<close>.\<close>

definition truncate :: "'k SqliteDbTable \<Rightarrow> 'k SqliteDbTable" where
  "truncate t =
     (case db t of
        None \<Rightarrow> t
      | Some d \<Rightarrow>
          (let d = snd (sqlite3_exec d (DeleteFrom ''scsn'' None));
               d = snd (sqlite3_exec d (DeleteFrom ''nodes'' None));
               d = snd (sqlite3_exec d (DeleteFrom ''users'' None));
               d = snd (sqlite3_exec d (DeleteFrom ''pcrs'' None))
           in t\<lparr>db := Some d\<rparr>))"

text \<open>\<open>SqliteDbTable::begin\<close> (\<open>begin\<close> is a keyword here).\<close>

definition begin_txn :: "'k SqliteDbTable \<Rightarrow> 'k SqliteDbTable" where
  "begin_txn t =
     (case db t of None \<Rightarrow> t | Some d \<Rightarrow> t\<lparr>db := Some (snd (sqlite3_exec d Begin))\<rparr>)"

definition commit :: "'k SqliteDbTable \<Rightarrow> 'k SqliteDbTable" where
  "commit t =
     (case db t of None \<Rightarrow> t | Some d \<Rightarrow> t\<lparr>db := Some (snd (sqlite3_exec d Commit))\<rparr>)"

definition abort :: "'k SqliteDbTable \<Rightarrow> 'k SqliteDbTable" where
  "abort t =
     (case db t of None \<Rightarrow> t | Some d \<Rightarrow> t\<lparr>db := Some (snd (sqlite3_exec d Rollback))\<rparr>)"

text \<open>\<open>remove\<close>: finalize the cursor (the pointer \<open>pStmt\<close> itself is left as it is), roll back,
  close, set \<open>db\<close> to \<open>NULL\<close>, delete the file. \<open>path2local\<close> is taken to name the same
  file.\<close>

definition remove :: "filesystem \<Rightarrow> 'k SqliteDbTable \<Rightarrow> filesystem \<times> 'k SqliteDbTable" where
  "remove fs t =
     (case db t of
        None \<Rightarrow> (fs, t)
      | Some d0 \<Rightarrow>
          (let t = abort t;
               fs = (case db t of None \<Rightarrow> fs | Some d \<Rightarrow> sqlite3_close fs (dbfile t) d);
               t = t\<lparr>db := None\<rparr>
           in (fs(dbfile t := None), t)))"

text \<open>The destructor \<open>~SqliteDbTable\<close>: as \<open>remove\<close>, but the file stays.\<close>

definition destroy :: "filesystem \<Rightarrow> 'k SqliteDbTable \<Rightarrow> filesystem" where
  "destroy fs t =
     (case db t of
        None \<Rightarrow> fs
      | Some d0 \<Rightarrow>
          (let t = abort t
           in (case db t of None \<Rightarrow> fs | Some d \<Rightarrow> sqlite3_close fs (dbfile t) d)))"

subsection \<open>\<open>SqliteDbAccess::open\<close>\<close>

text \<open>Step 5 of \<open>open\<close>, the block under \<open>if (!tableExists)\<close>: it computes the flag
  \<open>result\<close>. The second \<open>sqlite3_prepare\<close> overwrites \<open>stmt\<close> after a
  \<open>sqlite3_reset\<close>.\<close>

definition provision_keys ::
  "('k, 'g) ext \<Rightarrow> 'k \<Rightarrow> 'g \<Rightarrow> sqlite3 \<Rightarrow> bool \<times> sqlite3 \<times> 'g" where
  "provision_keys x k g d =
     (case PrnGen_genblock x g (HANDLEKEYLENGTH x) of (block, g) \<Rightarrow>
      let buf = Base64_btoa x block;
          buf = PaddedCBC_encrypt x k buf
      in
     (case sqlite3_prepare d replace_init of
        None \<Rightarrow> (False, d, g)
      | Some stmt \<Rightarrow>
     (case sqlite3_bind_int stmt 1 4 of (r, stmt) \<Rightarrow>
      if r \<noteq> SQLITE_OK then (False, d, g) else
     (case sqlite3_bind_blob stmt 2 (Some buf) of (r, stmt) \<Rightarrow>
      if r \<noteq> SQLITE_OK then (False, d, g) else
     (case sqlite3_step d stmt of (r, stmt, d) \<Rightarrow>
      if r \<noteq> SQLITE_DONE then (False, d, g) else
      let stmt = sqlite3_reset stmt
      in
     (case PrnGen_genblock x g (HANDLEKEYLENGTH x) of (block, g) \<Rightarrow>
      let buf = Base64_btoa x block;
          buf = PaddedCBC_encrypt x k buf
      in
     (case sqlite3_prepare d replace_init of
        None \<Rightarrow> (False, d, g)
      | Some stmt \<Rightarrow>
     (case sqlite3_bind_int stmt 1 5 of (r, stmt) \<Rightarrow>
      if r \<noteq> SQLITE_OK then (False, d, g) else
     (case sqlite3_bind_blob stmt 2 (Some buf) of (r, stmt) \<Rightarrow>
      if r \<noteq> SQLITE_OK then (False, d, g) else
     (case sqlite3_step d stmt of (r, stmt, d) \<Rightarrow> (r = SQLITE_DONE, d, g)))))))))))"

text \<open>Step 0 of \<open>open\<close>: \<open>tableExists\<close> starts \<open>true\<close> and becomes \<open>false\<close> only when
  the look-up in \<open>sqlite_master\<close> compiles and its first step is \<open>SQLITE_DONE\<close>.\<close>

definition table_exists :: "sqlite3 \<Rightarrow> bool" where
  "table_exists d =
     (case sqlite3_prepare d (SelectMasterTable ''init'') of
        None \<Rightarrow> True
      | Some stmt \<Rightarrow> (case sqlite3_step d stmt of (r, stmt, d) \<Rightarrow> r \<noteq> SQLITE_DONE))"

text \<open>\<open>open\<close> returns the table (\<open>None\<close> for \<open>NULL\<close>), the file system and the generator
  afterwards. Where it returns \<open>NULL\<close> after the file was opened, the connection is not
  closed; the file holds what was written so far.\<close>

definition SqliteDbAccess_open ::
  "('k, 'g) ext \<Rightarrow> string \<Rightarrow> filesystem \<Rightarrow> 'g \<Rightarrow> string \<Rightarrow> 'k
     \<Rightarrow> 'k SqliteDbTable option \<times> filesystem \<times> 'g" where
  "SqliteDbAccess_open x dbpath fs g name k =
     (let dbdir = dbpath @ ''megaclient_statecache7_'' @ name @ ''.db'' in
     (case sqlite3_open fs dbdir of (r, d) \<Rightarrow>
      if r \<noteq> SQLITE_OK then (None, fs, g) else
      let d = snd (sqlite3_exec d PragmaJournalModeWAL);
          tableExists = table_exists d
      in
     (case sqlite3_exec d (CreateTableIfNotExists ''init'' init_columns) of (r, d) \<Rightarrow>
      if r \<noteq> SQLITE_OK then (None, written fs dbdir d, g) else
     (case sqlite3_exec d (CreateTableIfNotExists ''nodes'' nodes_columns) of (r, d) \<Rightarrow>
      if r \<noteq> SQLITE_OK then (None, written fs dbdir d, g) else
     (case sqlite3_exec d (CreateTableIfNotExists ''users'' users_columns) of (r, d) \<Rightarrow>
      if r \<noteq> SQLITE_OK then (None, written fs dbdir d, g) else
     (case sqlite3_exec d (CreateTableIfNotExists ''pcrs'' pcrs_columns) of (r, d) \<Rightarrow>
      if r \<noteq> SQLITE_OK then (None, written fs dbdir d, g) else
      if \<not> tableExists
      then
        (case provision_keys x k g d of (result, d, g) \<Rightarrow>
         if \<not> result then (None, written fs dbdir d, g)
         else (Some \<lparr>db = Some d, pStmt = None, dbfile = dbdir, key = k,
                      hkey = None, phkey = None\<rparr>,
               written fs dbdir d, g))
      else (Some \<lparr>db = Some d, pStmt = None, dbfile = dbdir, key = k,
                   hkey = None, phkey = None\<rparr>,
            written fs dbdir d, g)))))))"

section \<open>Properties\<close>

subsection \<open>Vocabulary\<close>

definition has_table :: "sqlite3 \<Rightarrow> string \<Rightarrow> column list \<Rightarrow> bool" where
  "has_table d tn cols = (map_option columns (content d tn) = Some cols)"

definition has_schema :: "sqlite3 \<Rightarrow> bool" where
  "has_schema d =
     (has_table d ''init'' init_columns \<and> has_table d ''nodes'' nodes_columns \<and>
      has_table d ''users'' users_columns \<and> has_table d ''pcrs'' pcrs_columns)"

text \<open>A table object is \<open>ready\<close> when its connection is open on a database with the four
  tables of \<open>open\<close>.\<close>

definition ready :: "'k SqliteDbTable \<Rightarrow> bool" where
  "ready t = (case db t of None \<Rightarrow> False | Some d \<Rightarrow> has_schema d)"

definition table_rows :: "'k SqliteDbTable \<Rightarrow> string \<Rightarrow> sqlval list list" where
  "table_rows t tn =
     (case db t of
        None \<Rightarrow> []
      | Some d \<Rightarrow> (case content d tn of None \<Rightarrow> [] | Some tb \<Rightarrow> rows tb))"

text \<open>The scalar slot \<open>i\<close>: the content of the first row of \<open>init\<close> with that id.\<close>

definition slot :: "'k SqliteDbTable \<Rightarrow> int \<Rightarrow> string option" where
  "slot t i =
     (case filter (\<lambda>r. field init_columns r ''id'' = SqlInt i) (table_rows t ''init'') of
        [] \<Rightarrow> None
      | r # rs \<Rightarrow> Some (sqlval_bytes (field init_columns r ''content'')))"

text \<open>The rows of \<open>nodes\<close> whose parent handle is \<open>ph\<close>.\<close>

definition children :: "'k SqliteDbTable \<Rightarrow> handle \<Rightarrow> sqlval list list" where
  "children t ph =
     filter (\<lambda>r. field nodes_columns r ''parenthandle'' = SqlInt (sint ph))
       (table_rows t ''nodes'')"

text \<open>The row \<open>putnode\<close> binds, column by column.\<close>

definition node_row ::
  "handle \<Rightarrow> handle \<Rightarrow> string \<Rightarrow> string option \<Rightarrow> c_int \<Rightarrow> string \<Rightarrow> sqlval list" where
  "node_row h ph fp attr shared node =
     [SqlInt (sint h), SqlInt (sint ph), (if fp = [] then SqlNull else SqlBlob fp),
      (case attr of None \<Rightarrow> SqlNull | Some a \<Rightarrow> SqlText a), SqlInt (sint shared), SqlBlob node]"

text \<open>The handle \<open>nexthandle\<close> reads from a row of \<open>nodes\<close>.\<close>

definition row_handle :: "sqlval list \<Rightarrow> handle" where
  "row_handle r = word_of_int (sqlval_int (field nodes_columns r ''nodehandle''))"

text \<open>A database with the four tables of \<open>open\<close> holding the given rows, and the table
  object \<open>open\<close> returns on it.\<close>

definition store_content ::
  "sqlval list list \<Rightarrow> sqlval list list \<Rightarrow> sqlval list list \<Rightarrow> sqlval list list \<Rightarrow> database" where
  "store_content ri rn ru rp =
     [''init'' \<mapsto> \<lparr>columns = init_columns, rows = ri\<rparr>,
      ''nodes'' \<mapsto> \<lparr>columns = nodes_columns, rows = rn\<rparr>,
      ''users'' \<mapsto> \<lparr>columns = users_columns, rows = ru\<rparr>,
      ''pcrs'' \<mapsto> \<lparr>columns = pcrs_columns, rows = rp\<rparr>]"

definition opened :: "database \<Rightarrow> string \<Rightarrow> 'k \<Rightarrow> 'k SqliteDbTable" where
  "opened c path k =
     \<lparr>db = Some \<lparr>content = c, txn = None\<rparr>, pStmt = None, dbfile = path, key = k,
      hkey = None, phkey = None\<rparr>"

text \<open>What \<open>open\<close> leaves in a file it has just created: the four tables, and the two key
  rows with contents \<open>c1\<close> and \<open>c2\<close>.\<close>

definition fresh_content :: "string \<Rightarrow> string \<Rightarrow> database" where
  "fresh_content c1 c2 = store_content [[SqlInt 4, SqlBlob c1], [SqlInt 5, SqlBlob c2]] [] [] []"

text \<open>The file \<open>open\<close> works on.\<close>

definition db_path :: "string \<Rightarrow> string \<Rightarrow> string" where
  "db_path dbpath name = dbpath @ ''megaclient_statecache7_'' @ name @ ''.db''"

fun is_scan :: "sql \<Rightarrow> bool" where
  "is_scan (SelectCol c tn w) = True"
| "is_scan q = False"

text \<open>The caller's loop \<open>while (table->nexthandle(&h)) \<dots>\<close>, cut off after \<open>n\<close> calls: the
  handles it sees, and the table afterwards. \<open>drain_data\<close> is the same loop over
  \<open>next\<close>.\<close>

fun drain_handles :: "nat \<Rightarrow> 'k SqliteDbTable \<Rightarrow> handle list \<times> 'k SqliteDbTable" where
  "drain_handles 0 t = ([], t)"
| "drain_handles (Suc n) t =
     (case nexthandle t 0 of
        (True, h, t') \<Rightarrow> (case drain_handles n t' of (hs, t'') \<Rightarrow> (h # hs, t''))
      | (False, h, t') \<Rightarrow> ([], t'))"

fun drain_data :: "nat \<Rightarrow> 'k SqliteDbTable \<Rightarrow> string list \<times> 'k SqliteDbTable" where
  "drain_data 0 t = ([], t)"
| "drain_data (Suc n) t =
     (case next_data t [] of
        (True, x, t') \<Rightarrow> (case drain_data n t' of (xs, t'') \<Rightarrow> (x # xs, t''))
      | (False, x, t') \<Rightarrow> ([], t'))"

text \<open>A statement as \<open>sqlite3_prepare\<close> returns it, with its parameters bound.\<close>

definition fresh_stmt :: "sql \<Rightarrow> (nat \<rightharpoonup> sqlval) \<Rightarrow> sqlite3_stmt" where
  "fresh_stmt q b = \<lparr>st_sql = q, st_binds = b, st_pos = 0, st_key = None, st_row = []\<rparr>"

text \<open>The cursor slot holds nothing or the scan of a table: what every \<open>rewind\<dots>\<close>
  leaves, and what \<open>next\<close> and \<open>nexthandle\<close> keep.\<close>

definition cursor_ok :: "'k SqliteDbTable \<Rightarrow> bool" where
  "cursor_ok t = (case pStmt t of None \<Rightarrow> True | Some s \<Rightarrow> is_scan (st_sql s))"

text \<open>The rows of a table are the entries of a B-tree: they stand in strictly ascending
  order of their rowid.\<close>

definition btree_ok :: "db_table \<Rightarrow> bool" where
  "btree_ok tb = sorted_wrt (\<lambda>a b. rowid (columns tb) a < rowid (columns tb) b) (rows tb)"

text \<open>The rowids a cursor has still to visit: all of them before its first row, and
  afterwards those greater than the rowid \<open>j\<close> of the entry it stands on.\<close>

definition beyond :: "int option \<Rightarrow> int \<Rightarrow> bool" where
  "beyond k i = (case k of None \<Rightarrow> True | Some j \<Rightarrow> j < i)"

text \<open>The schema of \<open>open\<close>, in the content and in the content a transaction would
  roll back to: an invariant of every statement of the engine, and so of every member
  function.\<close>

definition conn_ok :: "sqlite3 \<Rightarrow> bool" where
  "conn_ok d =
     (has_schema d \<and>
      (case txn d of None \<Rightarrow> True | Some saved \<Rightarrow> has_schema \<lparr>content = saved, txn = None\<rparr>))"

definition table_ok :: "'k SqliteDbTable \<Rightarrow> bool" where
  "table_ok t = (case db t of None \<Rightarrow> False | Some d \<Rightarrow> conn_ok d)"

text \<open>A concrete choice of the collaborators, to run the model on examples: the generator
  reads a tape, the coder is the identity cut to four bytes, the cipher appends its key.\<close>

definition plain_ext :: "(string, string) ext" where
  "plain_ext =
     \<lparr>HANDLEKEYLENGTH = 4,
      PrnGen_genblock = (\<lambda>g n. (take n g, drop n g)),
      Base64_btoa = (\<lambda>s. s),
      Base64_atob = (\<lambda>s n. take (min n 4) s),
      PaddedCBC_encrypt = (\<lambda>k s. s @ k)\<rparr>"


text \<open>A table as the engine keeps it: a B-tree whose rowids are the values of the
  \<open>INTEGER PRIMARY KEY\<close>. This holds of every table in the content, and in the content a
  transaction would roll back to: an invariant of every statement of the engine.\<close>

definition keyed :: "db_table \<Rightarrow> bool" where
  "keyed tb =
     (btree_ok tb \<and>
      list_all (\<lambda>r. pk_of (columns tb) r = SqlInt (rowid (columns tb) r)) (rows tb))"

definition keyed_db :: "database \<Rightarrow> bool" where
  "keyed_db c = (\<forall>tn tb. c tn = Some tb \<longrightarrow> keyed tb)"

definition conn_keyed :: "sqlite3 \<Rightarrow> bool" where
  "conn_keyed d =
     (keyed_db (content d) \<and> (case txn d of None \<Rightarrow> True | Some saved \<Rightarrow> keyed_db saved))"

definition table_keyed :: "'k SqliteDbTable \<Rightarrow> bool" where
  "table_keyed t = (case db t of None \<Rightarrow> False | Some d \<Rightarrow> conn_keyed d)"

subsection \<open>Facts about the engine\<close>

lemma db_update_same: "db t = Some d \<Longrightarrow> t\<lparr>db := Some d\<rparr> = t"
  by (cases t) simp

lemma pStmt_db_update: "db t = Some d \<Longrightarrow> t\<lparr>db := Some d, pStmt := p\<rparr> = t\<lparr>pStmt := p\<rparr>"
  by (cases t) simp

lemma db_content_same:
  "db t = Some d \<Longrightarrow> content d tn = Some tb \<Longrightarrow>
   t\<lparr>db := Some (d\<lparr>content := (content d)(tn \<mapsto> tb\<lparr>rows := rows tb\<rparr>)\<rparr>)\<rparr> = t"
  by (cases t, cases d) (auto simp: fun_upd_idem)

lemma sql_eq_True:
  "sql_eq v (SqlInt n) = Some True \<longleftrightarrow> v = SqlInt n"
  "sql_eq v (SqlBlob b) = Some True \<longleftrightarrow> v = SqlBlob b"
  by (cases v; simp)+

lemma sql_and_True: "sql_and p q = Some True \<longleftrightarrow> p = Some True \<and> q = Some True"
  by (cases "(p, q)" rule: sql_and.cases) auto

lemma sql_or_True: "sql_or p q = Some True \<longleftrightarrow> p = Some True \<or> q = Some True"
  by (cases "(p, q)" rule: sql_or.cases) auto

lemma selected_Some: "selected cols b (Some c) = (\<lambda>r. cond_val cols r b c = Some True)"
  by (rule ext) (simp add: selected_def)

lemma selected_None: "selected cols b None = (\<lambda>r. True)"
  by (rule ext) (simp add: selected_def)

lemma cnames_nodes [simp]:
  "map cname nodes_columns =
     [''nodehandle'', ''parenthandle'', ''fingerprint'', ''attrstring'', ''shared'', ''node'']"
  by (simp add: nodes_columns_def)

lemma cnames_init [simp]: "map cname init_columns = [''id'', ''content'']"
  by (simp add: init_columns_def)

lemma cnames_users [simp]: "map cname users_columns = [''userhandle'', ''user'']"
  by (simp add: users_columns_def)

lemma cnames_pcrs [simp]: "map cname pcrs_columns = [''id'', ''pcr'']"
  by (simp add: pcrs_columns_def)

lemma filter_first:
  "filter P xs =
     (let i = length (takeWhile (\<lambda>x. \<not> P x) xs)
      in if i < length xs then xs ! i # filter P (drop (Suc i) xs) else [])"
  by (induction xs) (simp_all add: Let_def)

lemma scan_start_le: "scan_start cols R p k \<le> length R"
  by (simp add: scan_start_def length_takeWhile_le split: option.splits)

text \<open>One step of a scan: the first selected row from the start position on.\<close>

lemma step_scan_eval:
  "step_scan c tb w s d =
     (let start = scan_start (columns tb) (rows tb) (st_pos s) (st_key s);
          rest = drop start (rows tb)
      in case filter (selected (columns tb) (st_binds s) w) rest of
           [] \<Rightarrow> (SQLITE_DONE, s\<lparr>st_row := []\<rparr>, d)
         | r # rs \<Rightarrow>
             (SQLITE_ROW,
              s\<lparr>st_pos := Suc (start + length (takeWhile
                          (\<lambda>r. \<not> selected (columns tb) (st_binds s) w r) rest)),
                st_key := Some (rowid (columns tb) r),
                st_row := [field (columns tb) r c]\<rparr>, d))"
proof -
  let ?P = "selected (columns tb) (st_binds s) w"
  let ?start = "scan_start (columns tb) (rows tb) (st_pos s) (st_key s)"
  let ?rest = "drop ?start (rows tb)"
  let ?i = "length (takeWhile (\<lambda>r. \<not> ?P r) ?rest)"
  have le: "?start \<le> length (rows tb)"
    by (rule scan_start_le)
  show ?thesis
  proof (cases "?i < length ?rest")
    case True
    then have "filter ?P ?rest = ?rest ! ?i # filter ?P (drop (Suc ?i) ?rest)"
      using filter_first [of ?P ?rest] by (simp add: Let_def)
    moreover have "?rest ! ?i = rows tb ! (?start + ?i)"
      using le by simp
    moreover have "?start + ?i < length (rows tb)"
      using True by simp
    ultimately show ?thesis
      by (simp add: step_scan_def Let_def)
  next
    case False
    then have "filter ?P ?rest = []"
      using filter_first [of ?P ?rest] by (simp add: Let_def)
    moreover have "\<not> ?start + ?i < length (rows tb)"
      using False by simp
    ultimately show ?thesis
      by (simp add: step_scan_def Let_def)
  qed
qed

lemma step_select_first:
  assumes "st_sql s = SelectCol c tn w" "st_key s = None" "content d tn = Some tb"
  shows "sqlite3_step d s =
     (case filter (selected (columns tb) (st_binds s) w) (rows tb) of
        [] \<Rightarrow> (SQLITE_DONE, s\<lparr>st_row := []\<rparr>, d)
      | r # rs \<Rightarrow>
          (SQLITE_ROW,
           s\<lparr>st_pos := Suc (length (takeWhile
                       (\<lambda>r. \<not> selected (columns tb) (st_binds s) w r) (rows tb))),
             st_key := Some (rowid (columns tb) r),
             st_row := [field (columns tb) r c]\<rparr>, d))"
  using assms
  by (simp add: sqlite3_step_def step_scan_eval scan_start_def Let_def split: list.splits)

lemma step_count_first:
  assumes "st_sql s = SelectCount tn w" "st_pos s = 0" "content d tn = Some tb"
  shows "sqlite3_step d s =
     (SQLITE_ROW,
      s\<lparr>st_pos := Suc 0,
        st_row := [SqlInt (int (length (filter (selected (columns tb) (st_binds s) w)
                                          (rows tb))))]\<rparr>,
      d)"
  using assms
  by (simp add: sqlite3_step_def step_single_def)

lemma filter_insort_fresh:
  "P x \<Longrightarrow> \<forall>y\<in>set xs. \<not> P y \<Longrightarrow> filter P (insort_key f x xs) = [x]"
  by (induction xs) auto

lemma filter_insort_other:
  "\<not> P x \<Longrightarrow> filter P (insort_key f x xs) = filter P xs"
  by (induction xs) auto

lemma length_filter_split:
  "length (filter P xs) =
     length (filter (\<lambda>x. P x \<and> Q x) xs) + length (filter (\<lambda>x. P x \<and> \<not> Q x) xs)"
  by (induction xs) auto

lemma exec_create:
  "sqlite3_exec d (CreateTableIfNotExists tn cols) =
     (SQLITE_OK, case content d tn of Some tb \<Rightarrow> d
               | None \<Rightarrow> d\<lparr>content := (content d)(tn \<mapsto> \<lparr>columns = cols, rows = []\<rparr>)\<rparr>)"
  by (simp add: sqlite3_exec_def sqlite3_prepare_def sqlite3_step_def split: option.splits)

lemma exec_pragma: "sqlite3_exec d PragmaJournalModeWAL = (SQLITE_OK, d)"
  by (simp add: sqlite3_exec_def sqlite3_prepare_def sqlite3_step_def)


lemma exec_delete_all:
  "sqlite3_exec d (DeleteFrom tn None) =
     (case content d tn of
        None \<Rightarrow> (SQLITE_ERROR, d)
      | Some tb \<Rightarrow> (SQLITE_OK, d\<lparr>content := (content d)(tn \<mapsto> tb\<lparr>rows := []\<rparr>)\<rparr>))"
  by (simp add: sqlite3_exec_def sqlite3_prepare_def known_cols_def where_cols_def
      sqlite3_step_def selected_def split: option.splits)


subsection \<open>Ready stores\<close>

lemma ready_init:
  "ready t \<Longrightarrow>
   \<exists>d tb. db t = Some d \<and> content d ''init'' = Some tb \<and> columns tb = init_columns"
  by (auto simp: ready_def has_schema_def has_table_def split: option.splits)

lemma ready_nodes:
  "ready t \<Longrightarrow>
   \<exists>d tb. db t = Some d \<and> content d ''nodes'' = Some tb \<and> columns tb = nodes_columns"
  by (auto simp: ready_def has_schema_def has_table_def split: option.splits)

lemma has_schema_nodes_update:
  "has_schema d \<Longrightarrow> columns tb = nodes_columns \<Longrightarrow>
   has_schema (d\<lparr>content := (content d)(''nodes'' \<mapsto> tb)\<rparr>)"
  by (simp add: has_schema_def has_table_def)

lemma has_schema_init_update:
  "has_schema d \<Longrightarrow> columns tb = init_columns \<Longrightarrow>
   has_schema (d\<lparr>content := (content d)(''init'' \<mapsto> tb)\<rparr>)"
  by (simp add: has_schema_def has_table_def)

lemma has_schema_store: "has_schema \<lparr>content = store_content ri rn ru rp, txn = None\<rparr>"
  by (simp add: has_schema_def has_table_def store_content_def)

lemma ready_opened: "ready (opened (store_content ri rn ru rp) path k)"
  by (simp add: ready_def opened_def has_schema_store)

lemma table_rows_opened [simp]:
  "table_rows (opened (store_content ri rn ru rp) path k) ''init'' = ri"
  "table_rows (opened (store_content ri rn ru rp) path k) ''nodes'' = rn"
  "table_rows (opened (store_content ri rn ru rp) path k) ''users'' = ru"
  "table_rows (opened (store_content ri rn ru rp) path k) ''pcrs'' = rp"
  by (simp_all add: table_rows_def opened_def store_content_def)

subsection \<open>Opening and closing\<close>

lemma table_exists_iff: "table_exists d \<longleftrightarrow> content d ''init'' \<noteq> None"
  by (simp add: table_exists_def sqlite3_prepare_def sqlite3_step_def step_single_def
      split: option.splits)

lemma provision_keys_eval:
  assumes "content d ''init'' = Some \<lparr>columns = init_columns, rows = []\<rparr>"
    and "PrnGen_genblock x g (HANDLEKEYLENGTH x) = (b1, g1)"
    and "PrnGen_genblock x g1 (HANDLEKEYLENGTH x) = (b2, g2)"
  shows "provision_keys x k g d =
     (True, d\<lparr>content := (content d)(''init'' \<mapsto> \<lparr>columns = init_columns,
        rows = [[SqlInt 4, SqlBlob (PaddedCBC_encrypt x k (Base64_btoa x b1))],
                [SqlInt 5, SqlBlob (PaddedCBC_encrypt x k (Base64_btoa x b2))]]\<rparr>)\<rparr>, g2)"
  using assms
  by (simp add: provision_keys_def sqlite3_prepare_def known_cols_def sqlite3_bind_int_def
      sqlite3_bind_blob_def bind_value_def sqlite3_step_def new_row_def violates_notnull_def
      pk_of_def rowid_def field_def init_columns_def sqlite3_reset_def)

lemma open_fresh:
  assumes "fs (db_path dbpath name) = None"
    and "PrnGen_genblock x g (HANDLEKEYLENGTH x) = (b1, g1)"
    and "PrnGen_genblock x g1 (HANDLEKEYLENGTH x) = (b2, g2)"
  shows "SqliteDbAccess_open x dbpath fs g name k =
     (let c = fresh_content (PaddedCBC_encrypt x k (Base64_btoa x b1))
                            (PaddedCBC_encrypt x k (Base64_btoa x b2))
      in (Some (opened c (db_path dbpath name) k), fs(db_path dbpath name \<mapsto> DbFile c), g2))"
proof -
  let ?d4 = "\<lparr>content = [''init'' \<mapsto> \<lparr>columns = init_columns, rows = []\<rparr>,
      ''nodes'' \<mapsto> \<lparr>columns = nodes_columns, rows = []\<rparr>,
      ''users'' \<mapsto> \<lparr>columns = users_columns, rows = []\<rparr>,
      ''pcrs'' \<mapsto> \<lparr>columns = pcrs_columns, rows = []\<rparr>], txn = None\<rparr>"
  have pk: "provision_keys x k g ?d4 =
     (True, ?d4\<lparr>content := (content ?d4)(''init'' \<mapsto> \<lparr>columns = init_columns,
        rows = [[SqlInt 4, SqlBlob (PaddedCBC_encrypt x k (Base64_btoa x b1))],
                [SqlInt 5, SqlBlob (PaddedCBC_encrypt x k (Base64_btoa x b2))]]\<rparr>)\<rparr>, g2)"
    by (rule provision_keys_eval [OF _ assms(2,3)]) simp
  have upd: "[''nodes'' \<mapsto> \<lparr>columns = nodes_columns, rows = []\<rparr>,
      ''users'' \<mapsto> \<lparr>columns = users_columns, rows = []\<rparr>,
      ''pcrs'' \<mapsto> \<lparr>columns = pcrs_columns, rows = []\<rparr>,
      ''init'' \<mapsto> \<lparr>columns = init_columns,
        rows = [[SqlInt 4, SqlBlob c1], [SqlInt 5, SqlBlob c2]]\<rparr>] = fresh_content c1 c2"
    for c1 c2
    by (rule ext) (simp add: fresh_content_def store_content_def)
  have "fs (dbpath @ ''megaclient_statecache7_'' @ name @ ''.db'') = None"
    using assms(1) by (simp add: db_path_def)
  then show ?thesis
    using pk
    by (simp add: SqliteDbAccess_open_def sqlite3_open_def exec_pragma exec_create
        table_exists_iff written_def committed_def upd Let_def opened_def db_path_def)
qed

lemma open_existing:
  assumes "fs (db_path dbpath name) = Some (DbFile c)"
    and "has_schema \<lparr>content = c, txn = None\<rparr>"
  shows "SqliteDbAccess_open x dbpath fs g name k = (Some (opened c (db_path dbpath name) k), fs, g)"
proof -
  from assms(2) obtain ti tn tu tp where
    "c ''init'' = Some ti" "c ''nodes'' = Some tn" "c ''users'' = Some tu" "c ''pcrs'' = Some tp"
    by (auto simp: has_schema_def has_table_def)
  moreover have "fs (dbpath @ ''megaclient_statecache7_'' @ name @ ''.db'') = Some (DbFile c)"
    using assms(1) by (simp add: db_path_def)
  ultimately show ?thesis
    by (simp add: SqliteDbAccess_open_def sqlite3_open_def exec_pragma exec_create
        table_exists_iff written_def committed_def Let_def fun_upd_idem opened_def db_path_def)
qed



lemma remove_eval: "db t = Some d \<Longrightarrow> remove fs t = (fs(dbfile t := None), t\<lparr>db := None\<rparr>)"
  by (simp add: remove_def abort_def sqlite3_close_def written_def Let_def)

subsection \<open>Nodes: put, then get\<close>

lemma putnode_eval:
  assumes "db t = Some d" "content d ''nodes'' = Some tb" "columns tb = nodes_columns"
  shows "putnode t h ph fp attr shared node =
     (True, t\<lparr>db := Some (d\<lparr>content := (content d)(''nodes'' \<mapsto>
         tb\<lparr>rows := insort_key (rowid nodes_columns) (node_row h ph fp attr shared node)
              (filter (\<lambda>x. field nodes_columns x ''nodehandle'' \<noteq> SqlInt (sint h))
                 (rows tb))\<rparr>)\<rparr>)\<rparr>)"
  using assms
  by (simp add: putnode_def sqlite3_prepare_def known_cols_def sqlite3_bind_int64_def
      sqlite3_bind_int_def sqlite3_bind_blob_def sqlite3_bind_text_def bind_value_def
      sqlite3_step_def new_row_def violates_notnull_def pk_of_def field_def node_row_def
      nodes_columns_def split: option.splits)

lemma getnodebyhandle_eval:
  assumes "db t = Some d" "content d ''nodes'' = Some tb" "columns tb = nodes_columns"
  shows "getnodebyhandle t h data =
     (case filter (\<lambda>r. field nodes_columns r ''nodehandle'' = SqlInt (sint h)) (rows tb) of
        [] \<Rightarrow> (False, data, t)
      | r # rs \<Rightarrow> (True, sqlval_bytes (field nodes_columns r ''node''), t))"
  using assms
  by (simp add: getnodebyhandle_def sqlite3_prepare_def known_cols_def sqlite3_bind_int64_def
      bind_value_def where_cols_def where_params_def step_select_first
      selected_Some sql_eq_True sqlite3_column_blob_def column_value_def db_update_same
      split: list.splits)

lemma getnodebyfingerprint_eval:
  assumes "db t = Some d" "content d ''nodes'' = Some tb" "columns tb = nodes_columns"
  shows "getnodebyfingerprint t fp data =
     (case filter (\<lambda>r. field nodes_columns r ''fingerprint'' = SqlBlob fp) (rows tb) of
        [] \<Rightarrow> (False, data, t)
      | r # rs \<Rightarrow> (True, sqlval_bytes (field nodes_columns r ''node''), t))"
  using assms
  by (simp add: getnodebyfingerprint_def sqlite3_prepare_def known_cols_def
      sqlite3_bind_blob_def bind_value_def where_cols_def where_params_def step_select_first
      selected_Some sql_eq_True sqlite3_column_blob_def column_value_def db_update_same
      split: list.splits)

lemma field_node_row [simp]:
  "field nodes_columns (node_row h ph fp attr shared node) ''nodehandle'' = SqlInt (sint h)"
  "field nodes_columns (node_row h ph fp attr shared node) ''parenthandle'' = SqlInt (sint ph)"
  "field nodes_columns (node_row h ph fp attr shared node) ''shared'' = SqlInt (sint shared)"
  "field nodes_columns (node_row h ph fp attr shared node) ''node'' = SqlBlob node"
  "field nodes_columns (node_row h ph fp attr shared node) ''fingerprint'' =
     (if fp = [] then SqlNull else SqlBlob fp)"
  by (simp_all add: field_def node_row_def nodes_columns_def)

lemma putnode_get:
  assumes "ready t"
  shows "\<exists>t1. putnode t h ph fp attr shared p = (True, t1) \<and> ready t1 \<and>
     getnodebyhandle t1 h data = (True, p, t1) \<and>
     filter (\<lambda>r. field nodes_columns r ''nodehandle'' = SqlInt (sint h))
       (table_rows t1 ''nodes'') = [node_row h ph fp attr shared p]"
proof -
  from assms obtain d tb where t: "db t = Some d" "content d ''nodes'' = Some tb"
    "columns tb = nodes_columns"
    using ready_nodes by blast
  from assms t have sch: "has_schema d" by (simp add: ready_def)
  let ?P = "\<lambda>r. field nodes_columns r ''nodehandle'' = SqlInt (sint h)"
  let ?rs = "insort_key (rowid nodes_columns) (node_row h ph fp attr shared p)
              (filter (\<lambda>x. \<not> ?P x) (rows tb))"
  let ?tb = "tb\<lparr>rows := ?rs\<rparr>"
  let ?d = "d\<lparr>content := (content d)(''nodes'' \<mapsto> ?tb)\<rparr>"
  let ?t = "t\<lparr>db := Some ?d\<rparr>"
  have put: "putnode t h ph fp attr shared p = (True, ?t)"
    using putnode_eval [OF t] by simp
  have f: "filter ?P ?rs = [node_row h ph fp attr shared p]"
    by (rule filter_insort_fresh) auto
  have get: "getnodebyhandle ?t h data = (True, p, ?t)"
    using getnodebyhandle_eval [of ?t ?d ?tb h data] t f by simp
  have rdy: "ready ?t"
    using has_schema_nodes_update [OF sch, of ?tb] t by (simp add: ready_def)
  have "filter ?P (table_rows ?t ''nodes'') = [node_row h ph fp attr shared p]"
    using f by (simp add: table_rows_def)
  with put get rdy show ?thesis by blast
qed

text \<open>
  Claim C1. On a table whose connection is open on the schema of \<open>open\<close>, for every node
  handle \<open>h\<close> and payload \<open>p\<close>: \<open>putnode\<close> of \<open>h\<close> with payload \<open>p\<close> succeeds and
  \<open>getnodebyhandle\<close> of \<open>h\<close> then returns exactly \<open>p\<close>, whatever the caller's buffer held;
  a second \<open>putnode\<close> of the same handle with payload \<open>p2\<close> (and any other field values)
  succeeds, \<open>getnodebyhandle\<close> then returns \<open>p2\<close>, and the table holds exactly one row with
  that handle: the row was replaced, not duplicated.
\<close>

theorem putnode_getnodebyhandle_roundtrip:
  assumes "ready t"
  shows "\<exists>t1 t2.
     putnode t h ph fp attr shared p = (True, t1) \<and>
     getnodebyhandle t1 h data = (True, p, t1) \<and>
     putnode t1 h ph2 fp2 attr2 shared2 p2 = (True, t2) \<and>
     getnodebyhandle t2 h data2 = (True, p2, t2) \<and>
     length (filter (\<lambda>r. field nodes_columns r ''nodehandle'' = SqlInt (sint h))
               (table_rows t2 ''nodes'')) = 1"
proof -
  from putnode_get [OF assms, of h ph fp attr shared p data]
  obtain t1 where 1: "putnode t h ph fp attr shared p = (True, t1)" "ready t1"
    "getnodebyhandle t1 h data = (True, p, t1)" by blast
  from putnode_get [OF 1(2), of h ph2 fp2 attr2 shared2 p2 data2]
  obtain t2 where 2: "putnode t1 h ph2 fp2 attr2 shared2 p2 = (True, t2)"
    "getnodebyhandle t2 h data2 = (True, p2, t2)"
    "filter (\<lambda>r. field nodes_columns r ''nodehandle'' = SqlInt (sint h))
       (table_rows t2 ''nodes'') = [node_row h ph2 fp2 attr2 shared2 p2]" by blast
  from 1 2 show ?thesis by auto
qed

theorem putnode_getnodebyhandle_roundtrip_witness:
  "ready (opened (fresh_content ''k1'' ''k2'') ''megaclient_statecache7_a.db'' ()) \<and>
   (\<exists>t1 t2.
     putnode (opened (fresh_content ''k1'' ''k2'') ''megaclient_statecache7_a.db'' ())
       7 1 ''fp'' None 0 ''payload'' = (True, t1) \<and>
     getnodebyhandle t1 7 ''old'' = (True, ''payload'', t1) \<and>
     putnode t1 7 2 [] (Some ''attr'') 4 ''second'' = (True, t2) \<and>
     getnodebyhandle t2 7 ''old'' = (True, ''second'', t2) \<and>
     length (filter (\<lambda>r. field nodes_columns r ''nodehandle'' = SqlInt (sint (7 :: handle)))
               (table_rows t2 ''nodes'')) = 1)"
  using putnode_getnodebyhandle_roundtrip
    [of "opened (fresh_content ''k1'' ''k2'') ''megaclient_statecache7_a.db'' ()"
        7 1 "''fp''" None 0 "''payload''" "''old''" 2 "[]" "Some ''attr''" 4 "''second''" "''old''"]
  by (simp add: ready_opened fresh_content_def)

subsection \<open>Counting children\<close>

lemma getnumchildrenquery_eval:
  assumes "db t = Some d" "content d ''nodes'' = Some tb" "columns tb = nodes_columns"
  shows "getnumchildrenquery t ph c =
     (True, word_of_int (int (length (filter
        (\<lambda>r. field nodes_columns r ''parenthandle'' = SqlInt (sint ph)) (rows tb)))), t)"
  using assms
  by (simp add: getnumchildrenquery_def sqlite3_prepare_def known_cols_def
      sqlite3_bind_int64_def bind_value_def where_cols_def where_params_def step_count_first
      selected_Some sql_eq_True sqlite3_column_int_def column_value_def db_update_same)

lemma getnumchildfilesquery_eval:
  assumes "db t = Some d" "content d ''nodes'' = Some tb" "columns tb = nodes_columns"
  shows "getnumchildfilesquery t ph c =
     (True, word_of_int (int (length (filter
        (\<lambda>r. field nodes_columns r ''parenthandle'' = SqlInt (sint ph) \<and>
             field nodes_columns r ''fingerprint'' \<noteq> SqlNull) (rows tb)))), t)"
  using assms
  by (simp add: getnumchildfilesquery_def sqlite3_prepare_def known_cols_def
      sqlite3_bind_int64_def bind_value_def where_cols_def where_params_def step_count_first
      sql_and_True selected_Some sql_eq_True sqlite3_column_int_def column_value_def
      db_update_same)

lemma getnumchildfoldersquery_eval:
  assumes "db t = Some d" "content d ''nodes'' = Some tb" "columns tb = nodes_columns"
  shows "getnumchildfoldersquery t ph c =
     (True, word_of_int (int (length (filter
        (\<lambda>r. field nodes_columns r ''parenthandle'' = SqlInt (sint ph) \<and>
             field nodes_columns r ''fingerprint'' = SqlNull) (rows tb)))), t)"
  using assms
  by (simp add: getnumchildfoldersquery_def sqlite3_prepare_def known_cols_def
      sqlite3_bind_int64_def bind_value_def where_cols_def where_params_def step_count_first
      sql_and_True selected_Some sql_eq_True sqlite3_column_int_def column_value_def
      db_update_same)

text \<open>
  Claim C4. On a table open on the schema of \<open>open\<close>, for every parent handle \<open>ph\<close> and
  whatever rows the \<open>nodes\<close> table holds, the three counting queries succeed and
  \<open>getnumchildrenquery\<close> returns the sum of what \<open>getnumchildfilesquery\<close> and
  \<open>getnumchildfoldersquery\<close> return: the three results are the number of rows with parent
  \<open>ph\<close>, of those with a fingerprint and of those without one, each as a C \<open>int\<close>. The sum
  is that of C \<open>int\<close>s (32 bits); it is also the sum of the signed values whenever \<open>ph\<close> has
  fewer than \<open>2^31\<close> children.
\<close>

theorem children_count_partition:
  assumes "ready t"
  shows "\<exists>n f d.
     getnumchildrenquery t ph c1 = (True, n, t) \<and>
     getnumchildfilesquery t ph c2 = (True, f, t) \<and>
     getnumchildfoldersquery t ph c3 = (True, d, t) \<and>
     n = f + d \<and>
     n = word_of_nat (length (children t ph)) \<and>
     f = word_of_nat (length (filter (\<lambda>r. field nodes_columns r ''fingerprint'' \<noteq> SqlNull)
                                (children t ph))) \<and>
     d = word_of_nat (length (filter (\<lambda>r. field nodes_columns r ''fingerprint'' = SqlNull)
                                (children t ph))) \<and>
     (length (children t ph) < 2 ^ 31 \<longrightarrow> sint n = sint f + sint d)"
proof -
  from assms obtain d0 tb where t: "db t = Some d0" "content d0 ''nodes'' = Some tb"
    "columns tb = nodes_columns"
    using ready_nodes by blast
  let ?P = "\<lambda>r. field nodes_columns r ''parenthandle'' = SqlInt (sint ph)"
  let ?Q = "\<lambda>r. field nodes_columns r ''fingerprint'' \<noteq> SqlNull"
  let ?a = "length (filter ?P (rows tb))"
  let ?b = "length (filter (\<lambda>r. ?P r \<and> ?Q r) (rows tb))"
  let ?c = "length (filter (\<lambda>r. ?P r \<and> \<not> ?Q r) (rows tb))"
  have ch: "children t ph = filter ?P (rows tb)"
    using t by (simp add: children_def table_rows_def)
  have sum: "?a = ?b + ?c" by (rule length_filter_split)
  have n: "getnumchildrenquery t ph c1 = (True, word_of_nat ?a, t)"
    using getnumchildrenquery_eval [OF t] by simp
  have f: "getnumchildfilesquery t ph c2 = (True, word_of_nat ?b, t)"
    using getnumchildfilesquery_eval [OF t] by simp
  have d: "getnumchildfoldersquery t ph c3 = (True, word_of_nat ?c, t)"
    using getnumchildfoldersquery_eval [OF t] by simp
  have fb: "length (filter ?Q (children t ph)) = ?b"
    by (simp add: ch conj_commute)
  have fc: "length (filter (\<lambda>r. \<not> ?Q r) (children t ph)) = ?c"
    by (simp add: ch conj_commute)
  have small: "sint (word_of_nat k :: c_int) = int k" if "k < 2 ^ 31" for k
    using that by (simp add: signed_of_nat signed_take_bit_int_eq_self)
  have wsum: "(word_of_nat ?a :: c_int) = word_of_nat ?b + word_of_nat ?c"
    by (simp only: sum of_nat_add)
  have ssum: "sint (word_of_nat ?a :: c_int) =
      sint (word_of_nat ?b :: c_int) + sint (word_of_nat ?c :: c_int)"
    if "?a < 2 ^ 31"
  proof -
    from that sum have "?b < 2 ^ 31" "?c < 2 ^ 31" by linarith+
    with that sum show ?thesis by (simp only: small)
  qed
  show ?thesis
    using n f d wsum ssum fb fc ch by simp
qed

subsection \<open>Deleting\<close>

lemma delnode_step:
  assumes "db t = Some d" "content d ''nodes'' = Some tb" "columns tb = nodes_columns"
  shows "delnode t h =
     (True, t\<lparr>db := Some (d\<lparr>content := (content d)(''nodes'' \<mapsto>
         tb\<lparr>rows := filter (\<lambda>r. field nodes_columns r ''nodehandle'' \<noteq> SqlInt (sint h))
                        (rows tb)\<rparr>)\<rparr>)\<rparr>)"
  using assms
  by (simp add: delnode_def sqlite3_prepare_def known_cols_def sqlite3_bind_int64_def
      bind_value_def where_cols_def where_params_def sqlite3_step_def selected_def sql_eq_True)

lemma delpcr_step:
  assumes "db t = Some d" "content d ''pcrs'' = Some tb" "columns tb = pcrs_columns"
  shows "delpcr t h =
     (True, t\<lparr>db := Some (d\<lparr>content := (content d)(''pcrs'' \<mapsto>
         tb\<lparr>rows := filter (\<lambda>r. field pcrs_columns r ''id'' \<noteq> SqlInt (sint h))
                        (rows tb)\<rparr>)\<rparr>)\<rparr>)"
  using assms
  by (simp add: delpcr_def sqlite3_prepare_def known_cols_def sqlite3_bind_int64_def
      bind_value_def where_cols_def where_params_def sqlite3_step_def selected_def sql_eq_True)

text \<open>
  Claim C10. On a table open on the schema of \<open>open\<close>, for every handle \<open>h\<close>, \<open>delnode\<close>
  and \<open>delpcr\<close> return \<open>true\<close>; in particular when no row of \<open>nodes\<close> (of \<open>pcrs\<close>) has the
  key \<open>h\<close> they return \<open>true\<close> and the table object, its database included, is unchanged.
\<close>

theorem delete_absent_is_ok:
  assumes "ready t"
  shows "fst (delnode t h) \<and> fst (delpcr t h) \<and>
     ((\<forall>r \<in> set (table_rows t ''nodes'').
          field nodes_columns r ''nodehandle'' \<noteq> SqlInt (sint h))
        \<longrightarrow> delnode t h = (True, t)) \<and>
     ((\<forall>r \<in> set (table_rows t ''pcrs''). field pcrs_columns r ''id'' \<noteq> SqlInt (sint h))
        \<longrightarrow> delpcr t h = (True, t))"
proof -
  from assms obtain d tn tp where t: "db t = Some d"
    and n: "content d ''nodes'' = Some tn" "columns tn = nodes_columns"
    and p: "content d ''pcrs'' = Some tp" "columns tp = pcrs_columns"
    by (auto simp: ready_def has_schema_def has_table_def split: option.splits)
  have 1: "delnode t h = (True, t)"
    if "\<forall>r \<in> set (table_rows t ''nodes'').
          field nodes_columns r ''nodehandle'' \<noteq> SqlInt (sint h)"
  proof -
    from that t n
    have "filter (\<lambda>r. field nodes_columns r ''nodehandle'' \<noteq> SqlInt (sint h)) (rows tn)
        = rows tn"
      by (simp add: table_rows_def)
    then show ?thesis
      using delnode_step [OF t n] db_content_same [OF t n(1)] by simp
  qed
  have 2: "delpcr t h = (True, t)"
    if "\<forall>r \<in> set (table_rows t ''pcrs''). field pcrs_columns r ''id'' \<noteq> SqlInt (sint h)"
  proof -
    from that t p
    have "filter (\<lambda>r. field pcrs_columns r ''id'' \<noteq> SqlInt (sint h)) (rows tp) = rows tp"
      by (simp add: table_rows_def)
    then show ?thesis
      using delpcr_step [OF t p] db_content_same [OF t p(1)] by simp
  qed
  show ?thesis
    using 1 2 delnode_step [OF t n] delpcr_step [OF t p] by simp
qed

lemma field_init_row [simp]:
  "field init_columns [SqlInt n, SqlBlob c] ''id'' = SqlInt n"
  "field init_columns [SqlInt n, SqlBlob c] ''content'' = SqlBlob c"
  by (simp_all add: field_def init_columns_def)

lemma field_user_row [simp]:
  "field users_columns [SqlInt n, SqlBlob c] ''userhandle'' = SqlInt n"
  "field users_columns [SqlInt n, SqlBlob c] ''user'' = SqlBlob c"
  by (simp_all add: field_def users_columns_def)

lemma field_pcr_row [simp]:
  "field pcrs_columns [SqlInt n, SqlBlob c] ''id'' = SqlInt n"
  "field pcrs_columns [SqlInt n, SqlBlob c] ''pcr'' = SqlBlob c"
  by (simp_all add: field_def pcrs_columns_def)

theorem children_count_partition_witness:
  "ready (opened (store_content []
       [node_row 1 0 [] None 0 ''A'', node_row 2 1 ''f1'' None 0 ''B''] [] []) ''s.db'' ()) \<and>
   getnumchildrenquery (opened (store_content []
       [node_row 1 0 [] None 0 ''A'', node_row 2 1 ''f1'' None 0 ''B''] [] []) ''s.db'' ()) 1 9
     = (True, 1, opened (store_content []
       [node_row 1 0 [] None 0 ''A'', node_row 2 1 ''f1'' None 0 ''B''] [] []) ''s.db'' ()) \<and>
   getnumchildfilesquery (opened (store_content []
       [node_row 1 0 [] None 0 ''A'', node_row 2 1 ''f1'' None 0 ''B''] [] []) ''s.db'' ()) 1 9
     = (True, 1, opened (store_content []
       [node_row 1 0 [] None 0 ''A'', node_row 2 1 ''f1'' None 0 ''B''] [] []) ''s.db'' ()) \<and>
   getnumchildfoldersquery (opened (store_content []
       [node_row 1 0 [] None 0 ''A'', node_row 2 1 ''f1'' None 0 ''B''] [] []) ''s.db'' ()) 1 9
     = (True, 0, opened (store_content []
       [node_row 1 0 [] None 0 ''A'', node_row 2 1 ''f1'' None 0 ''B''] [] []) ''s.db'' ())"
  using children_count_partition
    [of "opened (store_content []
       [node_row 1 0 [] None 0 ''A'', node_row 2 1 ''f1'' None 0 ''B''] [] []) ''s.db'' ()" 1 9 9 9]
  by (simp add: ready_opened children_def)

theorem delete_absent_is_ok_witness:
  "ready (opened (store_content [] [node_row 1 0 [] None 0 ''A''] [] [[SqlInt 3, SqlBlob ''p'']])
            ''s.db'' ()) \<and>
   delnode (opened (store_content [] [node_row 1 0 [] None 0 ''A''] [] [[SqlInt 3, SqlBlob ''p'']])
            ''s.db'' ()) 5
     = (True, opened (store_content [] [node_row 1 0 [] None 0 ''A''] [] [[SqlInt 3, SqlBlob ''p'']])
            ''s.db'' ()) \<and>
   delpcr (opened (store_content [] [node_row 1 0 [] None 0 ''A''] [] [[SqlInt 3, SqlBlob ''p'']])
            ''s.db'' ()) 5
     = (True, opened (store_content [] [node_row 1 0 [] None 0 ''A''] [] [[SqlInt 3, SqlBlob ''p'']])
            ''s.db'' ())"
  using delete_absent_is_ok
    [of "opened (store_content [] [node_row 1 0 [] None 0 ''A''] [] [[SqlInt 3, SqlBlob ''p'']])
            ''s.db'' ()" 5]
  by (simp add: ready_opened)

subsection \<open>Scalar slots\<close>

lemma getrootnode_eval:
  assumes "ready t"
  shows "getrootnode t i data =
     (case slot t (sint i) of None \<Rightarrow> (False, data, t) | Some c \<Rightarrow> (True, c, t))"
proof -
  from assms obtain d tb where t: "db t = Some d" "content d ''init'' = Some tb"
    "columns tb = init_columns"
    using ready_init by blast
  then show ?thesis
    by (simp add: getrootnode_def sqlite3_prepare_def known_cols_def sqlite3_bind_int_def
      bind_value_def where_cols_def where_params_def step_select_first
      selected_Some sql_eq_True sqlite3_column_blob_def column_value_def db_update_same
      slot_def table_rows_def split: list.splits)
qed

lemma getscsn_eval:
  assumes "ready t"
  shows "getscsn t data =
     (case slot t 0 of None \<Rightarrow> (False, data, t) | Some c \<Rightarrow> (True, c, t))"
proof -
  from assms obtain d tb where t: "db t = Some d" "content d ''init'' = Some tb"
    "columns tb = init_columns"
    using ready_init by blast
  then show ?thesis
    by (simp add: getscsn_def sqlite3_prepare_def known_cols_def sqlite3_bind_int_def
      bind_value_def where_cols_def where_params_def step_select_first
      selected_Some sql_eq_True sqlite3_column_blob_def column_value_def db_update_same
      slot_def table_rows_def split: list.splits)
qed

lemma readhkey_eval:
  assumes "ready t"
  shows "readhkey x t =
     (case slot t 4 of
        None \<Rightarrow> (False, t)
      | Some c4 \<Rightarrow>
          (case slot t 5 of
             None \<Rightarrow> (False, t\<lparr>hkey := Some (Base64_atob x c4 (length c4))\<rparr>)
           | Some c5 \<Rightarrow> (True, t\<lparr>hkey := Some (Base64_atob x c4 (length c4)),
                                   phkey := Some (Base64_atob x c5 (length c5))\<rparr>)))"
proof -
  from assms obtain d tb where t: "db t = Some d" "content d ''init'' = Some tb"
    "columns tb = init_columns"
    using ready_init by blast
  then show ?thesis
    by (simp add: readhkey_def sqlite3_prepare_def known_cols_def sqlite3_bind_int_def
      bind_value_def where_cols_def where_params_def step_select_first
      selected_Some sql_eq_True sqlite3_column_blob_def column_value_def db_update_same
      slot_def table_rows_def Let_def split: list.splits)
qed

lemma putrootnode_step:
  assumes "db t = Some d" "content d ''init'' = Some tb" "columns tb = init_columns"
  shows "putrootnode t i data =
     (True, t\<lparr>db := Some (d\<lparr>content := (content d)(''init'' \<mapsto>
         tb\<lparr>rows := insort_key (rowid init_columns) [SqlInt (sint i), SqlBlob data]
              (filter (\<lambda>x. field init_columns x ''id'' \<noteq> SqlInt (sint i)) (rows tb))\<rparr>)\<rparr>)\<rparr>)"
  using assms
  by (simp add: putrootnode_def sqlite3_prepare_def known_cols_def sqlite3_bind_int_def
      sqlite3_bind_blob_def bind_value_def
      sqlite3_step_def new_row_def violates_notnull_def pk_of_def field_def
      init_columns_def split: option.splits)

lemma putrootnode_eval:
  assumes "ready t"
  shows "\<exists>t1. putrootnode t i data = (True, t1) \<and> ready t1 \<and>
     (\<forall>j. slot t1 j = (if j = sint i then Some data else slot t j)) \<and>
     table_rows t1 ''nodes'' = table_rows t ''nodes'' \<and>
     table_rows t1 ''users'' = table_rows t ''users'' \<and>
     table_rows t1 ''pcrs'' = table_rows t ''pcrs''"
proof -
  from assms obtain d tb where t: "db t = Some d" "content d ''init'' = Some tb"
    "columns tb = init_columns"
    using ready_init by blast
  from assms t have sch: "has_schema d" by (simp add: ready_def)
  let ?P = "\<lambda>j r. field init_columns r ''id'' = SqlInt j"
  let ?rs = "insort_key (rowid init_columns) [SqlInt (sint i), SqlBlob data]
              (filter (\<lambda>x. \<not> ?P (sint i) x) (rows tb))"
  let ?tb = "tb\<lparr>rows := ?rs\<rparr>"
  let ?d = "d\<lparr>content := (content d)(''init'' \<mapsto> ?tb)\<rparr>"
  let ?t = "t\<lparr>db := Some ?d\<rparr>"
  have put: "putrootnode t i data = (True, ?t)"
    using putrootnode_step [OF t] by simp
  have same: "filter (?P (sint i)) ?rs = [[SqlInt (sint i), SqlBlob data]]"
    by (rule filter_insort_fresh) auto
  have other: "filter (?P j) ?rs = filter (?P j) (rows tb)" if "j \<noteq> sint i" for j
  proof -
    have "filter (?P j) ?rs = filter (?P j) (filter (\<lambda>x. \<not> ?P (sint i) x) (rows tb))"
      using that by (simp add: filter_insort_other)
    also have "\<dots> = filter (?P j) (rows tb)"
      using that by (auto intro: filter_cong)
    finally show ?thesis .
  qed
  have slots: "slot ?t j = (if j = sint i then Some data else slot t j)" for j
    using same other [of j] t by (simp add: slot_def table_rows_def)
  have rdy: "ready ?t"
    using has_schema_init_update [OF sch, of ?tb] t by (simp add: ready_def)
  have rest: "table_rows ?t ''nodes'' = table_rows t ''nodes''"
    "table_rows ?t ''users'' = table_rows t ''users''"
    "table_rows ?t ''pcrs'' = table_rows t ''pcrs''"
    using t by (simp_all add: table_rows_def)
  from put rdy slots rest show ?thesis by simp
qed

lemma putscsn_Some: "putscsn t (Some data) = putrootnode t 0 data"
  by (simp add: putscsn_def putrootnode_def)

subsection \<open>Reading leaves the buffer alone\<close>

lemma getscsn_frame: "\<not> fst (getscsn t data) \<Longrightarrow> fst (snd (getscsn t data)) = data"
  by (auto simp: getscsn_def split: option.splits prod.splits if_splits)

lemma getrootnode_frame:
  "\<not> fst (getrootnode t i data) \<Longrightarrow> fst (snd (getrootnode t i data)) = data"
  by (auto simp: getrootnode_def split: option.splits prod.splits if_splits)

lemma getnodebyhandle_frame:
  "\<not> fst (getnodebyhandle t h data) \<Longrightarrow> fst (snd (getnodebyhandle t h data)) = data"
  by (auto simp: getnodebyhandle_def split: option.splits prod.splits if_splits)

lemma getnodebyfingerprint_frame:
  "\<not> fst (getnodebyfingerprint t fp data) \<Longrightarrow> fst (snd (getnodebyfingerprint t fp data)) = data"
  by (auto simp: getnodebyfingerprint_def split: option.splits prod.splits if_splits)

text \<open>
  Claim C9. For each of the four read accessors that hand a payload back through the
  caller's buffer (\<open>getscsn\<close>, \<open>getrootnode\<close>, \<open>getnodebyhandle\<close>,
  \<open>getnodebyfingerprint\<close>), on any table object whatever: when the accessor returns
  \<open>false\<close>, the buffer holds what it held before. On a table open on the schema of
  \<open>open\<close> the result is \<open>false\<close>, with the buffer and the table unchanged, exactly when no
  row is found, and otherwise the buffer is the payload of the first row found.
\<close>

theorem read_accessors_leave_buffer:
  "(\<not> fst (getscsn t data) \<longrightarrow> fst (snd (getscsn t data)) = data) \<and>
   (\<not> fst (getrootnode t i data) \<longrightarrow> fst (snd (getrootnode t i data)) = data) \<and>
   (\<not> fst (getnodebyhandle t h data) \<longrightarrow> fst (snd (getnodebyhandle t h data)) = data) \<and>
   (\<not> fst (getnodebyfingerprint t fp data) \<longrightarrow>
      fst (snd (getnodebyfingerprint t fp data)) = data) \<and>
   (ready t \<longrightarrow>
      getscsn t data =
        (case slot t 0 of None \<Rightarrow> (False, data, t) | Some c \<Rightarrow> (True, c, t)) \<and>
      getrootnode t i data =
        (case slot t (sint i) of None \<Rightarrow> (False, data, t) | Some c \<Rightarrow> (True, c, t)) \<and>
      getnodebyhandle t h data =
        (case filter (\<lambda>r. field nodes_columns r ''nodehandle'' = SqlInt (sint h))
                (table_rows t ''nodes'') of
           [] \<Rightarrow> (False, data, t)
         | r # rs \<Rightarrow> (True, sqlval_bytes (field nodes_columns r ''node''), t)) \<and>
      getnodebyfingerprint t fp data =
        (case filter (\<lambda>r. field nodes_columns r ''fingerprint'' = SqlBlob fp)
                (table_rows t ''nodes'') of
           [] \<Rightarrow> (False, data, t)
         | r # rs \<Rightarrow> (True, sqlval_bytes (field nodes_columns r ''node''), t)))"
proof -
  have "getnodebyhandle t h data =
        (case filter (\<lambda>r. field nodes_columns r ''nodehandle'' = SqlInt (sint h))
                (table_rows t ''nodes'') of
           [] \<Rightarrow> (False, data, t)
         | r # rs \<Rightarrow> (True, sqlval_bytes (field nodes_columns r ''node''), t))"
    "getnodebyfingerprint t fp data =
        (case filter (\<lambda>r. field nodes_columns r ''fingerprint'' = SqlBlob fp)
                (table_rows t ''nodes'') of
           [] \<Rightarrow> (False, data, t)
         | r # rs \<Rightarrow> (True, sqlval_bytes (field nodes_columns r ''node''), t))"
    if "ready t"
  proof -
    from that obtain d tb where t: "db t = Some d" "content d ''nodes'' = Some tb"
      "columns tb = nodes_columns"
      using ready_nodes by blast
    then have r: "table_rows t ''nodes'' = rows tb" by (simp add: table_rows_def)
    show "getnodebyhandle t h data =
        (case filter (\<lambda>r. field nodes_columns r ''nodehandle'' = SqlInt (sint h))
                (table_rows t ''nodes'') of
           [] \<Rightarrow> (False, data, t)
         | r # rs \<Rightarrow> (True, sqlval_bytes (field nodes_columns r ''node''), t))"
      by (simp only: r getnodebyhandle_eval [OF t])
    show "getnodebyfingerprint t fp data =
        (case filter (\<lambda>r. field nodes_columns r ''fingerprint'' = SqlBlob fp)
                (table_rows t ''nodes'') of
           [] \<Rightarrow> (False, data, t)
         | r # rs \<Rightarrow> (True, sqlval_bytes (field nodes_columns r ''node''), t))"
      by (simp only: r getnodebyfingerprint_eval [OF t])
  qed
  then show ?thesis
    using getscsn_frame [of t data] getrootnode_frame [of t i data]
      getnodebyhandle_frame [of t h data] getnodebyfingerprint_frame [of t fp data]
      getscsn_eval [of t data] getrootnode_eval [of t i data]
    by blast
qed

theorem read_accessors_leave_buffer_witness:
  "ready (opened (store_content [] [node_row 1 0 ''f1'' None 0 ''A''] [] []) ''s.db'' ()) \<and>
   getscsn (opened (store_content [] [node_row 1 0 ''f1'' None 0 ''A''] [] []) ''s.db'' ()) ''old''
     = (False, ''old'', opened (store_content [] [node_row 1 0 ''f1'' None 0 ''A''] [] []) ''s.db'' ()) \<and>
   getrootnode (opened (store_content [] [node_row 1 0 ''f1'' None 0 ''A''] [] []) ''s.db'' ()) 2 ''old''
     = (False, ''old'', opened (store_content [] [node_row 1 0 ''f1'' None 0 ''A''] [] []) ''s.db'' ()) \<and>
   getnodebyhandle (opened (store_content [] [node_row 1 0 ''f1'' None 0 ''A''] [] []) ''s.db'' ()) 9 ''old''
     = (False, ''old'', opened (store_content [] [node_row 1 0 ''f1'' None 0 ''A''] [] []) ''s.db'' ()) \<and>
   getnodebyfingerprint (opened (store_content [] [node_row 1 0 ''f1'' None 0 ''A''] [] []) ''s.db'' ()) ''f2'' ''old''
     = (False, ''old'', opened (store_content [] [node_row 1 0 ''f1'' None 0 ''A''] [] []) ''s.db'' ()) \<and>
   getnodebyfingerprint (opened (store_content [] [node_row 1 0 ''f1'' None 0 ''A''] [] []) ''s.db'' ()) ''f1'' ''old''
     = (True, ''A'', opened (store_content [] [node_row 1 0 ''f1'' None 0 ''A''] [] []) ''s.db'' ())"
  using read_accessors_leave_buffer
    [of "opened (store_content [] [node_row 1 0 ''f1'' None 0 ''A''] [] []) ''s.db'' ()"
        "''old''" 2 9 "''f2''"]
    read_accessors_leave_buffer
    [of "opened (store_content [] [node_row 1 0 ''f1'' None 0 ''A''] [] []) ''s.db'' ()"
        "''old''" 2 9 "''f1''"]
  by (simp add: ready_opened slot_def)

subsection \<open>Root node slots are not restricted\<close>

text \<open>
  Claim C8. On a table open on the schema of \<open>open\<close>, for every C \<open>int\<close> \<open>i\<close> and payload
  \<open>data\<close>, \<open>putrootnode\<close> succeeds and makes \<open>data\<close> the content of scalar slot \<open>i\<close>,
  leaving every other slot as it was; nothing restricts \<open>i\<close> to 1..3. So with \<open>i = 0\<close>
  \<open>getscsn\<close> then returns \<open>data\<close>; with \<open>i = 4\<close> (and slot 5 present) \<open>readhkey\<close> succeeds
  and \<open>hkey\<close> is the decoding of \<open>data\<close>; with \<open>i = 5\<close> (and slot 4 present) \<open>phkey\<close> is the
  decoding of \<open>data\<close>. \<open>getrootnode\<close> likewise reads slot \<open>i\<close> for any \<open>i\<close>, and
  \<open>getrootnode\<close> of 0 is \<open>getscsn\<close>.
\<close>

theorem putrootnode_unrestricted:
  assumes "ready t"
  shows "\<exists>t1. putrootnode t i data = (True, t1) \<and>
     getrootnode t1 i buf = (True, data, t1) \<and>
     (\<forall>j. slot t1 j = (if j = sint i then Some data else slot t j)) \<and>
     (i = 0 \<longrightarrow> getscsn t1 buf = (True, data, t1)) \<and>
     (i = 4 \<longrightarrow> (\<forall>c5. slot t 5 = Some c5 \<longrightarrow>
        readhkey x t1 = (True, t1\<lparr>hkey := Some (Base64_atob x data (length data)),
                                   phkey := Some (Base64_atob x c5 (length c5))\<rparr>))) \<and>
     (i = 5 \<longrightarrow> (\<forall>c4. slot t 4 = Some c4 \<longrightarrow>
        readhkey x t1 = (True, t1\<lparr>hkey := Some (Base64_atob x c4 (length c4)),
                                   phkey := Some (Base64_atob x data (length data))\<rparr>))) \<and>
     getrootnode t i buf =
       (case slot t (sint i) of None \<Rightarrow> (False, buf, t) | Some c \<Rightarrow> (True, c, t)) \<and>
     getrootnode t 0 buf = getscsn t buf"
proof -
  from putrootnode_eval [OF assms, of i data]
  obtain t1 where put: "putrootnode t i data = (True, t1)" and rdy: "ready t1"
    and slots: "\<And>j. slot t1 j = (if j = sint i then Some data else slot t j)"
    by blast
  have get: "getrootnode t1 i buf = (True, data, t1)"
    by (simp add: getrootnode_eval [OF rdy] slots)
  have scsn: "getscsn t1 buf = (True, data, t1)" if "i = 0"
    using that by (simp add: getscsn_eval [OF rdy] slots)
  have k4: "readhkey x t1 = (True, t1\<lparr>hkey := Some (Base64_atob x data (length data)),
                                   phkey := Some (Base64_atob x c5 (length c5))\<rparr>)"
    if "i = 4" "slot t 5 = Some c5" for c5
    using that by (simp add: readhkey_eval [OF rdy] slots)
  have k5: "readhkey x t1 = (True, t1\<lparr>hkey := Some (Base64_atob x c4 (length c4)),
                                   phkey := Some (Base64_atob x data (length data))\<rparr>)"
    if "i = 5" "slot t 4 = Some c4" for c4
    using that by (simp add: readhkey_eval [OF rdy] slots)
  have same: "getrootnode t 0 buf = getscsn t buf"
    by (simp add: getrootnode_eval [OF assms] getscsn_eval [OF assms])
  show ?thesis
    using put get slots scsn k4 k5 same getrootnode_eval [OF assms, of i buf] by auto
qed

theorem putrootnode_unrestricted_witness:
  "ready (opened (fresh_content ''k1'' ''k2'') ''s.db'' ''K'') \<and>
   slot (opened (fresh_content ''k1'' ''k2'') ''s.db'' ''K'') 4 = Some ''k1'' \<and>
   slot (opened (fresh_content ''k1'' ''k2'') ''s.db'' ''K'') 5 = Some ''k2'' \<and>
   getrootnode (opened (fresh_content ''k1'' ''k2'') ''s.db'' ''K'') 4 ''buf''
     = (True, ''k1'', opened (fresh_content ''k1'' ''k2'') ''s.db'' ''K'') \<and>
   (\<exists>t1. putrootnode (opened (fresh_content ''k1'' ''k2'') ''s.db'' ''K'') 4 ''evil'' = (True, t1) \<and>
     getrootnode t1 4 ''buf'' = (True, ''evil'', t1) \<and>
     readhkey plain_ext t1 = (True, t1\<lparr>hkey := Some ''evil'', phkey := Some ''k2''\<rparr>))"
proof -
  let ?T = "opened (fresh_content ''k1'' ''k2'') ''s.db'' ''K''"
  have s: "slot ?T 4 = Some ''k1''" "slot ?T 5 = Some ''k2''"
    by (simp_all add: slot_def fresh_content_def)
  have r: "ready ?T"
    by (simp add: fresh_content_def ready_opened)
  from putrootnode_unrestricted [OF r, of 4 "''evil''" "''buf''" plain_ext] s
  show ?thesis
    using r by (auto simp: plain_ext_def)
qed

subsection \<open>After \<open>remove\<close>\<close>

lemma remove_db: "db (snd (remove fs t)) = None"
  by (simp add: remove_def Let_def split: option.splits)

lemma closed_reads:
  assumes "db t = None"
  shows "readhkey x t = (False, t)" "getscsn t data = (False, data, t)"
    "getrootnode t i data = (False, data, t)" "getnodebyhandle t h data = (False, data, t)"
    "getnodebyfingerprint t fp data = (False, data, t)"
    "getnumchildrenquery t h c = (False, c, t)" "getnumchildfilesquery t h c = (False, c, t)"
    "getnumchildfoldersquery t h c = (False, c, t)"
  using assms
  by (simp_all add: readhkey_def getscsn_def getrootnode_def getnodebyhandle_def
      getnodebyfingerprint_def getnumchildrenquery_def getnumchildfilesquery_def
      getnumchildfoldersquery_def)

lemma closed_cursor:
  assumes "db t = None"
  shows "rewinduser t = t" "rewindpcr t = t" "rewindhandleschildren t h = t"
    "rewindhandlesencryptednodes t = t" "rewindhandlesoutshares_of t h = t"
    "rewindhandlesoutshares t = t" "rewindhandlespendingshares_of t h = t"
    "rewindhandlespendingshares t = t"
    "next_data t data = (False, data, t)" "nexthandle t h = (False, h, t)"
  using assms
  by (simp_all add: rewinduser_def rewindpcr_def rewindhandleschildren_def
      rewindhandlesencryptednodes_def rewindhandlesoutshares_of_def rewindhandlesoutshares_def
      rewindhandlespendingshares_of_def rewindhandlespendingshares_def next_data_def
      nexthandle_def)

lemma closed_writes:
  assumes "db t = None"
  shows "putscsn t sn = (False, t)" "putrootnode t i data = (False, t)"
    "putnode t h ph fp attr shared node = (False, t)" "putuser t h data = (False, t)"
    "putpcr t h data = (False, t)" "delnode t h = (False, t)" "delpcr t h = (False, t)"
    "truncate t = t" "begin_txn t = t" "commit t = t" "abort t = t"
    "remove fs t = (fs, t)" "destroy fs t = fs"
  using assms
  by (simp_all add: putscsn_def putrootnode_def putnode_def putuser_def putpcr_def delnode_def
      delpcr_def truncate_def begin_txn_def commit_def abort_def remove_def destroy_def)

text \<open>
  Claim C7. After \<open>remove\<close>, the database handle of the table object is \<open>NULL\<close> and the file
  is gone. From then on every member function that returns \<open>bool\<close> (\<open>readhkey\<close>, the
  getters, the counting queries, \<open>next\<close>, \<open>nexthandle\<close>, the \<open>put\<dots>\<close> and \<open>del\<dots>\<close>
  functions) returns \<open>false\<close> and leaves its output argument and the table object as they
  were, and every member function that returns nothing (the eight \<open>rewind\<dots>\<close>,
  \<open>truncate\<close>, \<open>begin\<close>, \<open>commit\<close>, \<open>abort\<close>, a second \<open>remove\<close>, the destructor)
  changes neither the table object nor the file system.
\<close>

theorem after_remove:
  "(case remove fs t of (fs', t') \<Rightarrow>
     db t' = None \<and> fs' (dbfile t') = (if db t = None then fs (dbfile t) else None) \<and>
     readhkey x t' = (False, t') \<and>
     getscsn t' data = (False, data, t') \<and>
     getrootnode t' i data = (False, data, t') \<and>
     getnodebyhandle t' h data = (False, data, t') \<and>
     getnodebyfingerprint t' fp data = (False, data, t') \<and>
     getnumchildrenquery t' h c = (False, c, t') \<and>
     getnumchildfilesquery t' h c = (False, c, t') \<and>
     getnumchildfoldersquery t' h c = (False, c, t') \<and>
     rewinduser t' = t' \<and> rewindpcr t' = t' \<and> rewindhandleschildren t' h = t' \<and>
     rewindhandlesencryptednodes t' = t' \<and> rewindhandlesoutshares_of t' h = t' \<and>
     rewindhandlesoutshares t' = t' \<and> rewindhandlespendingshares_of t' h = t' \<and>
     rewindhandlespendingshares t' = t' \<and>
     next_data t' data = (False, data, t') \<and> nexthandle t' h = (False, h, t') \<and>
     putscsn t' sn = (False, t') \<and> putrootnode t' i data = (False, t') \<and>
     putnode t' h ph fp attr shared data = (False, t') \<and>
     putuser t' h data = (False, t') \<and> putpcr t' h data = (False, t') \<and>
     delnode t' h = (False, t') \<and> delpcr t' h = (False, t') \<and>
     truncate t' = t' \<and> begin_txn t' = t' \<and> commit t' = t' \<and> abort t' = t' \<and>
     remove fs' t' = (fs', t') \<and> destroy fs' t' = fs')"
proof -
  obtain fs' t' where r: "remove fs t = (fs', t')" by (cases "remove fs t")
  have d: "db t' = None" using remove_db [of fs t] r by simp
  have f: "fs' (dbfile t') = (if db t = None then fs (dbfile t) else None)"
    using r by (auto simp: remove_def abort_def Let_def split: option.splits)
  show ?thesis
    unfolding r using d f
    by (simp add: closed_reads [OF d] closed_cursor [OF d] closed_writes [OF d])
qed

subsection \<open>The cursor\<close>


lemma reset_then_set [simp]: "(reset_pStmt t)\<lparr>pStmt := p\<rparr> = t\<lparr>pStmt := p\<rparr>"
  by (simp add: reset_pStmt_def split: option.splits)

lemma ready_tables:
  assumes "ready t"
  obtains d ti tn tu tp where "db t = Some d"
    "content d ''init'' = Some ti" "columns ti = init_columns"
    "content d ''nodes'' = Some tn" "columns tn = nodes_columns"
    "content d ''users'' = Some tu" "columns tu = users_columns"
    "content d ''pcrs'' = Some tp" "columns tp = pcrs_columns"
  using assms
  by (auto simp: ready_def has_schema_def has_table_def split: option.splits)

lemma rewind_eval:
  assumes "ready t"
  shows "rewinduser t = t\<lparr>pStmt := Some (fresh_stmt (SelectCol ''user'' ''users'' None) Map.empty)\<rparr>"
    "rewindpcr t = t\<lparr>pStmt := Some (fresh_stmt (SelectCol ''pcr'' ''pcrs'' None) Map.empty)\<rparr>"
    "rewindhandleschildren t ph = t\<lparr>pStmt := Some (fresh_stmt
        (SelectCol ''nodehandle'' ''nodes'' (Some (Eq (Col ''parenthandle'') (Param 1))))
        [1 \<mapsto> SqlInt (sint ph)])\<rparr>"
    "rewindhandlesencryptednodes t = t\<lparr>pStmt := Some (fresh_stmt
        (SelectCol ''nodehandle'' ''nodes'' (Some (IsNotNull (Col ''attrstring'')))) Map.empty)\<rparr>"
    "rewindhandlesoutshares_of t ph =
       t\<lparr>pStmt := Some (fresh_stmt select_outshares_of [1 \<mapsto> SqlInt (sint ph)])\<rparr>"
    "rewindhandlesoutshares t = t\<lparr>pStmt := Some (fresh_stmt
        (SelectCol ''nodehandle'' ''nodes''
           (Some (Or (Eq (Col ''shared'') (Lit 1)) (Eq (Col ''shared'') (Lit 4))))) Map.empty)\<rparr>"
    "rewindhandlespendingshares_of t ph =
       t\<lparr>pStmt := Some (fresh_stmt select_pendingshares_of [1 \<mapsto> SqlInt (sint ph)])\<rparr>"
    "rewindhandlespendingshares t = t\<lparr>pStmt := Some (fresh_stmt
        (SelectCol ''nodehandle'' ''nodes''
           (Some (Or (Eq (Col ''shared'') (Lit 3)) (Eq (Col ''shared'') (Lit 4))))) Map.empty)\<rparr>"
proof -
  from assms obtain d ti tn tu tp where t: "db t = Some d"
    "content d ''init'' = Some ti" "columns ti = init_columns"
    "content d ''nodes'' = Some tn" "columns tn = nodes_columns"
    "content d ''users'' = Some tu" "columns tu = users_columns"
    "content d ''pcrs'' = Some tp" "columns tp = pcrs_columns"
    by (rule ready_tables)
  note defs = sqlite3_prepare_def known_cols_def where_cols_def where_params_def
    bind_pStmt_def sqlite3_bind_int64_def bind_value_def fresh_stmt_def Let_def
  show "rewinduser t = t\<lparr>pStmt := Some (fresh_stmt (SelectCol ''user'' ''users'' None) Map.empty)\<rparr>"
    using t by (simp add: rewinduser_def defs)
  show "rewindpcr t = t\<lparr>pStmt := Some (fresh_stmt (SelectCol ''pcr'' ''pcrs'' None) Map.empty)\<rparr>"
    using t by (simp add: rewindpcr_def defs)
  show "rewindhandleschildren t ph = t\<lparr>pStmt := Some (fresh_stmt
        (SelectCol ''nodehandle'' ''nodes'' (Some (Eq (Col ''parenthandle'') (Param 1))))
        [1 \<mapsto> SqlInt (sint ph)])\<rparr>"
    using t by (simp add: rewindhandleschildren_def defs)
  show "rewindhandlesencryptednodes t = t\<lparr>pStmt := Some (fresh_stmt
        (SelectCol ''nodehandle'' ''nodes'' (Some (IsNotNull (Col ''attrstring'')))) Map.empty)\<rparr>"
    using t by (simp add: rewindhandlesencryptednodes_def defs)
  show "rewindhandlesoutshares_of t ph =
       t\<lparr>pStmt := Some (fresh_stmt select_outshares_of [1 \<mapsto> SqlInt (sint ph)])\<rparr>"
    using t by (simp add: rewindhandlesoutshares_of_def defs)
  show "rewindhandlesoutshares t = t\<lparr>pStmt := Some (fresh_stmt
        (SelectCol ''nodehandle'' ''nodes''
           (Some (Or (Eq (Col ''shared'') (Lit 1)) (Eq (Col ''shared'') (Lit 4))))) Map.empty)\<rparr>"
    using t by (simp add: rewindhandlesoutshares_def defs)
  show "rewindhandlespendingshares_of t ph =
       t\<lparr>pStmt := Some (fresh_stmt select_pendingshares_of [1 \<mapsto> SqlInt (sint ph)])\<rparr>"
    using t by (simp add: rewindhandlespendingshares_of_def defs)
  show "rewindhandlespendingshares t = t\<lparr>pStmt := Some (fresh_stmt
        (SelectCol ''nodehandle'' ''nodes''
           (Some (Or (Eq (Col ''shared'') (Lit 3)) (Eq (Col ''shared'') (Lit 4))))) Map.empty)\<rparr>"
    using t by (simp add: rewindhandlespendingshares_def defs)
qed


lemma nexthandle_scan:
  assumes "db t = Some d" "pStmt t = Some s" "st_sql s = SelectCol c tn w"
    and "content d tn = Some tb"
  shows "nexthandle t h =
     (let start = scan_start (columns tb) (rows tb) (st_pos s) (st_key s);
          rest = drop start (rows tb)
      in case filter (selected (columns tb) (st_binds s) w) rest of
           [] \<Rightarrow> (False, h, t\<lparr>pStmt := None\<rparr>)
         | r # rs \<Rightarrow>
             (True, word_of_int (sqlval_int (field (columns tb) r c)),
              t\<lparr>pStmt := Some
                (s\<lparr>st_pos := Suc (start + length (takeWhile
                            (\<lambda>r. \<not> selected (columns tb) (st_binds s) w r) rest)),
                   st_key := Some (rowid (columns tb) r),
                   st_row := [field (columns tb) r c]\<rparr>)\<rparr>))"
  using assms
  by (simp add: nexthandle_def sqlite3_step_def step_scan_eval Let_def pStmt_db_update
      sqlite3_column_int64_def column_value_def split: list.splits)

lemma next_data_scan:
  assumes "db t = Some d" "pStmt t = Some s" "st_sql s = SelectCol c tn w"
    and "content d tn = Some tb"
  shows "next_data t data =
     (let start = scan_start (columns tb) (rows tb) (st_pos s) (st_key s);
          rest = drop start (rows tb)
      in case filter (selected (columns tb) (st_binds s) w) rest of
           [] \<Rightarrow> (False, data, t\<lparr>pStmt := None\<rparr>)
         | r # rs \<Rightarrow>
             (True, sqlval_bytes (field (columns tb) r c),
              t\<lparr>pStmt := Some
                (s\<lparr>st_pos := Suc (start + length (takeWhile
                            (\<lambda>r. \<not> selected (columns tb) (st_binds s) w r) rest)),
                   st_key := Some (rowid (columns tb) r),
                   st_row := [field (columns tb) r c]\<rparr>)\<rparr>))"
  using assms
  by (simp add: next_data_def sqlite3_step_def step_scan_eval Let_def pStmt_db_update
      sqlite3_column_blob_def column_value_def split: list.splits)

lemma no_cursor:
  assumes "pStmt t = None"
  shows "next_data t data = (False, data, t)" "nexthandle t h = (False, h, t)"
  using assms
  by (simp_all add: next_data_def nexthandle_def split: option.splits)

lemma prepare_query:
  "sqlite3_prepare d q = Some s \<Longrightarrow> st_sql s = q \<and> st_pos s = 0 \<and> st_key s = None"
  by (auto simp: sqlite3_prepare_def split: if_splits)

lemma cursor_ok_prepare: "is_scan q \<Longrightarrow> cursor_ok (t\<lparr>pStmt := sqlite3_prepare d q\<rparr>)"
  by (auto simp: cursor_ok_def sqlite3_prepare_def)

lemma cursor_ok_bind: "cursor_ok t \<Longrightarrow> cursor_ok (bind_pStmt t ph)"
  by (auto simp: cursor_ok_def bind_pStmt_def sqlite3_bind_int64_def bind_value_def
      split: option.splits)

lemma rewind_cursor_ok:
  "cursor_ok t \<Longrightarrow> cursor_ok (rewinduser t)"
  "cursor_ok t \<Longrightarrow> cursor_ok (rewindpcr t)"
  "cursor_ok t \<Longrightarrow> cursor_ok (rewindhandleschildren t ph)"
  "cursor_ok t \<Longrightarrow> cursor_ok (rewindhandlesencryptednodes t)"
  "cursor_ok t \<Longrightarrow> cursor_ok (rewindhandlesoutshares_of t ph)"
  "cursor_ok t \<Longrightarrow> cursor_ok (rewindhandlesoutshares t)"
  "cursor_ok t \<Longrightarrow> cursor_ok (rewindhandlespendingshares_of t ph)"
  "cursor_ok t \<Longrightarrow> cursor_ok (rewindhandlespendingshares t)"
  by (simp_all add: rewinduser_def rewindpcr_def rewindhandleschildren_def
      rewindhandlesencryptednodes_def rewindhandlesoutshares_of_def rewindhandlesoutshares_def
      rewindhandlespendingshares_of_def rewindhandlespendingshares_def Let_def
      cursor_ok_prepare cursor_ok_bind split: option.splits)

lemma cursor_ok_opened: "cursor_ok (opened c path k)"
  by (simp add: cursor_ok_def opened_def)

lemma step_scan_sql:
  assumes "is_scan (st_sql s)" "sqlite3_step d s = (r, s', d')"
  shows "st_sql s' = st_sql s \<and> st_binds s' = st_binds s \<and> d' = d"
proof (cases "st_sql s")
  case (SelectCol c tn w)
  then show ?thesis
    using assms(2)
    by (auto simp: sqlite3_step_def step_scan_def Let_def split: option.splits if_splits)
qed (use assms(1) in simp_all)

lemma step_scan_is_scan:
  "is_scan (st_sql s) \<Longrightarrow> sqlite3_step d s = (r, s', d') \<Longrightarrow> is_scan (st_sql s')"
  using step_scan_sql [of s d r s' d'] by simp

lemma advance_cursor_ok:
  "cursor_ok t \<Longrightarrow> cursor_ok (snd (snd (next_data t data)))"
  "cursor_ok t \<Longrightarrow> cursor_ok (snd (snd (nexthandle t h)))"
  by (auto simp: cursor_ok_def next_data_def nexthandle_def
      split: option.splits prod.splits intro: step_scan_is_scan)

text \<open>In a B-tree the two ways a scan finds its position agree: behind the entry the cursor
  stands on, and behind the leading entries whose rowid is not greater, lie exactly the
  entries with a greater rowid.\<close>

lemma sorted_dropWhile_filter:
  fixes f :: "'a \<Rightarrow> int"
  shows "sorted_wrt (\<lambda>a b. f a < f b) xs \<Longrightarrow>
    dropWhile (\<lambda>x. f x \<le> k) xs = filter (\<lambda>x. k < f x) xs"
proof (induction xs)
  case Nil
  then show ?case by simp
next
  case (Cons x xs)
  show ?case
  proof (cases "f x \<le> k")
    case True
    then show ?thesis using Cons by simp
  next
    case False
    then have "\<forall>y\<in>set xs. k < f y"
      using Cons.prems by auto
    then have "filter (\<lambda>x. k < f x) xs = xs"
      by (simp add: filter_id_conv)
    then show ?thesis using False by simp
  qed
qed

lemma sorted_drop_filter:
  fixes f :: "'a \<Rightarrow> int"
  assumes "sorted_wrt (\<lambda>a b. f a < f b) xs" "0 < p" "p \<le> length xs"
    and "f (xs ! (p - 1)) = k"
  shows "drop p xs = filter (\<lambda>x. k < f x) xs"
proof -
  have a: "\<not> k < f x" if "x \<in> set (take p xs)" for x
  proof -
    from that obtain i where i: "i < p" "i < length xs" "x = xs ! i"
      by (auto simp: in_set_conv_nth)
    show ?thesis
    proof (cases "i = p - 1")
      case True
      then show ?thesis using i assms(4) by simp
    next
      case False
      then have "i < p - 1" "p - 1 < length xs"
        using i assms(2,3) by auto
      then have "f (xs ! i) < f (xs ! (p - 1))"
        using sorted_wrt_nth_less [OF assms(1)] by blast
      then show ?thesis using i assms(4) by simp
    qed
  qed
  have b: "k < f x" if "x \<in> set (drop p xs)" for x
  proof -
    from that obtain j where "j < length xs - p" "x = xs ! (p + j)"
      by (auto simp: in_set_conv_nth)
    then have j: "p + j < length xs" "x = xs ! (p + j)"
      by simp_all
    have "p - 1 < p + j"
      using assms(2) by simp
    then have "f (xs ! (p - 1)) < f (xs ! (p + j))"
      using sorted_wrt_nth_less [OF assms(1)] j(1) by blast
    then show ?thesis using j assms(4) by simp
  qed
  have "filter (\<lambda>x. k < f x) xs =
      filter (\<lambda>x. k < f x) (take p xs) @ filter (\<lambda>x. k < f x) (drop p xs)"
    by (metis append_take_drop_id filter_append)
  also have "filter (\<lambda>x. k < f x) (take p xs) = []"
    using a by (simp add: filter_empty_conv)
  also have "filter (\<lambda>x. k < f x) (drop p xs) = drop p xs"
    using b by (simp add: filter_id_conv)
  finally show ?thesis by simp
qed

lemma scan_rest:
  assumes "btree_ok tb"
  shows "drop (scan_start (columns tb) (rows tb) p k) (rows tb) =
     filter (\<lambda>r. beyond k (rowid (columns tb) r)) (rows tb)"
proof (cases k)
  case None
  then show ?thesis by (simp add: scan_start_def beyond_def)
next
  case (Some key)
  show ?thesis
  proof (cases "0 < p \<and> p \<le> length (rows tb) \<and> rowid (columns tb) (rows tb ! (p - 1)) = key")
    case True
    then have "drop p (rows tb) = filter (\<lambda>r. key < rowid (columns tb) r) (rows tb)"
      using assms by (intro sorted_drop_filter) (simp_all add: btree_ok_def)
    then show ?thesis
      using True Some by (simp add: scan_start_def beyond_def)
  next
    case False
    have "dropWhile (\<lambda>r. rowid (columns tb) r \<le> key) (rows tb) =
        filter (\<lambda>r. key < rowid (columns tb) r) (rows tb)"
      using assms by (intro sorted_dropWhile_filter) (simp add: btree_ok_def)
    moreover have "scan_start (columns tb) (rows tb) p k =
        length (takeWhile (\<lambda>r. rowid (columns tb) r \<le> key) (rows tb))"
      using False Some by (auto simp: scan_start_def)
    ultimately show ?thesis
      using Some by (simp add: beyond_def dropWhile_eq_drop)
  qed
qed

text \<open>
  Claim C6. On a table whose connection is open: with no active cursor, \<open>next\<close> and
  \<open>nexthandle\<close> return \<open>false\<close> and change nothing. With an active cursor, the scan of a
  table held in B-tree order, they look at the rows the table has at the time of the call
  that the selector of the cursor accepts and that lie behind the row the cursor stands on
  (rows with a greater rowid; all rows before the first call). When there is such a row they
  return \<open>true\<close> with the selected column of the first one, and the cursor, its selector and
  parameters unchanged, stands on that row. When there is none they return \<open>false\<close>, leave
  the output argument alone and set \<open>pStmt\<close> to \<open>NULL\<close>; a further call then returns
  \<open>false\<close> again and changes nothing.
\<close>

theorem cursor_advance:
  assumes "db t = Some d"
  shows
   "(pStmt t = None \<longrightarrow>
       next_data t data = (False, data, t) \<and> nexthandle t h = (False, h, t)) \<and>
    (\<forall>s c tn w tb.
       pStmt t = Some s \<and> st_sql s = SelectCol c tn w \<and> content d tn = Some tb \<and> btree_ok tb
       \<longrightarrow>
       (case filter (\<lambda>r. beyond (st_key s) (rowid (columns tb) r) \<and>
                          selected (columns tb) (st_binds s) w r) (rows tb) of
          [] \<Rightarrow>
            next_data t data = (False, data, t\<lparr>pStmt := None\<rparr>) \<and>
            nexthandle t h = (False, h, t\<lparr>pStmt := None\<rparr>) \<and>
            next_data (t\<lparr>pStmt := None\<rparr>) data = (False, data, t\<lparr>pStmt := None\<rparr>) \<and>
            nexthandle (t\<lparr>pStmt := None\<rparr>) h = (False, h, t\<lparr>pStmt := None\<rparr>)
        | r # rs \<Rightarrow>
            (\<exists>s'. st_sql s' = st_sql s \<and> st_binds s' = st_binds s \<and>
                  st_key s' = Some (rowid (columns tb) r) \<and>
                  next_data t data =
                    (True, sqlval_bytes (field (columns tb) r c), t\<lparr>pStmt := Some s'\<rparr>) \<and>
                  nexthandle t h =
                    (True, word_of_int (sqlval_int (field (columns tb) r c)),
                     t\<lparr>pStmt := Some s'\<rparr>))))"
proof (intro conjI impI allI)
  assume "pStmt t = None"
  then show "next_data t data = (False, data, t)" "nexthandle t h = (False, h, t)"
    by (simp_all add: no_cursor)
next
  fix s c tn w tb
  assume a: "pStmt t = Some s \<and> st_sql s = SelectCol c tn w \<and> content d tn = Some tb \<and>
    btree_ok tb"
  let ?P = "selected (columns tb) (st_binds s) w"
  let ?start = "scan_start (columns tb) (rows tb) (st_pos s) (st_key s)"
  have rest: "filter ?P (drop ?start (rows tb)) =
      filter (\<lambda>r. beyond (st_key s) (rowid (columns tb) r) \<and> ?P r) (rows tb)"
    using a by (simp add: scan_rest)
  show "case filter (\<lambda>r. beyond (st_key s) (rowid (columns tb) r) \<and> ?P r) (rows tb) of
          [] \<Rightarrow>
            next_data t data = (False, data, t\<lparr>pStmt := None\<rparr>) \<and>
            nexthandle t h = (False, h, t\<lparr>pStmt := None\<rparr>) \<and>
            next_data (t\<lparr>pStmt := None\<rparr>) data = (False, data, t\<lparr>pStmt := None\<rparr>) \<and>
            nexthandle (t\<lparr>pStmt := None\<rparr>) h = (False, h, t\<lparr>pStmt := None\<rparr>)
        | r # rs \<Rightarrow>
            (\<exists>s'. st_sql s' = st_sql s \<and> st_binds s' = st_binds s \<and>
                  st_key s' = Some (rowid (columns tb) r) \<and>
                  next_data t data =
                    (True, sqlval_bytes (field (columns tb) r c), t\<lparr>pStmt := Some s'\<rparr>) \<and>
                  nexthandle t h =
                    (True, word_of_int (sqlval_int (field (columns tb) r c)),
                     t\<lparr>pStmt := Some s'\<rparr>))"
  proof (cases "filter (\<lambda>r. beyond (st_key s) (rowid (columns tb) r) \<and> ?P r) (rows tb)")
    case Nil
    then show ?thesis
      using a assms rest
      by (simp add: next_data_scan [where tb = tb] nexthandle_scan [where tb = tb] Let_def
          no_cursor)
  next
    case (Cons r rs)
    let ?s' = "s\<lparr>st_pos := Suc (?start + length (takeWhile (\<lambda>r. \<not> ?P r)
                                                (drop ?start (rows tb)))),
                 st_key := Some (rowid (columns tb) r),
                 st_row := [field (columns tb) r c]\<rparr>"
    have "next_data t data =
        (True, sqlval_bytes (field (columns tb) r c), t\<lparr>pStmt := Some ?s'\<rparr>)"
      using a assms rest Cons by (simp add: next_data_scan [where tb = tb] Let_def)
    moreover have "nexthandle t h =
        (True, word_of_int (sqlval_int (field (columns tb) r c)), t\<lparr>pStmt := Some ?s'\<rparr>)"
      using a assms rest Cons by (simp add: nexthandle_scan [where tb = tb] Let_def)
    ultimately have "st_sql ?s' = st_sql s \<and> st_binds ?s' = st_binds s \<and>
        st_key ?s' = Some (rowid (columns tb) r) \<and>
        next_data t data =
          (True, sqlval_bytes (field (columns tb) r c), t\<lparr>pStmt := Some ?s'\<rparr>) \<and>
        nexthandle t h =
          (True, word_of_int (sqlval_int (field (columns tb) r c)), t\<lparr>pStmt := Some ?s'\<rparr>)"
      by simp
    then show ?thesis
      unfolding Cons list.case by (rule exI)
  qed
qed

text \<open>With no write in between, a scan hands out the selected rows in table order: the
  cursor stays where the last step left it.\<close>

lemma drain_handles_scan:
  assumes "db t = Some d" "pStmt t = Some s" "st_sql s = SelectCol c tn w"
    and "content d tn = Some tb"
    and "(st_key s = None \<and> p = 0) \<or>
         (0 < p \<and> p \<le> length (rows tb) \<and> st_pos s = p \<and>
          st_key s = Some (rowid (columns tb) (rows tb ! (p - 1))))"
    and "length (rows tb) - p < n"
  shows "drain_handles n t =
     (map (\<lambda>r. word_of_int (sqlval_int (field (columns tb) r c)))
        (filter (selected (columns tb) (st_binds s) w) (drop p (rows tb))),
      t\<lparr>pStmt := None\<rparr>)"
  using assms
proof (induction n arbitrary: t s p)
  case 0
  then show ?case by simp
next
  case (Suc n)
  let ?P = "selected (columns tb) (st_binds s) w"
  let ?R = "rows tb"
  let ?j = "length (takeWhile (\<lambda>r. \<not> ?P r) (drop p ?R))"
  have start: "scan_start (columns tb) ?R (st_pos s) (st_key s) = p"
    using Suc.prems(5) by (auto simp: scan_start_def)
  show ?case
  proof (cases "?j < length (drop p ?R)")
    case False
    then have "filter ?P (drop p ?R) = []"
      using filter_first [of ?P "drop p ?R"] by (simp add: Let_def)
    then show ?thesis
      using Suc.prems(1-4) start
      by (simp add: nexthandle_scan [where tb = tb] Let_def)
  next
    case True
    let ?r = "?R ! (p + ?j)"
    let ?s = "s\<lparr>st_pos := Suc (p + ?j), st_key := Some (rowid (columns tb) ?r),
                 st_row := [field (columns tb) ?r c]\<rparr>"
    let ?t = "t\<lparr>pStmt := Some ?s\<rparr>"
    have lt: "p + ?j < length ?R"
      using True by simp
    have f: "filter ?P (drop p ?R) = ?r # filter ?P (drop (Suc (p + ?j)) ?R)"
      using filter_first [of ?P "drop p ?R"] True lt by (simp add: Let_def add.commute)
    have nh: "nexthandle t 0 = (True, word_of_int (sqlval_int (field (columns tb) ?r c)), ?t)"
      using Suc.prems(1-4) start f
      by (simp add: nexthandle_scan [where tb = tb] Let_def)
    have "drain_handles n ?t =
       (map (\<lambda>r. word_of_int (sqlval_int (field (columns tb) r c)))
          (filter (selected (columns tb) (st_binds ?s) w) (drop (Suc (p + ?j)) ?R)),
        ?t\<lparr>pStmt := None\<rparr>)"
    proof (rule Suc.IH)
      show "db ?t = Some d" using Suc.prems(1) by simp
      show "pStmt ?t = Some ?s" by simp
      show "st_sql ?s = SelectCol c tn w" using Suc.prems(3) by simp
      show "content d tn = Some tb" by (rule Suc.prems(4))
      show "(st_key ?s = None \<and> Suc (p + ?j) = 0) \<or>
         (0 < Suc (p + ?j) \<and> Suc (p + ?j) \<le> length ?R \<and> st_pos ?s = Suc (p + ?j) \<and>
          st_key ?s = Some (rowid (columns tb) (?R ! (Suc (p + ?j) - 1))))"
        using lt by simp
      show "length ?R - Suc (p + ?j) < n"
        using Suc.prems(6) lt by simp
    qed
    then show ?thesis
      using nh f by simp
  qed
qed

lemma drain_share_selector:
  assumes "ready t" "length (table_rows t ''nodes'') < n"
  shows "drain_handles n (t\<lparr>pStmt := Some (fresh_stmt
           (SelectCol ''nodehandle'' ''nodes''
              (Some (Or (And (Eq (Col ''parenthandle'') (Param 1)) (Eq (Col ''shared'') (Lit m)))
                        (Eq (Col ''shared'') (Lit 4)))))
           [1 \<mapsto> SqlInt (sint ph)])\<rparr>) =
     (map row_handle
        (filter (\<lambda>r. (field nodes_columns r ''parenthandle'' = SqlInt (sint ph) \<and>
                       field nodes_columns r ''shared'' = SqlInt m) \<or>
                      field nodes_columns r ''shared'' = SqlInt 4)
           (table_rows t ''nodes'')),
      t\<lparr>pStmt := None\<rparr>)"
proof -
  from assms(1) obtain d tb where t: "db t = Some d" "content d ''nodes'' = Some tb"
    "columns tb = nodes_columns"
    using ready_nodes by blast
  let ?w = "Some (Or (And (Eq (Col ''parenthandle'') (Param 1)) (Eq (Col ''shared'') (Lit m)))
                        (Eq (Col ''shared'') (Lit 4)))"
  let ?q = "SelectCol ''nodehandle'' ''nodes'' ?w"
  let ?s = "fresh_stmt ?q [1 \<mapsto> SqlInt (sint ph)]"
  let ?t = "t\<lparr>pStmt := Some ?s\<rparr>"
  have rows: "table_rows t ''nodes'' = rows tb"
    using t by (simp add: table_rows_def)
  have sel: "selected (columns tb) (st_binds ?s) ?w =
      (\<lambda>r. (field nodes_columns r ''parenthandle'' = SqlInt (sint ph) \<and>
                       field nodes_columns r ''shared'' = SqlInt m) \<or>
                      field nodes_columns r ''shared'' = SqlInt 4)"
    using t by (simp add: fresh_stmt_def selected_Some sql_or_True sql_and_True sql_eq_True)
  have "drain_handles n ?t =
     (map (\<lambda>r. word_of_int (sqlval_int (field (columns tb) r ''nodehandle'')))
        (filter (selected (columns tb) (st_binds ?s) ?w) (drop 0 (rows tb))),
      ?t\<lparr>pStmt := None\<rparr>)"
  proof (rule drain_handles_scan)
    show "db ?t = Some d" using t by simp
    show "pStmt ?t = Some ?s" by simp
    show "st_sql ?s = ?q" by (simp add: fresh_stmt_def)
    show "content d ''nodes'' = Some tb" by (rule t)
    show "(st_key ?s = None \<and> (0::nat) = 0) \<or>
         (0 < (0::nat) \<and> 0 \<le> length (rows tb) \<and> st_pos ?s = 0 \<and>
          st_key ?s = Some (rowid (columns tb) (rows tb ! (0 - 1))))"
      by (simp add: fresh_stmt_def)
    show "length (rows tb) - 0 < n"
      using assms(2) rows by simp
  qed
  then show ?thesis
    unfolding sel rows using t(3) by (simp add: row_handle_def)
qed

lemma row_handle_node_row [simp]: "row_handle (node_row h ph fp attr shared node) = h"
  by (simp add: row_handle_def)

text \<open>
  Claim C2. On a table open on the schema of \<open>open\<close>, for every parent handle \<open>ph\<close>: the
  caller's loop over \<open>nexthandle\<close> after \<open>rewindhandlesoutshares(ph)\<close>, given more calls
  than there are rows, sees exactly the handles of the rows of \<open>nodes\<close>, in table order,
  that are children of \<open>ph\<close> with share state 1 or have share state 4 whatever their
  parent; after \<open>rewindhandlespendingshares(ph)\<close> the same with share state 3 in place of
  1. In particular every node with share state 4 is enumerated by both, for every \<open>ph\<close>.
  Both loops end with no active cursor.
\<close>

theorem parent_scoped_share_selectors:
  assumes "ready t" "length (table_rows t ''nodes'') < n"
  shows
   "drain_handles n (rewindhandlesoutshares_of t ph) =
      (map row_handle
         (filter (\<lambda>r. (field nodes_columns r ''parenthandle'' = SqlInt (sint ph) \<and>
                        field nodes_columns r ''shared'' = SqlInt 1) \<or>
                       field nodes_columns r ''shared'' = SqlInt 4)
            (table_rows t ''nodes'')),
       t\<lparr>pStmt := None\<rparr>) \<and>
    drain_handles n (rewindhandlespendingshares_of t ph) =
      (map row_handle
         (filter (\<lambda>r. (field nodes_columns r ''parenthandle'' = SqlInt (sint ph) \<and>
                        field nodes_columns r ''shared'' = SqlInt 3) \<or>
                       field nodes_columns r ''shared'' = SqlInt 4)
            (table_rows t ''nodes'')),
       t\<lparr>pStmt := None\<rparr>) \<and>
    (\<forall>r \<in> set (table_rows t ''nodes'').
       field nodes_columns r ''shared'' = SqlInt 4 \<longrightarrow>
         row_handle r \<in> set (fst (drain_handles n (rewindhandlesoutshares_of t ph))) \<and>
         row_handle r \<in> set (fst (drain_handles n (rewindhandlespendingshares_of t ph))))"
proof -
  have out: "drain_handles n (rewindhandlesoutshares_of t ph) =
      (map row_handle
         (filter (\<lambda>r. (field nodes_columns r ''parenthandle'' = SqlInt (sint ph) \<and>
                        field nodes_columns r ''shared'' = SqlInt 1) \<or>
                       field nodes_columns r ''shared'' = SqlInt 4)
            (table_rows t ''nodes'')),
       t\<lparr>pStmt := None\<rparr>)"
    unfolding rewind_eval(5) [OF assms(1)]
    by (rule drain_share_selector [OF assms])
  have pend: "drain_handles n (rewindhandlespendingshares_of t ph) =
      (map row_handle
         (filter (\<lambda>r. (field nodes_columns r ''parenthandle'' = SqlInt (sint ph) \<and>
                        field nodes_columns r ''shared'' = SqlInt 3) \<or>
                       field nodes_columns r ''shared'' = SqlInt 4)
            (table_rows t ''nodes'')),
       t\<lparr>pStmt := None\<rparr>)"
    unfolding rewind_eval(7) [OF assms(1)]
    by (rule drain_share_selector [OF assms])
  show ?thesis
    unfolding out pend by auto
qed

theorem parent_scoped_share_selectors_witness:
  "ready (opened (store_content []
       [node_row 10 1 [] None 1 ''A'', node_row 11 2 [] None 4 ''B'',
        node_row 12 2 [] None 1 ''C'', node_row 13 1 [] None 3 ''D''] [] []) ''s.db'' ()) \<and>
   fst (drain_handles 5 (rewindhandlesoutshares_of (opened (store_content []
       [node_row 10 1 [] None 1 ''A'', node_row 11 2 [] None 4 ''B'',
        node_row 12 2 [] None 1 ''C'', node_row 13 1 [] None 3 ''D''] [] []) ''s.db'' ()) 1))
     = [10, 11] \<and>
   fst (drain_handles 5 (rewindhandlespendingshares_of (opened (store_content []
       [node_row 10 1 [] None 1 ''A'', node_row 11 2 [] None 4 ''B'',
        node_row 12 2 [] None 1 ''C'', node_row 13 1 [] None 3 ''D''] [] []) ''s.db'' ()) 1))
     = [11, 13]"
  using parent_scoped_share_selectors
    [of "opened (store_content []
       [node_row 10 1 [] None 1 ''A'', node_row 11 2 [] None 4 ''B'',
        node_row 12 2 [] None 1 ''C'', node_row 13 1 [] None 3 ''D''] [] []) ''s.db'' ()" 5 1]
  by (simp add: ready_opened)

lemma rowid_node_row [simp]:
  "rowid nodes_columns (node_row h ph fp attr shared node) = sint h"
  by (simp add: rowid_def pk_of_def nodes_columns_def field_def node_row_def)

theorem cursor_advance_witness:
  "btree_ok \<lparr>columns = nodes_columns,
      rows = [node_row 1 0 [] None 0 ''A'', node_row 2 0 [] None 0 ''B'',
              node_row 3 0 [] None 0 ''C'']\<rparr> \<and>
   (\<exists>t1 t2 t3 t4.
      nexthandle (rewindhandleschildren (opened (store_content [] 
         [node_row 1 0 [] None 0 ''A'', node_row 2 0 [] None 0 ''B'',
          node_row 3 0 [] None 0 ''C''] [] []) ''s.db'' ()) 0) 7 = (True, 1, t1) \<and>
      delnode t1 1 = (True, t2) \<and>
      table_rows t2 ''nodes'' = [node_row 2 0 [] None 0 ''B'', node_row 3 0 [] None 0 ''C''] \<and>
      nexthandle t2 7 = (True, 2, t3) \<and>
      nexthandle t3 7 = (True, 3, t4) \<and>
      nexthandle t4 7 = (False, 7, t4\<lparr>pStmt := None\<rparr>) \<and>
      nexthandle (t4\<lparr>pStmt := None\<rparr>) 7 = (False, 7, t4\<lparr>pStmt := None\<rparr>))"
proof -
  let ?n1 = "node_row 1 0 [] None 0 ''A''"
  let ?n2 = "node_row 2 0 [] None 0 ''B''"
  let ?n3 = "node_row 3 0 [] None 0 ''C''"
  let ?tb0 = "\<lparr>columns = nodes_columns, rows = [?n1, ?n2, ?n3]\<rparr>"
  let ?tb1 = "\<lparr>columns = nodes_columns, rows = [?n2, ?n3]\<rparr>"
  let ?c0 = "store_content [] [?n1, ?n2, ?n3] [] []"
  let ?c1 = "?c0(''nodes'' \<mapsto> ?tb1)"
  let ?d0 = "\<lparr>content = ?c0, txn = None\<rparr>"
  let ?d1 = "\<lparr>content = ?c1, txn = None\<rparr>"
  let ?T = "opened ?c0 ''s.db'' ()"
  let ?w = "Some (Eq (Col ''parenthandle'') (Param 1))"
  let ?q = "SelectCol ''nodehandle'' ''nodes'' ?w"
  let ?s0 = "fresh_stmt ?q [1 \<mapsto> SqlInt 0]"
  let ?t0 = "?T\<lparr>pStmt := Some ?s0\<rparr>"
  have bt0: "btree_ok ?tb0" and bt1: "btree_ok ?tb1"
    by (simp_all add: btree_ok_def)
  have rw: "rewindhandleschildren ?T 0 = ?t0"
    using rewind_eval(3) [OF ready_opened, of "[]" "[?n1, ?n2, ?n3]" "[]" "[]" "''s.db''" "()" 0]
    by simp
  have c0: "content ?d0 ''nodes'' = Some ?tb0" and c1: "content ?d1 ''nodes'' = Some ?tb1"
    by (simp_all add: store_content_def)
  have d0: "db ?t0 = Some ?d0"
    by (simp add: opened_def)
  have h0: "pStmt ?t0 = Some ?s0 \<and> st_sql ?s0 = ?q \<and> content ?d0 ''nodes'' = Some ?tb0 \<and>
      btree_ok ?tb0"
    using c0 bt0 by (simp add: fresh_stmt_def)
  have cand0: "filter (\<lambda>r. beyond (st_key ?s0) (rowid (columns ?tb0) r) \<and>
        selected (columns ?tb0) (st_binds ?s0) ?w r) (rows ?tb0) = [?n1, ?n2, ?n3]"
    by (simp add: fresh_stmt_def beyond_def selected_Some sql_eq_True)
  from cursor_advance [OF d0, of "''buf''" 7, THEN conjunct2, rule_format, OF h0]
  obtain s1 where s1: "st_sql s1 = ?q" "st_binds s1 = [1 \<mapsto> SqlInt 0]"
      "st_key s1 = Some 1" "nexthandle ?t0 7 = (True, 1, ?T\<lparr>pStmt := Some s1\<rparr>)"
    unfolding cand0 list.case by (auto simp: fresh_stmt_def)
  let ?t1 = "?T\<lparr>pStmt := Some s1\<rparr>"
  let ?t2 = "?t1\<lparr>db := Some ?d1\<rparr>"
  have del: "delnode ?t1 1 = (True, ?t2)"
    using delnode_step [of ?t1 ?d0 ?tb0 1] c0
    by (simp add: opened_def)
  have rows2: "table_rows ?t2 ''nodes'' = [?n2, ?n3]"
    by (simp add: table_rows_def)
  have d2: "db ?t2 = Some ?d1"
    by simp
  have h2: "pStmt ?t2 = Some s1 \<and> st_sql s1 = ?q \<and> content ?d1 ''nodes'' = Some ?tb1 \<and>
      btree_ok ?tb1"
    using c1 bt1 s1(1) by simp
  have cand2: "filter (\<lambda>r. beyond (st_key s1) (rowid (columns ?tb1) r) \<and>
        selected (columns ?tb1) (st_binds s1) ?w r) (rows ?tb1) = [?n2, ?n3]"
    using s1(2,3) by (simp add: beyond_def selected_Some sql_eq_True)
  from cursor_advance [OF d2, of "''buf''" 7, THEN conjunct2, rule_format, OF h2]
  obtain s2 where s2: "st_sql s2 = ?q" "st_binds s2 = [1 \<mapsto> SqlInt 0]"
      "st_key s2 = Some 2" "nexthandle ?t2 7 = (True, 2, ?t2\<lparr>pStmt := Some s2\<rparr>)"
    unfolding cand2 list.case using s1(1,2) by auto
  let ?t3 = "?t2\<lparr>pStmt := Some s2\<rparr>"
  have d3: "db ?t3 = Some ?d1"
    by simp
  have h3: "pStmt ?t3 = Some s2 \<and> st_sql s2 = ?q \<and> content ?d1 ''nodes'' = Some ?tb1 \<and>
      btree_ok ?tb1"
    using c1 bt1 s2(1) by simp
  have cand3: "filter (\<lambda>r. beyond (st_key s2) (rowid (columns ?tb1) r) \<and>
        selected (columns ?tb1) (st_binds s2) ?w r) (rows ?tb1) = [?n3]"
    using s2(2,3) by (simp add: beyond_def selected_Some sql_eq_True)
  from cursor_advance [OF d3, of "''buf''" 7, THEN conjunct2, rule_format, OF h3]
  obtain s3 where s3: "st_sql s3 = ?q" "st_binds s3 = [1 \<mapsto> SqlInt 0]"
      "st_key s3 = Some 3" "nexthandle ?t3 7 = (True, 3, ?t3\<lparr>pStmt := Some s3\<rparr>)"
    unfolding cand3 list.case using s2(1,2) by auto
  let ?t4 = "?t3\<lparr>pStmt := Some s3\<rparr>"
  have d4: "db ?t4 = Some ?d1"
    by simp
  have h4: "pStmt ?t4 = Some s3 \<and> st_sql s3 = ?q \<and> content ?d1 ''nodes'' = Some ?tb1 \<and>
      btree_ok ?tb1"
    using c1 bt1 s3(1) by simp
  have cand4: "filter (\<lambda>r. beyond (st_key s3) (rowid (columns ?tb1) r) \<and>
        selected (columns ?tb1) (st_binds s3) ?w r) (rows ?tb1) = []"
    using s3(2,3) by (simp add: beyond_def selected_Some sql_eq_True)
  from cursor_advance [OF d4, of "''buf''" 7, THEN conjunct2, rule_format, OF h4]
  have e: "nexthandle ?t4 7 = (False, 7, ?t4\<lparr>pStmt := None\<rparr>) \<and>
      nexthandle (?t4\<lparr>pStmt := None\<rparr>) 7 = (False, 7, ?t4\<lparr>pStmt := None\<rparr>)"
    unfolding cand4 list.case by simp
  have "nexthandle (rewindhandleschildren ?T 0) 7 = (True, 1, ?t1) \<and>
      delnode ?t1 1 = (True, ?t2) \<and>
      table_rows ?t2 ''nodes'' = [?n2, ?n3] \<and>
      nexthandle ?t2 7 = (True, 2, ?t3) \<and>
      nexthandle ?t3 7 = (True, 3, ?t4) \<and>
      nexthandle ?t4 7 = (False, 7, ?t4\<lparr>pStmt := None\<rparr>) \<and>
      nexthandle (?t4\<lparr>pStmt := None\<rparr>) 7 = (False, 7, ?t4\<lparr>pStmt := None\<rparr>)"
    unfolding rw using s1(4) del rows2 s2(4) s3(4) e by simp
  then show ?thesis
    using bt0 by blast
qed

theorem after_remove_witness:
  "(case remove [''s.db'' \<mapsto> DbFile (store_content [] [node_row 1 0 [] None 0 ''A''] [] [])]
          (opened (store_content [] [node_row 1 0 [] None 0 ''A''] [] []) ''s.db'' ''K'') of
      (fs', t') \<Rightarrow>
        db t' = None \<and> fs' ''s.db'' = None \<and>
        getnodebyhandle t' 1 ''buf'' = (False, ''buf'', t') \<and>
        getnumchildrenquery t' 0 7 = (False, 7, t') \<and>
        putnode t' 2 0 [] None 0 ''B'' = (False, t') \<and>
        nexthandle (rewindhandleschildren t' 0) 7 = (False, 7, t') \<and>
        readhkey plain_ext t' = (False, t'))"
proof -
  let ?c = "store_content [] [node_row 1 0 [] None 0 ''A''] [] []"
  let ?T = "opened ?c ''s.db'' ''K''"
  let ?fs = "[''s.db'' \<mapsto> DbFile ?c]"
  have rm: "remove ?fs ?T = (?fs(''s.db'' := None), ?T\<lparr>db := None\<rparr>)"
    using remove_eval [of ?T "\<lparr>content = ?c, txn = None\<rparr>" ?fs] by (simp add: opened_def)
  from after_remove [where fs = ?fs and t = ?T and x = plain_ext and data = "''buf''"
      and h = 1 and c = 7]
    after_remove [where fs = ?fs and t = ?T and x = plain_ext and data = "''buf''"
      and h = 0 and c = 7]
    after_remove [where fs = ?fs and t = ?T and x = plain_ext and data = "''B''"
      and h = 2 and ph = 0 and fp = "[]" and attr = None and shared = 0]
    after_remove [where fs = ?fs and t = ?T and x = plain_ext and data = "''buf''"
      and h = 7 and c = 7]
  show ?thesis
    unfolding rm by simp
qed

subsection \<open>\<open>truncate\<close>\<close>

lemma getnodebyhandle_rows:
  assumes "ready t"
  shows "getnodebyhandle t h data =
        (case filter (\<lambda>r. field nodes_columns r ''nodehandle'' = SqlInt (sint h))
                (table_rows t ''nodes'') of
           [] \<Rightarrow> (False, data, t)
         | r # rs \<Rightarrow> (True, sqlval_bytes (field nodes_columns r ''node''), t))"
proof -
  from assms obtain d tb where t: "db t = Some d" "content d ''nodes'' = Some tb"
    "columns tb = nodes_columns"
    using ready_nodes by blast
  then have r: "table_rows t ''nodes'' = rows tb" by (simp add: table_rows_def)
  show ?thesis by (simp only: r getnodebyhandle_eval [OF t])
qed

lemma getnumchildrenquery_rows:
  assumes "ready t"
  shows "getnumchildrenquery t ph c = (True, word_of_nat (length (children t ph)), t)"
proof -
  from assms obtain d tb where t: "db t = Some d" "content d ''nodes'' = Some tb"
    "columns tb = nodes_columns"
    using ready_nodes by blast
  then have r: "table_rows t ''nodes'' = rows tb" by (simp add: table_rows_def)
  show ?thesis by (simp add: children_def r getnumchildrenquery_eval [OF t])
qed

lemma truncate_rows:
  assumes "ready t"
  shows "ready (truncate t)"
    "table_rows (truncate t) ''init'' = table_rows t ''init''"
    "table_rows (truncate t) ''nodes'' = []"
    "table_rows (truncate t) ''users'' = []"
    "table_rows (truncate t) ''pcrs'' = []"
    "pStmt (truncate t) = pStmt t"
proof -
  from assms obtain d ti tn tu tp where t: "db t = Some d"
    "content d ''init'' = Some ti" "columns ti = init_columns"
    "content d ''nodes'' = Some tn" "columns tn = nodes_columns"
    "content d ''users'' = Some tu" "columns tu = users_columns"
    "content d ''pcrs'' = Some tp" "columns tp = pcrs_columns"
    by (rule ready_tables)
  note defs = truncate_def exec_delete_all table_rows_def ready_def has_schema_def
    has_table_def
  show "ready (truncate t)"
    using t by (cases "content d ''scsn''") (simp_all add: defs)
  show "table_rows (truncate t) ''init'' = table_rows t ''init''"
    using t by (cases "content d ''scsn''") (simp_all add: defs)
  show "table_rows (truncate t) ''nodes'' = []"
    using t by (cases "content d ''scsn''") (simp_all add: defs)
  show "table_rows (truncate t) ''users'' = []"
    using t by (cases "content d ''scsn''") (simp_all add: defs)
  show "table_rows (truncate t) ''pcrs'' = []"
    using t by (cases "content d ''scsn''") (simp_all add: defs)
  show "pStmt (truncate t) = pStmt t"
    using t by (simp add: truncate_def Let_def)
qed

lemma first_advance_empty:
  assumes "ready t"
  shows "table_rows t ''users'' = [] \<Longrightarrow>
           next_data (rewinduser t) data = (False, data, t\<lparr>pStmt := None\<rparr>)"
    "table_rows t ''pcrs'' = [] \<Longrightarrow>
           next_data (rewindpcr t) data = (False, data, t\<lparr>pStmt := None\<rparr>)"
proof -
  from assms obtain d ti tn tu tp where t: "db t = Some d"
    "content d ''init'' = Some ti" "columns ti = init_columns"
    "content d ''nodes'' = Some tn" "columns tn = nodes_columns"
    "content d ''users'' = Some tu" "columns tu = users_columns"
    "content d ''pcrs'' = Some tp" "columns tp = pcrs_columns"
    by (rule ready_tables)
  show "next_data (rewinduser t) data = (False, data, t\<lparr>pStmt := None\<rparr>)"
    if "table_rows t ''users'' = []"
    using that t unfolding rewind_eval(1) [OF assms]
    by (simp add: next_data_def fresh_stmt_def sqlite3_step_def step_scan_def scan_start_def
        table_rows_def pStmt_db_update)
  show "next_data (rewindpcr t) data = (False, data, t\<lparr>pStmt := None\<rparr>)"
    if "table_rows t ''pcrs'' = []"
    using that t unfolding rewind_eval(2) [OF assms]
    by (simp add: next_data_def fresh_stmt_def sqlite3_step_def step_scan_def scan_start_def
        table_rows_def pStmt_db_update)
qed

text \<open>
  Claim C3 says that after \<open>truncate\<close> every read finds nothing, the scalar slots
  included. What the code does, on a table open on the schema of \<open>open\<close>: \<open>truncate\<close>
  empties \<open>nodes\<close>, \<open>users\<close> and \<open>pcrs\<close>, so \<open>getnodebyhandle\<close> finds nothing,
  \<open>getnumchildrenquery\<close> counts 0 and the cursors over users and pending contacts are
  exhausted at the first \<open>next\<close>; but its first statement names a table \<open>scsn\<close>, while the
  scalar slots live in the table \<open>init\<close>, whose rows stay: every scalar slot reads as before,
  and \<open>getscsn\<close> succeeds after \<open>truncate\<close> exactly when it did before.
\<close>

theorem truncate_keeps_scalar_slots:
  assumes "ready t"
  shows "table_rows (truncate t) ''nodes'' = [] \<and>
     table_rows (truncate t) ''users'' = [] \<and>
     table_rows (truncate t) ''pcrs'' = [] \<and>
     getnodebyhandle (truncate t) h data = (False, data, truncate t) \<and>
     getnumchildrenquery (truncate t) ph c = (True, 0, truncate t) \<and>
     next_data (rewinduser (truncate t)) data = (False, data, (truncate t)\<lparr>pStmt := None\<rparr>) \<and>
     next_data (rewindpcr (truncate t)) data = (False, data, (truncate t)\<lparr>pStmt := None\<rparr>) \<and>
     table_rows (truncate t) ''init'' = table_rows t ''init'' \<and>
     slot (truncate t) i = slot t i \<and>
     getscsn (truncate t) data =
       (case slot t 0 of None \<Rightarrow> (False, data, truncate t) | Some sn \<Rightarrow> (True, sn, truncate t)) \<and>
     fst (getscsn (truncate t) data) = fst (getscsn t data)"
proof -
  note tr = truncate_rows [OF assms]
  have s: "slot (truncate t) j = slot t j" for j
    by (simp add: slot_def tr(2))
  have "getnodebyhandle (truncate t) h data = (False, data, truncate t)"
    by (simp add: getnodebyhandle_rows [OF tr(1)] tr(3))
  moreover have "getnumchildrenquery (truncate t) ph c = (True, 0, truncate t)"
    by (simp add: getnumchildrenquery_rows [OF tr(1)] children_def tr(3))
  moreover have "fst (getscsn (truncate t) data) = fst (getscsn t data)"
    by (simp add: getscsn_eval [OF tr(1)] getscsn_eval [OF assms] s split: option.splits)
  ultimately show ?thesis
    using tr(3-5) first_advance_empty [OF tr(1)] s
    by (simp add: getscsn_eval [OF tr(1)] tr(2))
qed

theorem truncate_keeps_scalar_slots_witness:
  "\<exists>t fs1 t1.
     SqliteDbAccess_open plain_ext ''/d/'' Map.empty ''AAAABBBBCC'' ''acct'' ''K''
       = (Some t, fs1, ''CC'') \<and>
     ready t \<and>
     putscsn t (Some ''sn'') = (True, t1) \<and>
     ready t1 \<and>
     getscsn t1 ''buf'' = (True, ''sn'', t1) \<and>
     getscsn (truncate t1) ''buf'' = (True, ''sn'', truncate t1) \<and>
     slot (truncate t1) 4 = Some ''AAAAK''"
proof -
  let ?t = "opened (fresh_content ''AAAAK'' ''BBBBK'') (db_path ''/d/'' ''acct'') ''K''"
  have g: "PrnGen_genblock plain_ext ''AAAABBBBCC'' (HANDLEKEYLENGTH plain_ext)
        = (''AAAA'', ''BBBBCC'')"
    "PrnGen_genblock plain_ext ''BBBBCC'' (HANDLEKEYLENGTH plain_ext) = (''BBBB'', ''CC'')"
    by (simp_all add: plain_ext_def)
  have c: "PaddedCBC_encrypt plain_ext ''K'' (Base64_btoa plain_ext ''AAAA'') = ''AAAAK''"
    "PaddedCBC_encrypt plain_ext ''K'' (Base64_btoa plain_ext ''BBBB'') = ''BBBBK''"
    by (simp_all add: plain_ext_def)
  have f: "Map.empty (db_path ''/d/'' ''acct'') = (None :: fsentry option)"
    by simp
  have o: "SqliteDbAccess_open plain_ext ''/d/'' Map.empty ''AAAABBBBCC'' ''acct'' ''K''
       = (Some ?t, [db_path ''/d/'' ''acct'' \<mapsto> DbFile (fresh_content ''AAAAK'' ''BBBBK'')], ''CC'')"
    using open_fresh [where fs = Map.empty and dbpath = "''/d/''" and name = "''acct''"
        and x = plain_ext and k = "''K''", OF f g]
    by (simp add: Let_def c)
  have r: "ready ?t"
    by (simp add: fresh_content_def ready_opened)
  have s4: "slot ?t 4 = Some ''AAAAK''"
    by (simp add: slot_def fresh_content_def)
  from putrootnode_eval [OF r, of 0 "''sn''"]
  obtain t1 where p: "putrootnode ?t 0 ''sn'' = (True, t1)" and r1: "ready t1"
    and s: "\<And>j. slot t1 j = (if j = sint (0 :: c_int) then Some ''sn'' else slot ?t j)"
    by blast
  have s0: "slot t1 0 = Some ''sn''" and s14: "slot t1 4 = Some ''AAAAK''"
    using s4 by (simp_all add: s)
  have g1: "getscsn t1 ''buf'' = (True, ''sn'', t1)"
    by (simp add: getscsn_eval [OF r1] s0)
  from truncate_keeps_scalar_slots [OF r1, of 0 "''buf''" 0 0 0]
    truncate_keeps_scalar_slots [OF r1, of 0 "''buf''" 0 0 4]
  have "getscsn (truncate t1) ''buf'' = (True, ''sn'', truncate t1)"
    "slot (truncate t1) 4 = Some ''AAAAK''"
    by (simp_all add: s0 s14)
  with o r p r1 g1 show ?thesis
    by (simp add: putscsn_Some)
qed

subsection \<open>Key provisioning\<close>

lemma slot_fresh [simp]:
  "slot (opened (fresh_content c1 c2) path k) 4 = Some c1"
  "slot (opened (fresh_content c1 c2) path k) 5 = Some c2"
  by (simp_all add: slot_def fresh_content_def)




subsection \<open>The schema is an invariant\<close>

lemma has_table_rows_update:
  "content d tn = Some tb \<Longrightarrow>
   has_table (d\<lparr>content := (content d)(tn \<mapsto> tb\<lparr>rows := rs\<rparr>)\<rparr>) n cols = has_table d n cols"
  by (cases "n = tn") (simp_all add: has_table_def)

lemma has_table_new_table:
  "content d tn = None \<Longrightarrow> has_table d n cols \<Longrightarrow>
   has_table (d\<lparr>content := (content d)(tn \<mapsto> tb)\<rparr>) n cols"
  by (cases "n = tn") (simp_all add: has_table_def)

lemma has_schema_rows_update:
  "has_schema d \<Longrightarrow> content d tn = Some tb \<Longrightarrow>
   has_schema (d\<lparr>content := (content d)(tn \<mapsto> tb\<lparr>rows := rs\<rparr>)\<rparr>)"
  by (simp only: has_schema_def has_table_rows_update)

lemma has_schema_new_table:
  "has_schema d \<Longrightarrow> content d tn = None \<Longrightarrow>
   has_schema (d\<lparr>content := (content d)(tn \<mapsto> tb)\<rparr>)"
  unfolding has_schema_def by (intro conjI has_table_new_table) simp_all

lemma has_schema_txn: "has_schema (d\<lparr>txn := x\<rparr>) = has_schema d"
  by (simp add: has_schema_def has_table_def)

lemma has_schema_content: "has_schema \<lparr>content = content d, txn = None\<rparr> = has_schema d"
  by (simp add: has_schema_def has_table_def)

lemma has_schema_saved:
  "has_schema \<lparr>content = saved, txn = None\<rparr> \<Longrightarrow> has_schema (d\<lparr>content := saved, txn := None\<rparr>)"
  by (simp add: has_schema_def has_table_def)

lemma conn_ok_rows_update:
  "conn_ok d \<Longrightarrow> content d tn = Some tb \<Longrightarrow>
   conn_ok (d\<lparr>content := (content d)(tn \<mapsto> tb\<lparr>rows := rs\<rparr>)\<rparr>)"
  by (simp add: conn_ok_def has_schema_rows_update)

lemma run_insert_cases:
  "run_sql (InsertOrReplace tn cs) s d = (r, s', d') \<Longrightarrow>
   d' = d \<or> (\<exists>tb rs. content d tn = Some tb \<and>
                 d' = d\<lparr>content := (content d)(tn \<mapsto> tb\<lparr>rows := rs\<rparr>)\<rparr>)"
  by (cases "content d tn") (auto simp: Let_def split: if_splits sqlval.splits)

lemma run_delete_cases:
  "run_sql (DeleteFrom tn w) s d = (r, s', d') \<Longrightarrow>
   d' = d \<or> (\<exists>tb rs. content d tn = Some tb \<and>
                 d' = d\<lparr>content := (content d)(tn \<mapsto> tb\<lparr>rows := rs\<rparr>)\<rparr>)"
  by (cases "content d tn") auto

lemma step_conn_ok:
  assumes "conn_ok d"
  shows "conn_ok (snd (snd (sqlite3_step d s)))"
proof (cases "st_sql s")
  case (InsertOrReplace tn cs)
  obtain r s' d' where st: "run_sql (InsertOrReplace tn cs) s d = (r, s', d')"
    by (cases "run_sql (InsertOrReplace tn cs) s d")
  from run_insert_cases [OF st] assms have "conn_ok d'"
    by (auto simp: conn_ok_rows_update)
  then show ?thesis
    using InsertOrReplace st by (simp add: sqlite3_step_def)
next
  case (DeleteFrom tn w)
  obtain r s' d' where st: "run_sql (DeleteFrom tn w) s d = (r, s', d')"
    by (cases "run_sql (DeleteFrom tn w) s d")
  from run_delete_cases [OF st] assms have "conn_ok d'"
    by (auto simp: conn_ok_rows_update)
  then show ?thesis
    using DeleteFrom st by (simp add: sqlite3_step_def)
next
  case (CreateTableIfNotExists tn cols)
  show ?thesis
  proof (cases "content d tn")
    case None
    then show ?thesis
      using assms CreateTableIfNotExists
      by (simp add: sqlite3_step_def conn_ok_def has_schema_new_table)
  next
    case (Some tb)
    then show ?thesis
      using assms CreateTableIfNotExists by (simp add: sqlite3_step_def)
  qed
next
  case Rollback
  then show ?thesis
    using assms
    by (cases "txn d") (simp_all add: sqlite3_step_def conn_ok_def has_schema_saved)
next
  case Begin
  then show ?thesis
    using assms
    by (cases "txn d")
       (simp_all add: sqlite3_step_def conn_ok_def has_schema_content has_schema_txn)
next
  case (SelectCol c tn w)
  then show ?thesis
    using assms by (simp add: sqlite3_step_def step_scan_def Let_def split: option.splits)
next
  case (SelectCount tn w)
  then show ?thesis
    using assms by (simp add: sqlite3_step_def step_single_def split: option.splits)
next
  case (SelectMasterTable n)
  then show ?thesis
    using assms by (simp add: sqlite3_step_def step_single_def split: option.splits)
next
  case Commit
  then show ?thesis
    using assms
    by (cases "txn d") (simp_all add: sqlite3_step_def conn_ok_def has_schema_txn)
next
  case PragmaJournalModeWAL
  then show ?thesis
    using assms by (simp add: sqlite3_step_def)
qed

lemma step_conn_ok': "conn_ok d \<Longrightarrow> sqlite3_step d s = (r, s', d') \<Longrightarrow> conn_ok d'"
  using step_conn_ok [of d s] by simp

lemma exec_conn_ok: "conn_ok d \<Longrightarrow> conn_ok (snd (sqlite3_exec d q))"
  by (auto simp: sqlite3_exec_def split: option.splits prod.splits dest: step_conn_ok')

lemma table_ok_ready: "table_ok t \<Longrightarrow> ready t"
  by (auto simp: table_ok_def ready_def conn_ok_def split: option.splits)

lemma table_ok_opened: "has_schema \<lparr>content = c, txn = None\<rparr> \<Longrightarrow> table_ok (opened c path k)"
  by (simp add: table_ok_def conn_ok_def opened_def)

lemma table_ok_fields [simp]:
  "table_ok (t\<lparr>pStmt := p\<rparr>) = table_ok t"
  "table_ok (t\<lparr>hkey := a\<rparr>) = table_ok t"
  "table_ok (t\<lparr>phkey := b\<rparr>) = table_ok t"
  by (simp_all add: table_ok_def)

lemma table_ok_step:
  "table_ok t \<Longrightarrow> db t = Some d \<Longrightarrow> sqlite3_step d s = (r, s', d') \<Longrightarrow>
   table_ok (t\<lparr>db := Some d'\<rparr>)"
  by (auto simp: table_ok_def dest: step_conn_ok')

lemma table_ok_exec:
  "table_ok t \<Longrightarrow> db t = Some d \<Longrightarrow> table_ok (t\<lparr>db := Some (snd (sqlite3_exec d q))\<rparr>)"
  by (auto simp: table_ok_def intro: exec_conn_ok)

lemma getters_table_ok:
  assumes "table_ok t"
  shows "table_ok (snd (snd (getscsn t data)))"
    "table_ok (snd (snd (getrootnode t i data)))"
    "table_ok (snd (snd (getnodebyhandle t h data)))"
    "table_ok (snd (snd (getnodebyfingerprint t fp data)))"
  using assms
  by (auto simp: getscsn_def getrootnode_def getnodebyhandle_def getnodebyfingerprint_def
      split: option.splits prod.splits if_splits intro: table_ok_step)

lemma counts_table_ok:
  assumes "table_ok t"
  shows "table_ok (snd (snd (getnumchildrenquery t h c)))"
    "table_ok (snd (snd (getnumchildfilesquery t h c)))"
    "table_ok (snd (snd (getnumchildfoldersquery t h c)))"
  using assms
  by (auto simp: getnumchildrenquery_def getnumchildfilesquery_def getnumchildfoldersquery_def
      Let_def split: option.splits prod.splits if_splits intro: table_ok_step)

lemma readhkey_table_ok: "table_ok t \<Longrightarrow> table_ok (snd (readhkey x t))"
  by (auto simp: readhkey_def Let_def split: option.splits prod.splits if_splits
      intro: table_ok_step dest: step_conn_ok' simp: table_ok_def)

lemma advance_table_ok:
  assumes "table_ok t"
  shows "table_ok (snd (snd (next_data t data)))" "table_ok (snd (snd (nexthandle t h)))"
  using assms
  by (auto simp: next_data_def nexthandle_def table_ok_def
      split: option.splits prod.splits if_splits dest: step_conn_ok')

lemma rewind_table_ok:
  assumes "table_ok t"
  shows "table_ok (rewinduser t)" "table_ok (rewindpcr t)"
    "table_ok (rewindhandleschildren t ph)" "table_ok (rewindhandlesencryptednodes t)"
    "table_ok (rewindhandlesoutshares_of t ph)" "table_ok (rewindhandlesoutshares t)"
    "table_ok (rewindhandlespendingshares_of t ph)" "table_ok (rewindhandlespendingshares t)"
  using assms
  by (simp_all add: rewinduser_def rewindpcr_def rewindhandleschildren_def
      rewindhandlesencryptednodes_def rewindhandlesoutshares_of_def rewindhandlesoutshares_def
      rewindhandlespendingshares_of_def rewindhandlespendingshares_def Let_def
      bind_pStmt_def reset_pStmt_def split: option.splits)

lemma put_table_ok:
  assumes "table_ok t"
  shows "table_ok (snd (putscsn t sn))" "table_ok (snd (putrootnode t i data))"
    "table_ok (snd (putuser t h data))" "table_ok (snd (putpcr t h data))"
    "table_ok (snd (delnode t h))" "table_ok (snd (delpcr t h))"
  using assms
  by (auto simp: putscsn_def putrootnode_def putuser_def putpcr_def delnode_def delpcr_def
      table_ok_def split: option.splits prod.splits if_splits dest: step_conn_ok')

lemma putnode_table_ok:
  assumes "table_ok t"
  shows "table_ok (snd (putnode t h ph fp attr shared node))"
proof -
  from assms have "ready t" by (rule table_ok_ready)
  then obtain d tb where t: "db t = Some d" "content d ''nodes'' = Some tb"
    "columns tb = nodes_columns"
    using ready_nodes by blast
  from assms t(1) have "conn_ok d" by (simp add: table_ok_def)
  then show ?thesis
    using conn_ok_rows_update [OF _ t(2)]
    by (simp add: putnode_eval [OF t] table_ok_def)
qed

lemma bulk_table_ok:
  assumes "table_ok t"
  shows "table_ok (truncate t)" "table_ok (begin_txn t)" "table_ok (commit t)"
    "table_ok (abort t)"
  using assms
  by (auto simp: truncate_def begin_txn_def commit_def abort_def table_ok_def Let_def
      split: option.splits intro: exec_conn_ok)

lemma open_table_ok:
  assumes "SqliteDbAccess_open x dbpath fs g name k = (Some t, fs', g')"
    and "fs (db_path dbpath name) = None \<or>
         (\<exists>c. fs (db_path dbpath name) = Some (DbFile c) \<and> has_schema \<lparr>content = c, txn = None\<rparr>)"
  shows "table_ok t"
  using assms(2)
proof
  assume f: "fs (db_path dbpath name) = None"
  obtain b1 g1 where g1: "PrnGen_genblock x g (HANDLEKEYLENGTH x) = (b1, g1)"
    by (cases "PrnGen_genblock x g (HANDLEKEYLENGTH x)")
  obtain b2 g2 where g2: "PrnGen_genblock x g1 (HANDLEKEYLENGTH x) = (b2, g2)"
    by (cases "PrnGen_genblock x g1 (HANDLEKEYLENGTH x)")
  from open_fresh [where fs = fs and dbpath = dbpath and name = name and k = k, OF f g1 g2]
    assms(1)
  show ?thesis
    by (auto simp: Let_def fresh_content_def intro!: table_ok_opened has_schema_store)
next
  assume "\<exists>c. fs (db_path dbpath name) = Some (DbFile c) \<and> has_schema \<lparr>content = c, txn = None\<rparr>"
  then obtain c where c: "fs (db_path dbpath name) = Some (DbFile c)"
    "has_schema \<lparr>content = c, txn = None\<rparr>" by blast
  from open_existing [where fs = fs and dbpath = dbpath and name = name, OF c, of x g k]
    assms(1) c(2)
  show ?thesis
    by (auto intro: table_ok_opened)
qed

subsection \<open>Tables stay B-trees\<close>

text \<open>The order the cursor relies on is kept by every statement: \<open>INSERT OR REPLACE\<close> puts
  the new row at the place of its rowid after removing the row that had it, \<open>DELETE\<close> only
  removes rows. So it holds of every table of a store that \<open>open\<close> returned and the member
  functions worked on.\<close>

lemma sorted_insort_fresh:
  fixes f :: "'a \<Rightarrow> int"
  shows "sorted_wrt (\<lambda>a b. f a < f b) xs \<Longrightarrow> \<forall>y\<in>set xs. f y \<noteq> f x \<Longrightarrow>
    sorted_wrt (\<lambda>a b. f a < f b) (insort_key f x xs)"
  by (induction xs) (auto simp: set_insort_key)

lemma keyed_insert:
  assumes "keyed tb" "pk_of (columns tb) r = SqlInt k"
  shows "keyed (tb\<lparr>rows := insort_key (rowid (columns tb)) r
           (filter (\<lambda>x. pk_of (columns tb) x \<noteq> SqlInt k) (rows tb))\<rparr>)"
proof -
  let ?f = "rowid (columns tb)"
  let ?xs = "filter (\<lambda>x. pk_of (columns tb) x \<noteq> SqlInt k) (rows tb)"
  have k: "?f r = k"
    using assms(2) by (simp add: rowid_def)
  have pks: "pk_of (columns tb) x = SqlInt (?f x)" if "x \<in> set (rows tb)" for x
    using assms(1) that by (simp add: keyed_def list_all_iff)
  have "sorted_wrt (\<lambda>a b. ?f a < ?f b) (rows tb)"
    using assms(1) by (simp add: keyed_def btree_ok_def)
  then have s: "sorted_wrt (\<lambda>a b. ?f a < ?f b) ?xs"
    by (rule sorted_wrt_filter)
  have fresh: "\<forall>y\<in>set ?xs. ?f y \<noteq> ?f r"
  proof
    fix y assume "y \<in> set ?xs"
    then have "y \<in> set (rows tb)" "pk_of (columns tb) y \<noteq> SqlInt k"
      by simp_all
    with pks [of y] show "?f y \<noteq> ?f r"
      unfolding k by auto
  qed
  have 1: "sorted_wrt (\<lambda>a b. ?f a < ?f b) (insort_key ?f r ?xs)"
    using s fresh by (rule sorted_insort_fresh)
  have 2: "pk_of (columns tb) x = SqlInt (?f x)" if "x \<in> set (insort_key ?f r ?xs)" for x
  proof -
    from that have "x = r \<or> x \<in> set (rows tb)"
      by (auto simp: set_insort_key)
    then show ?thesis
      using pks [of x] assms(2) k by auto
  qed
  show ?thesis
    unfolding keyed_def btree_ok_def list_all_iff
  proof (intro conjI ballI)
    show "sorted_wrt
        (\<lambda>a b. rowid (columns (tb\<lparr>rows := insort_key ?f r ?xs\<rparr>)) a
             < rowid (columns (tb\<lparr>rows := insort_key ?f r ?xs\<rparr>)) b)
        (rows (tb\<lparr>rows := insort_key ?f r ?xs\<rparr>))"
      using 1 by simp
  next
    fix x
    assume "x \<in> set (rows (tb\<lparr>rows := insort_key ?f r ?xs\<rparr>))"
    then have "x \<in> set (insort_key ?f r ?xs)"
      by simp
    then have "pk_of (columns tb) x = SqlInt (?f x)"
      by (rule 2)
    then show "pk_of (columns (tb\<lparr>rows := insort_key ?f r ?xs\<rparr>)) x =
        SqlInt (rowid (columns (tb\<lparr>rows := insort_key ?f r ?xs\<rparr>)) x)"
      by simp
  qed
qed

lemma keyed_delete: "keyed tb \<Longrightarrow> keyed (tb\<lparr>rows := filter P (rows tb)\<rparr>)"
  by (simp add: keyed_def btree_ok_def sorted_wrt_filter list_all_iff)

lemma keyed_empty: "keyed \<lparr>columns = cols, rows = []\<rparr>"
  by (simp add: keyed_def btree_ok_def)

lemma keyed_db_upd: "keyed_db c \<Longrightarrow> keyed tb \<Longrightarrow> keyed_db (c(tn \<mapsto> tb))"
  by (simp add: keyed_db_def)

lemma conn_keyed_upd:
  "conn_keyed d \<Longrightarrow> keyed tb \<Longrightarrow> conn_keyed (d\<lparr>content := (content d)(tn \<mapsto> tb)\<rparr>)"
  by (simp add: conn_keyed_def keyed_db_upd)

lemma conn_keyed_table: "conn_keyed d \<Longrightarrow> content d tn = Some tb \<Longrightarrow> keyed tb"
  by (simp add: conn_keyed_def keyed_db_def)

lemma step_conn_keyed:
  assumes "conn_keyed d"
  shows "conn_keyed (snd (snd (sqlite3_step d s)))"
proof (cases "st_sql s")
  case (InsertOrReplace tn cs)
  show ?thesis
  proof (cases "content d tn")
    case None
    then show ?thesis using assms InsertOrReplace by (simp add: sqlite3_step_def)
  next
    case (Some tb)
    have kt: "keyed tb" using assms Some by (rule conn_keyed_table)
    show ?thesis
      using assms InsertOrReplace Some
      by (auto simp: sqlite3_step_def Let_def conn_keyed_upd keyed_insert [OF kt]
          split: sqlval.splits)
  qed
next
  case (DeleteFrom tn w)
  show ?thesis
  proof (cases "content d tn")
    case None
    then show ?thesis using assms DeleteFrom by (simp add: sqlite3_step_def)
  next
    case (Some tb)
    have kt: "keyed tb" using assms Some by (rule conn_keyed_table)
    show ?thesis
      using assms DeleteFrom Some
      by (simp add: sqlite3_step_def conn_keyed_upd keyed_delete [OF kt])
  qed
next
  case (CreateTableIfNotExists tn cols)
  then show ?thesis
    using assms
    by (cases "content d tn") (simp_all add: sqlite3_step_def conn_keyed_upd keyed_empty)
next
  case Rollback
  then show ?thesis
    using assms by (cases "txn d") (simp_all add: sqlite3_step_def conn_keyed_def)
next
  case Begin
  then show ?thesis
    using assms by (cases "txn d") (simp_all add: sqlite3_step_def conn_keyed_def)
next
  case (SelectCol c tn w)
  then show ?thesis
    using assms by (simp add: sqlite3_step_def step_scan_def Let_def split: option.splits)
next
  case (SelectCount tn w)
  then show ?thesis
    using assms by (simp add: sqlite3_step_def step_single_def split: option.splits)
next
  case (SelectMasterTable n)
  then show ?thesis
    using assms by (simp add: sqlite3_step_def step_single_def split: option.splits)
next
  case Commit
  then show ?thesis
    using assms by (cases "txn d") (simp_all add: sqlite3_step_def conn_keyed_def)
next
  case PragmaJournalModeWAL
  then show ?thesis
    using assms by (simp add: sqlite3_step_def)
qed

lemma step_conn_keyed':
  "conn_keyed d \<Longrightarrow> sqlite3_step d s = (r, s', d') \<Longrightarrow> conn_keyed d'"
  using step_conn_keyed [of d s] by simp

lemma exec_conn_keyed: "conn_keyed d \<Longrightarrow> conn_keyed (snd (sqlite3_exec d q))"
  by (auto simp: sqlite3_exec_def split: option.splits prod.splits dest: step_conn_keyed')

lemma table_keyed_fields [simp]:
  "table_keyed (t\<lparr>pStmt := p\<rparr>) = table_keyed t"
  "table_keyed (t\<lparr>hkey := a\<rparr>) = table_keyed t"
  "table_keyed (t\<lparr>phkey := b\<rparr>) = table_keyed t"
  by (simp_all add: table_keyed_def)

lemma table_keyed_step:
  "table_keyed t \<Longrightarrow> db t = Some d \<Longrightarrow> sqlite3_step d s = (r, s', d') \<Longrightarrow>
   table_keyed (t\<lparr>db := Some d'\<rparr>)"
  by (auto simp: table_keyed_def dest: step_conn_keyed')

lemma table_keyed_btree:
  "table_keyed t \<Longrightarrow> db t = Some d \<Longrightarrow> content d tn = Some tb \<Longrightarrow> btree_ok tb"
  by (auto simp: table_keyed_def keyed_def dest: conn_keyed_table)

lemma getters_table_keyed:
  assumes "table_keyed t"
  shows "table_keyed (snd (snd (getscsn t data)))"
    "table_keyed (snd (snd (getrootnode t i data)))"
    "table_keyed (snd (snd (getnodebyhandle t h data)))"
    "table_keyed (snd (snd (getnodebyfingerprint t fp data)))"
  using assms
  by (auto simp: getscsn_def getrootnode_def getnodebyhandle_def getnodebyfingerprint_def
      split: option.splits prod.splits if_splits intro: table_keyed_step)

lemma counts_table_keyed:
  assumes "table_keyed t"
  shows "table_keyed (snd (snd (getnumchildrenquery t h c)))"
    "table_keyed (snd (snd (getnumchildfilesquery t h c)))"
    "table_keyed (snd (snd (getnumchildfoldersquery t h c)))"
  using assms
  by (auto simp: getnumchildrenquery_def getnumchildfilesquery_def getnumchildfoldersquery_def
      Let_def split: option.splits prod.splits if_splits intro: table_keyed_step)

lemma readhkey_table_keyed: "table_keyed t \<Longrightarrow> table_keyed (snd (readhkey x t))"
  by (auto simp: readhkey_def Let_def split: option.splits prod.splits if_splits
      intro: table_keyed_step dest: step_conn_keyed' simp: table_keyed_def)

lemma advance_table_keyed:
  assumes "table_keyed t"
  shows "table_keyed (snd (snd (next_data t data)))" "table_keyed (snd (snd (nexthandle t h)))"
  using assms
  by (auto simp: next_data_def nexthandle_def table_keyed_def
      split: option.splits prod.splits if_splits dest: step_conn_keyed')

lemma rewind_table_keyed:
  assumes "table_keyed t"
  shows "table_keyed (rewinduser t)" "table_keyed (rewindpcr t)"
    "table_keyed (rewindhandleschildren t ph)" "table_keyed (rewindhandlesencryptednodes t)"
    "table_keyed (rewindhandlesoutshares_of t ph)" "table_keyed (rewindhandlesoutshares t)"
    "table_keyed (rewindhandlespendingshares_of t ph)"
    "table_keyed (rewindhandlespendingshares t)"
  using assms
  by (simp_all add: rewinduser_def rewindpcr_def rewindhandleschildren_def
      rewindhandlesencryptednodes_def rewindhandlesoutshares_of_def rewindhandlesoutshares_def
      rewindhandlespendingshares_of_def rewindhandlespendingshares_def Let_def
      bind_pStmt_def reset_pStmt_def split: option.splits)

lemma put_table_keyed:
  assumes "table_keyed t"
  shows "table_keyed (snd (putscsn t sn))" "table_keyed (snd (putrootnode t i data))"
    "table_keyed (snd (putuser t h data))" "table_keyed (snd (putpcr t h data))"
    "table_keyed (snd (delnode t h))" "table_keyed (snd (delpcr t h))"
  using assms
  by (auto simp: putscsn_def putrootnode_def putuser_def putpcr_def delnode_def delpcr_def
      table_keyed_def split: option.splits prod.splits if_splits dest: step_conn_keyed')

lemma pk_of_nodes: "pk_of nodes_columns x = field nodes_columns x ''nodehandle''"
  by (simp add: pk_of_def nodes_columns_def)

lemma putnode_table_keyed:
  assumes "ready t" "table_keyed t"
  shows "table_keyed (snd (putnode t h ph fp attr shared node))"
proof -
  from assms(1) obtain d tb where t: "db t = Some d" "content d ''nodes'' = Some tb"
    "columns tb = nodes_columns"
    using ready_nodes by blast
  from assms(2) t(1) have c: "conn_keyed d" by (simp add: table_keyed_def)
  then have "keyed tb" using t(2) by (rule conn_keyed_table)
  from keyed_insert [OF this, of "node_row h ph fp attr shared node" "sint h"]
  have "keyed (tb\<lparr>rows := insort_key (rowid nodes_columns) (node_row h ph fp attr shared node)
              (filter (\<lambda>x. field nodes_columns x ''nodehandle'' \<noteq> SqlInt (sint h))
                 (rows tb))\<rparr>)"
    using t(3) by (simp add: pk_of_nodes)
  then show ?thesis
    using c by (simp add: putnode_eval [OF t] table_keyed_def conn_keyed_upd)
qed

lemma bulk_table_keyed:
  assumes "table_keyed t"
  shows "table_keyed (truncate t)" "table_keyed (begin_txn t)" "table_keyed (commit t)"
    "table_keyed (abort t)"
  using assms
  by (auto simp: truncate_def begin_txn_def commit_def abort_def table_keyed_def Let_def
      split: option.splits intro: exec_conn_keyed)

lemma keyed_db_store:
  assumes "keyed \<lparr>columns = init_columns, rows = ri\<rparr>"
    "keyed \<lparr>columns = nodes_columns, rows = rn\<rparr>"
    "keyed \<lparr>columns = users_columns, rows = ru\<rparr>"
    "keyed \<lparr>columns = pcrs_columns, rows = rp\<rparr>"
  shows "keyed_db (store_content ri rn ru rp)"
  unfolding store_content_def by (intro keyed_db_upd assms) (simp add: keyed_db_def)

lemma keyed_db_fresh: "keyed_db (fresh_content c1 c2)"
  unfolding fresh_content_def
  by (rule keyed_db_store)
     (simp_all add: keyed_def btree_ok_def rowid_def pk_of_def init_columns_def field_def)

lemma table_keyed_opened: "keyed_db c \<Longrightarrow> table_keyed (opened c path k)"
  by (simp add: table_keyed_def conn_keyed_def opened_def)

lemma open_table_keyed:
  assumes "SqliteDbAccess_open x dbpath fs g name k = (Some t, fs', g')"
    and "fs (db_path dbpath name) = None \<or>
         (\<exists>c. fs (db_path dbpath name) = Some (DbFile c) \<and>
              has_schema \<lparr>content = c, txn = None\<rparr> \<and> keyed_db c)"
  shows "table_keyed t"
  using assms(2)
proof
  assume f: "fs (db_path dbpath name) = None"
  obtain b1 g1 where g1: "PrnGen_genblock x g (HANDLEKEYLENGTH x) = (b1, g1)"
    by (cases "PrnGen_genblock x g (HANDLEKEYLENGTH x)")
  obtain b2 g2 where g2: "PrnGen_genblock x g1 (HANDLEKEYLENGTH x) = (b2, g2)"
    by (cases "PrnGen_genblock x g1 (HANDLEKEYLENGTH x)")
  from open_fresh [where fs = fs and dbpath = dbpath and name = name and k = k, OF f g1 g2]
    assms(1)
  show ?thesis
    by (auto simp: Let_def intro!: table_keyed_opened keyed_db_fresh)
next
  assume "\<exists>c. fs (db_path dbpath name) = Some (DbFile c) \<and>
      has_schema \<lparr>content = c, txn = None\<rparr> \<and> keyed_db c"
  then obtain c where c: "fs (db_path dbpath name) = Some (DbFile c)"
    "has_schema \<lparr>content = c, txn = None\<rparr>" "keyed_db c" by blast
  from open_existing [where fs = fs and dbpath = dbpath and name = name, OF c(1,2), of x g k]
    assms(1) c(3)
  show ?thesis
    by (auto intro: table_keyed_opened)
qed

end
